theory Spec2Isabelle
  imports Main "HOL-Library.Sublist"
begin

section \<open>String helpers of \<open>lib/utils.ts\<close>\<close>

text \<open>
  A JavaScript string is a sequence of code units; \<open>length\<close> and \<open>substring\<close> count
  and cut code units, which is what \<^typ>\<open>string\<close> (a list of characters) does here.
  The \<open>length\<close> parameter of the helpers is a JavaScript number; the integers among
  them are modelled, negative ones included.
\<close>

text \<open>
  \<open>String.prototype.substring(start, end)\<close>: both indices are clamped to
  \<open>[0, s.length]\<close> and swapped when \<open>start > end\<close>.
\<close>

definition substring :: "string \<Rightarrow> int \<Rightarrow> int \<Rightarrow> string" where
  "substring s start end' =
     (let len = int (length s);
          finalStart = min (max start 0) len;
          finalEnd = min (max end' 0) len;
          from = min finalStart finalEnd;
          to = max finalStart finalEnd
      in take (nat (to - from)) (drop (nat from) s))"

text \<open>\<open>s.substring(start)\<close>: a missing \<open>end\<close> is \<open>s.length\<close>.\<close>

definition substring_from :: "string \<Rightarrow> int \<Rightarrow> string" where
  "substring_from s start = substring s start (int (length s))"

text \<open>
  \<^verbatim>\<open>
  export const truncateEthereumAddress = (address, length = 4): string => {
    if (!address) { return ""; }
    if (address.length <= 2 + length * 2) { return address; }
    return `${address.substring(0, length + 2)}...${address.substring(address.length - length)}`;
  };
  \<close>
\<close>

definition truncateEthereumAddress :: "string \<Rightarrow> int \<Rightarrow> string" where
  "truncateEthereumAddress address len =
     (if address = [] then []
      else if int (length address) \<le> 2 + len * 2 then address
      else substring address 0 (len + 2) @ ''...'' @
           substring_from address (int (length address) - len))"

text \<open>
  \<^verbatim>\<open>
  export const truncateText = (text: string, length = 4): string => {
    if (!text) { return ""; }
    if (text.length <= length * 2) { return text; }
    return `${text.substring(0, length)}...${text.substring(text.length - length)}`;
  };
  \<close>
\<close>

definition truncateText :: "string \<Rightarrow> int \<Rightarrow> string" where
  "truncateText text len =
     (if text = [] then []
      else if int (length text) \<le> len * 2 then text
      else substring text 0 len @ ''...'' @
           substring_from text (int (length text) - len))"


text \<open>The truncated form: \<open>h\<close> leading and \<open>k\<close> trailing code units around three dots.\<close>

definition ellipsis :: "nat \<Rightarrow> nat \<Rightarrow> string \<Rightarrow> string" where
  "ellipsis h k s = take h s @ ''...'' @ drop (length s - k) s"

section \<open>JavaScript values used by the purchase strategies\<close>

text \<open>
  A thrown value. \<open>JsError m\<close> is an instance of \<open>Error\<close> with message \<open>m\<close>;
  \<open>JsValue msg str\<close> is any other thrown value, with its \<open>message\<close> property when
  that is a string, and the string \<open>String(e)\<close> makes of it.
\<close>

datatype thrown = JsError string | JsValue "string option" string

text \<open>\<open>e instanceof Error ? e.message : dflt\<close>\<close>

fun message_or :: "thrown \<Rightarrow> string \<Rightarrow> string" where
  "message_or (JsError m) dflt = m"
| "message_or (JsValue _ _) dflt = dflt"

text \<open>\<open>e instanceof Error ? e : new Error(String(e))\<close>, then \<open>.message\<close>\<close>

fun as_error_message :: "thrown \<Rightarrow> string" where
  "as_error_message (JsError m) = m"
| "as_error_message (JsValue _ str) = str"

text \<open>\<open>e.message\<close> on a value typed \<open>any\<close>: \<open>None\<close> is \<open>undefined\<close>.\<close>

fun message_of :: "thrown \<Rightarrow> string option" where
  "message_of (JsError m) = Some m"
| "message_of (JsValue m _) = m"

text \<open>\<open>haystack.includes(needle)\<close>\<close>

definition str_includes :: "string \<Rightarrow> string \<Rightarrow> bool" where
  "str_includes haystack needle = sublist needle haystack"

text \<open>Decimal rendering of a bigint or of an integral number (\<open>toString()\<close>, template strings).\<close>

function nat_toString :: "nat \<Rightarrow> string" where
  "nat_toString n =
     (if n < 10 then [char_of (48 + n)]
      else nat_toString (n div 10) @ [char_of (48 + n mod 10)])"
  by pat_completeness auto
termination
  by (relation "measure id") auto

definition toString :: "int \<Rightarrow> string" where
  "toString i = (if i < 0 then ''-'' @ nat_toString (nat (- i)) else nat_toString (nat i))"

text \<open>\<open>toLowerCase()\<close> on the ASCII letters.\<close>

definition toLowerCase :: "string \<Rightarrow> string" where
  "toLowerCase s =
     map (\<lambda>c. if 65 \<le> (of_char c :: nat) \<and> (of_char c :: nat) \<le> 90
               then char_of ((of_char c :: nat) + 32) else c) s"

definition zeroAddress :: string where
  "zeroAddress = ''0x0000000000000000000000000000000000000000''"

subsection \<open>Domain entities of the marketplace SDK and the chain library\<close>

text \<open>The fields of \<open>MarketplaceOrder\<close> that the strategies read.\<close>

record MarketplaceOrder =
  order_id :: string
  chainId :: int
  currency :: string
  price :: string
  signature :: string
  hypercert_id :: string

record Currency =
  address :: string

record Taker =
  recipient :: string
  additionalParameters :: string

record Transaction =
  hash :: string

record TransactionReceipt =
  status :: string
  transactionHash :: string

subsection \<open>Host environment detection\<close>

record Window =
  userAgent :: string
  hostname :: string
  isFrame :: bool

text \<open>
  \<^verbatim>\<open>
  const isFarcasterEnvironment = () => {
    if (typeof window === 'undefined') return false;
    const userAgent = navigator.userAgent.toLowerCase();
    const isFarcasterApp = userAgent.includes('farcaster') ||
                          window.location.hostname.includes('warpcast') ||
                          window.parent !== window;
    return isFarcasterApp;
  };
  \<close>
  \<open>None\<close> is \<open>typeof window === 'undefined'\<close>.
\<close>

definition isFarcasterEnvironment :: "Window option \<Rightarrow> bool" where
  "isFarcasterEnvironment w =
     (case w of
        None \<Rightarrow> False
      | Some win \<Rightarrow>
          str_includes (toLowerCase (userAgent win)) ''farcaster'' \<or>
          str_includes (hostname win) ''warpcast'' \<or>
          isFrame win)"

section \<open>Observable behaviour: events and the world outside the strategy\<close>

datatype step_status = error | completed

datatype success_message =
    Congratulations int int string
  | TransactionSuccessful
  | SubmittedToSafe

text \<open>
  Every call that leaves the strategy is an event of the run; a call that can fail
  carries its outcome (\<open>Inl\<close> what it threw, \<open>Inr\<close> what it resolved to).
  \<open>console\<close> output is not part of the trace.
\<close>

datatype event =
    SetOpen bool
  | SetSteps "(string \<times> string) list"
  | SetDialogStep string "step_status option" "string option"
  | SetExtraContent success_message string "int option" "TransactionReceipt option" bool "string option"
  | CreateFractionalSaleTakerBid MarketplaceOrder string string string "thrown + Taker"
  | GetERC20Allowance string "thrown + int"
  | ApproveErc20 string int "int option" "thrown + Transaction"
  | ApproveErc20Safe string string int "thrown + unit"
  | WaitForTransactionReceipt string "int option" "int option" "thrown + TransactionReceipt"
  | IsTransferManagerApproved "thrown + bool"
  | IsTransferManagerApprovedSafe string "thrown + bool"
  | GrantTransferManagerApproval "thrown + Transaction"
  | GrantTransferManagerApprovalSafe string "thrown + unit"
  | GetReferralTag string string "thrown + string"
  | SignMessage string "thrown + string"
  | ExecuteOrder MarketplaceOrder Taker string "int option" "thrown + Transaction"
  | ExecuteOrderSafe string MarketplaceOrder Taker string "int option" "thrown + unit"
  | SubmitReferral string string int "thrown + unit"
  | EmitHash string
  | EmitReceipt TransactionReceipt
  | EmitError thrown

text \<open>
  The strategy object (\<open>this\<close>) and everything it calls that is not in the strategy
  files: the marketplace SDK client, the wallet library, the referral SDK, the
  repository's own \<open>getCurrencyByAddress\<close>, \<open>getERC20Allowance\<close>,
  \<open>decodeContractError\<close> and \<open>SUPPORTED_CHAINS\<close>, the clock, and \<open>BigInt\<close>.
  Within one run the outcome of a call is a function of its arguments.
  \<open>executeOrder\<close> and \<open>grantTransferManagerApproval\<close> stand for building the
  contract call and awaiting its \<open>call()\<close>. The callbacks of the dialog
  (\<open>setDialogStep\<close>, \<open>setSteps\<close>, \<open>setOpen\<close>, \<open>setExtraContent\<close>), the store
  (\<open>emitHash\<close>, \<open>emitError\<close>), \<open>getCurrencyByAddress\<close>, \<open>decodeContractError\<close>
  and the lookup in \<open>SUPPORTED_CHAINS\<close> are taken to return normally; every other
  call can throw. \<open>typeErrorMessage\<close> is the message of the \<open>TypeError\<close> the
  engine raises for a method call on \<open>undefined\<close>.
\<close>

record env =
  this_exchangeClient :: bool
  this_chainId :: "int option"
  this_walletClient_data :: bool
  this_address :: string
  window :: "Window option"
  getCurrencyByAddress :: "int \<Rightarrow> string \<Rightarrow> Currency option"
  createFractionalSaleTakerBid ::
    "MarketplaceOrder \<Rightarrow> string \<Rightarrow> string \<Rightarrow> string \<Rightarrow> thrown + Taker"
  bigInt :: "string \<Rightarrow> thrown + int"
  getERC20Allowance :: "string \<Rightarrow> thrown + int"
  approveErc20 :: "string \<Rightarrow> int \<Rightarrow> int option \<Rightarrow> thrown + Transaction"
  approveErc20Safe :: "string \<Rightarrow> string \<Rightarrow> int \<Rightarrow> thrown + unit"
  waitForTransactionReceipt ::
    "string \<Rightarrow> int option \<Rightarrow> int option \<Rightarrow> thrown + TransactionReceipt"
  isTransferManagerApproved :: "thrown + bool"
  isTransferManagerApprovedSafe :: "string \<Rightarrow> thrown + bool"
  grantTransferManagerApproval :: "thrown + Transaction"
  grantTransferManagerApprovalSafe :: "string \<Rightarrow> thrown + unit"
  getReferralTag :: "string \<Rightarrow> string \<Rightarrow> thrown + string"
  dateNow :: int
  signMessage :: "string \<Rightarrow> thrown + string"
  executeOrder ::
    "MarketplaceOrder \<Rightarrow> Taker \<Rightarrow> string \<Rightarrow> int option \<Rightarrow> thrown + Transaction"
  executeOrderSafe ::
    "string \<Rightarrow> MarketplaceOrder \<Rightarrow> Taker \<Rightarrow> string \<Rightarrow> int option \<Rightarrow> thrown + unit"
  submitReferral :: "string \<Rightarrow> string \<Rightarrow> int \<Rightarrow> thrown + unit"
  decodeContractError :: "thrown \<Rightarrow> string \<Rightarrow> string"
  SUPPORTED_CHAINS :: "int list"
  typeErrorMessage :: string

subsection \<open>Sequencing of awaited calls\<close>

text \<open>
  A piece of the \<open>async\<close> function: the events it produced, and either the value it
  threw or its result. Each \<open>await\<close> finishes before the next statement runs, so the
  events of a sequence are the events of its parts, in order.
\<close>

type_synonym 'a run = "event list \<times> (thrown + 'a)"

definition returns :: "'a \<Rightarrow> 'a run" where
  "returns a = ([], Inr a)"

definition throws :: "thrown \<Rightarrow> 'a run" where
  "throws e = ([], Inl e)"

definition emit :: "event \<Rightarrow> unit run" where
  "emit ev = ([ev], Inr ())"

text \<open>An outside call: the event records the call with its outcome, which is returned or thrown.\<close>

definition call :: "(thrown + 'a \<Rightarrow> event) \<Rightarrow> thrown + 'a \<Rightarrow> 'a run" where
  "call ev outcome = ([ev outcome], outcome)"

text \<open>A computation that can throw and is not an event of its own (\<open>BigInt(...)\<close>).\<close>

definition evaluate :: "thrown + 'a \<Rightarrow> 'a run" where
  "evaluate outcome = ([], outcome)"

definition andThen :: "'a run \<Rightarrow> ('a \<Rightarrow> 'b run) \<Rightarrow> 'b run" where
  "andThen m f =
     (case m of
        (t, Inl e) \<Rightarrow> (t, Inl e)
      | (t, Inr a) \<Rightarrow> (case f a of (t', r) \<Rightarrow> (t @ t', r)))"

definition tryCatch :: "'a run \<Rightarrow> (thrown \<Rightarrow> 'a run) \<Rightarrow> 'a run" where
  "tryCatch m handler =
     (case m of
        (t, Inl e) \<Rightarrow> (case handler e of (t', r) \<Rightarrow> (t @ t', r))
      | (t, Inr a) \<Rightarrow> (t, Inr a))"

text \<open>\<open>await setStep(id)\<close>, \<open>await setStep(id, status, message)\<close>\<close>

definition setStep :: "string \<Rightarrow> step_status option \<Rightarrow> string option \<Rightarrow> unit run" where
  "setStep ident st msg = emit (SetDialogStep ident st msg)"

text \<open>\<open>SUPPORTED_CHAINS.find((x) => x.id === order.chainId)\<close>\<close>

definition find_chain :: "int list \<Rightarrow> int \<Rightarrow> int option" where
  "find_chain cs c = find (\<lambda>x. x = c) cs"

definition invalid_currency_message :: "MarketplaceOrder \<Rightarrow> string" where
  "invalid_currency_message order =
     ''Invalid currency '' @ currency order @ '' on chain '' @ toString (chainId order)"


section \<open>\<open>EOABuyFractionalStrategy.execute\<close> (\<open>components/EOABuyFractionalStrategy.tsx\<close>)\<close>

definition EOA_steps :: "(string \<times> string) list" where
  "EOA_steps =
     [(''Setting up order execution'', ''Setting up order execution''),
      (''ERC20'', ''Setting approval''),
      (''Transfer manager'', ''Approving transfer manager''),
      (''Divvi referral setup'', ''Setting up referral attribution''),
      (''Awaiting buy signature'', ''Awaiting buy signature''),
      (''Awaiting confirmation'', ''Awaiting confirmation'')]"

text \<open>
  The first \<open>try\<close> block, the same text in the three strategy files: look the currency
  up, build the taker bid. The variable \<open>currency\<close> is returned as the option it is.
\<close>

definition setup_order_execution ::
  "env \<Rightarrow> MarketplaceOrder \<Rightarrow> int \<Rightarrow> string \<Rightarrow> (Currency option \<times> Taker) run" where
  "setup_order_execution env order unitAmount pricePerUnit =
     tryCatch
       (andThen (setStep ''Setting up order execution'' None None) (\<lambda>_.
        case getCurrencyByAddress env (chainId order) (currency order) of
          None \<Rightarrow> throws (JsError (invalid_currency_message order))
        | Some cur \<Rightarrow>
            andThen (call (CreateFractionalSaleTakerBid order (this_address env)
                             (toString unitAmount) pricePerUnit)
                       (createFractionalSaleTakerBid env order (this_address env)
                             (toString unitAmount) pricePerUnit)) (\<lambda>takerOrder.
            returns (Some cur, takerOrder))))
       (\<lambda>e.
          andThen (setStep ''Setting up order execution'' (Some error)
                     (Some (message_or e ''Error setting up order execution''))) (\<lambda>_.
          throws (JsError ''Error setting up order execution'')))"

text \<open>The message chosen by the \<open>catch\<close> of the ERC20 block (lines 236-247).\<close>

definition EOA_ERC20_errorMessage :: "string \<Rightarrow> string" where
  "EOA_ERC20_errorMessage m =
     (if str_includes m ''insufficient funds'' then
        ''Insufficient funds for approval. Please ensure you have enough ETH for gas fees.''
      else if str_includes m ''user rejected'' \<or> str_includes m ''User rejected'' then
        ''Approval transaction was rejected. Please try again and confirm the transaction.''
      else if str_includes m ''does not support'' then
        ''Wallet compatibility issue. Please try opening this page in a regular browser.''
      else ''Approval failed: '' @ m)"

text \<open>
  The ERC20 block (lines 153-251). In the mini-app host the allowance is not read and the
  approval is attempted directly; an error whose message mentions \<open>allowance\<close>,
  \<open>approved\<close> or \<open>insufficient\<close> is dropped by the inner \<open>catch\<close>. Reading
  \<open>.includes\<close> of a missing \<open>message\<close> is a \<open>TypeError\<close> thrown from that handler.
\<close>

definition EOA_ERC20 ::
  "env \<Rightarrow> bool \<Rightarrow> MarketplaceOrder \<Rightarrow> Currency \<Rightarrow> int \<Rightarrow> unit run" where
  "EOA_ERC20 env isInFarcaster order cur totalPrice =
     tryCatch
       (andThen (setStep ''ERC20'' None None) (\<lambda>_.
        if address cur \<noteq> zeroAddress then
          (if isInFarcaster then
             tryCatch
               (andThen (call (ApproveErc20 (currency order) totalPrice (Some 100000))
                           (approveErc20 env (currency order) totalPrice (Some 100000))) (\<lambda>approveTx.
                andThen (call (WaitForTransactionReceipt (hash approveTx) (Some 120000) (Some 2000))
                           (waitForTransactionReceipt env (hash approveTx) (Some 120000) (Some 2000)))
                  (\<lambda>receipt.
                if status receipt \<noteq> ''success''
                then throws (JsError ''Approval transaction failed'')
                else returns ())))
               (\<lambda>approvalError.
                  case message_of approvalError of
                    None \<Rightarrow> throws (JsError (typeErrorMessage env))
                  | Some m \<Rightarrow>
                      if \<not> str_includes m ''allowance'' \<and>
                         \<not> str_includes m ''approved'' \<and>
                         \<not> str_includes m ''insufficient''
                      then throws approvalError
                      else returns ())
           else
             andThen (call (GetERC20Allowance (currency order))
                        (getERC20Allowance env (currency order))) (\<lambda>currentAllowance.
             if currentAllowance < totalPrice then
               andThen (call (ApproveErc20 (currency order) totalPrice None)
                          (approveErc20 env (currency order) totalPrice None)) (\<lambda>approveTx.
               andThen (call (WaitForTransactionReceipt (hash approveTx) (Some 60000) None)
                          (waitForTransactionReceipt env (hash approveTx) (Some 60000) None))
                 (\<lambda>receipt.
               if status receipt \<noteq> ''success''
               then throws (JsError ''Approval transaction failed'')
               else returns ()))
             else returns ()))
        else returns ()))
       (\<lambda>e.
          let errorMessage = EOA_ERC20_errorMessage (as_error_message e) in
          andThen (setStep ''ERC20'' (Some error) (Some errorMessage)) (\<lambda>_.
          throws (JsError errorMessage)))"

text \<open>The message chosen by the \<open>catch\<close> of the transfer-manager block (lines 324-334).\<close>

definition EOA_transferManager_errorMessage :: "string \<Rightarrow> string" where
  "EOA_transferManager_errorMessage m =
     (if str_includes m ''user rejected'' then
        ''Transfer manager approval was rejected. This is required to complete the purchase.''
      else if str_includes m ''does not support'' then
        ''Wallet compatibility issue with transfer manager. Please try in a regular browser.''
      else ''Transfer manager approval failed: '' @ m)"

text \<open>The transfer-manager block (lines 254-338).\<close>

definition EOA_transferManager :: "env \<Rightarrow> bool \<Rightarrow> unit run" where
  "EOA_transferManager env isInFarcaster =
     tryCatch
       (andThen (setStep ''Transfer manager'' None None) (\<lambda>_.
        if isInFarcaster then
          tryCatch
            (andThen (call GrantTransferManagerApproval (grantTransferManagerApproval env))
               (\<lambda>transferManagerApprove.
             andThen (call (WaitForTransactionReceipt (hash transferManagerApprove) (Some 120000) None)
                        (waitForTransactionReceipt env (hash transferManagerApprove) (Some 120000) None))
               (\<lambda>receipt.
             if status receipt \<noteq> ''success''
             then throws (JsError ''Transfer manager approval failed'')
             else returns ())))
            (\<lambda>transferError.
               let m = as_error_message transferError in
               if \<not> str_includes m ''approved'' \<and> \<not> str_includes m ''already''
               then throws (JsError m)
               else returns ())
        else
          andThen (call IsTransferManagerApproved (isTransferManagerApproved env)) (\<lambda>isApproved.
          if \<not> isApproved then
            andThen (call GrantTransferManagerApproval (grantTransferManagerApproval env))
              (\<lambda>transferManagerApprove.
            andThen (call (WaitForTransactionReceipt (hash transferManagerApprove) (Some 60000) None)
                       (waitForTransactionReceipt env (hash transferManagerApprove) (Some 60000) None))
              (\<lambda>receipt.
            if status receipt \<noteq> ''success''
            then throws (JsError ''Transfer manager approval failed'')
            else returns ()))
          else returns ())))
       (\<lambda>e.
          let errorMessage = EOA_transferManager_errorMessage (as_error_message e) in
          andThen (setStep ''Transfer manager'' (Some error) (Some errorMessage)) (\<lambda>_.
          throws (JsError errorMessage)))"

definition divvi_consumer :: string where
  "divvi_consumer = ''0x21dfd1CfD1d45801f46B0F40Aed056b064045aA2''"

text \<open>\<open>order.id || 'unknown'\<close>\<close>

definition order_id_or_unknown :: "MarketplaceOrder \<Rightarrow> string" where
  "order_id_or_unknown order = (if order_id order = [] then ''unknown'' else order_id order)"

definition EOA_referralMessage :: "string \<Rightarrow> MarketplaceOrder \<Rightarrow> int \<Rightarrow> string" where
  "EOA_referralMessage referralTag order now =
     ''Divvi Referral Attribution'' @ [CHR 0x0A] @
     ''Referral Tag: '' @ referralTag @ [CHR 0x0A] @
     ''Order ID: '' @ order_id_or_unknown order @ [CHR 0x0A] @
     ''Timestamp: '' @ toString now"

text \<open>
  The referral block (lines 340-371). Its result is the pair of the variables
  \<open>signedMessage\<close> and \<open>referralSignature\<close>, which stay empty when the block throws;
  the \<open>catch\<close> does not rethrow.
\<close>

definition EOA_referral :: "env \<Rightarrow> MarketplaceOrder \<Rightarrow> (string \<times> string) run" where
  "EOA_referral env order =
     tryCatch
       (andThen (setStep ''Divvi referral setup'' None None) (\<lambda>_.
        andThen (call (GetReferralTag (this_address env) divvi_consumer)
                   (getReferralTag env (this_address env) divvi_consumer)) (\<lambda>referralTag.
        let referralMessage = EOA_referralMessage referralTag order (dateNow env) in
        andThen (call (SignMessage referralMessage) (signMessage env referralMessage))
          (\<lambda>referralSignature.
        returns (referralMessage, referralSignature)))))
       (\<lambda>e.
          andThen (setStep ''Divvi referral setup'' (Some error)
                     (Some (message_or e ''Error setting up referral''))) (\<lambda>_.
          returns ([], [])))"

text \<open>
  The inner \<open>try\<close> around \<open>submitReferral\<close>, the same text in the three files: the
  referral is submitted when both strings are non-empty, and what it throws is dropped.
\<close>

definition submit_referral :: "env \<Rightarrow> string \<Rightarrow> string \<Rightarrow> int \<Rightarrow> unit run" where
  "submit_referral env signedMessage referralSignature thisChainId =
     tryCatch
       (if signedMessage \<noteq> [] \<and> referralSignature \<noteq> [] then
          call (SubmitReferral signedMessage referralSignature thisChainId)
            (submitReferral env signedMessage referralSignature thisChainId)
        else returns ())
       (\<lambda>err. returns ())"

text \<open>
  The message of the success dialog. The percentage shown is computed in floating point
  from the two bigints, which are kept as they are.
\<close>

definition EOA_success_message :: "int \<Rightarrow> string option \<Rightarrow> int option \<Rightarrow> success_message" where
  "EOA_success_message unitAmount hypercertName totalUnitsInHypercert =
     (case (hypercertName, totalUnitsInHypercert) of
        (Some hname, Some totalUnits) \<Rightarrow>
          if hname \<noteq> [] then Congratulations unitAmount totalUnits hname else TransactionSuccessful
      | _ \<Rightarrow> TransactionSuccessful)"

text \<open>The order-execution block (lines 373-446).\<close>

definition EOA_executeOrder ::
  "env \<Rightarrow> int \<Rightarrow> MarketplaceOrder \<Rightarrow> int \<Rightarrow> string option \<Rightarrow> int option \<Rightarrow>
   Currency \<Rightarrow> Taker \<Rightarrow> int \<Rightarrow> string \<Rightarrow> string \<Rightarrow> unit run" where
  "EOA_executeOrder env thisChainId order unitAmount hypercertName totalUnitsInHypercert
       cur takerOrder totalPrice signedMessage referralSignature =
     tryCatch
       (andThen (setStep ''Awaiting buy signature'' None None) (\<lambda>_.
        let overrides = (if address cur = zeroAddress then Some totalPrice else None) in
        andThen (call (ExecuteOrder order takerOrder (signature order) overrides)
                   (executeOrder env order takerOrder (signature order) overrides)) (\<lambda>tx.
        andThen (setStep ''Awaiting confirmation'' None None) (\<lambda>_.
        andThen (call (WaitForTransactionReceipt (hash tx) None None)
                   (waitForTransactionReceipt env (hash tx) None None)) (\<lambda>receipt.
        andThen (submit_referral env signedMessage referralSignature thisChainId) (\<lambda>_.
        andThen (emit (EmitHash (transactionHash receipt))) (\<lambda>_.
        andThen (setStep ''Awaiting confirmation'' (Some completed) None) (\<lambda>_.
        emit (SetExtraContent
                (EOA_success_message unitAmount hypercertName totalUnitsInHypercert)
                (hypercert_id order)
                (find_chain (SUPPORTED_CHAINS env) (chainId order))
                (Some receipt) False None)))))))))
       (\<lambda>e.
          let decodedMessage = decodeContractError env e ''Error buying listing'' in
          andThen (setStep ''Awaiting confirmation'' (Some error) (Some decodedMessage)) (\<lambda>_.
          andThen (emit (EmitError e)) (\<lambda>_.
          throws (JsError decodedMessage))))"

text \<open>
  The three guards at the head of \<open>execute\<close>, the same in the three files: each closes
  the dialog and throws. \<open>!this.chainId\<close> holds for \<open>undefined\<close> and for \<open>0\<close>.
  The result is the chain id that passed.
\<close>

definition initial_guards :: "env \<Rightarrow> int run" where
  "initial_guards env =
     (if \<not> this_exchangeClient env then
        andThen (emit (SetOpen False)) (\<lambda>_. throws (JsError ''No client''))
      else
        case this_chainId env of
          None \<Rightarrow> andThen (emit (SetOpen False)) (\<lambda>_. throws (JsError ''No chain id''))
        | Some thisChainId \<Rightarrow>
            if thisChainId = 0 then
              andThen (emit (SetOpen False)) (\<lambda>_. throws (JsError ''No chain id''))
            else if \<not> this_walletClient_data env then
              andThen (emit (SetOpen False)) (\<lambda>_. throws (JsError ''No wallet client data''))
            else returns thisChainId)"

text \<open>
  \<open>execute\<close> (lines 50-447). After the setup block the code tests \<open>currency\<close> again
  and computes \<open>totalPrice = BigInt(order.price) * unitAmount\<close> outside any \<open>try\<close>.
\<close>

definition EOA_execute ::
  "env \<Rightarrow> MarketplaceOrder \<Rightarrow> int \<Rightarrow> string \<Rightarrow> string option \<Rightarrow> int option \<Rightarrow> unit run" where
  "EOA_execute env order unitAmount pricePerUnit hypercertName totalUnitsInHypercert =
     andThen (initial_guards env) (\<lambda>thisChainId.
     let isInFarcaster = isFarcasterEnvironment (window env) in
     andThen (emit (SetSteps EOA_steps)) (\<lambda>_.
     andThen (emit (SetOpen True)) (\<lambda>_.
     andThen (setup_order_execution env order unitAmount pricePerUnit) (\<lambda>(currency_opt, takerOrder).
     case currency_opt of
       None \<Rightarrow> throws (JsError (invalid_currency_message order))
     | Some cur \<Rightarrow>
     andThen (evaluate (bigInt env (price order))) (\<lambda>orderPrice.
     let totalPrice = orderPrice * unitAmount in
     andThen (EOA_ERC20 env isInFarcaster order cur totalPrice) (\<lambda>_.
     andThen (EOA_transferManager env isInFarcaster) (\<lambda>_.
     andThen (EOA_referral env order) (\<lambda>(signedMessage, referralSignature).
     EOA_executeOrder env thisChainId order unitAmount hypercertName totalUnitsInHypercert
       cur takerOrder totalPrice signedMessage referralSignature))))))))"


section \<open>\<open>EOABuyFractionalStrategy.execute\<close>, the variant without host detection (\<open>part_001\<close>)\<close>

text \<open>The ERC20 block (lines 132-158): the receipt of the approval is awaited, its status is not read.\<close>

definition EOA_ERC20_part_001 ::
  "env \<Rightarrow> MarketplaceOrder \<Rightarrow> Currency \<Rightarrow> int \<Rightarrow> unit run" where
  "EOA_ERC20_part_001 env order cur totalPrice =
     tryCatch
       (andThen (setStep ''ERC20'' None None) (\<lambda>_.
        if address cur \<noteq> zeroAddress then
          andThen (call (GetERC20Allowance (currency order))
                     (getERC20Allowance env (currency order))) (\<lambda>currentAllowance.
          if currentAllowance < totalPrice then
            andThen (call (ApproveErc20 (currency order) totalPrice None)
                       (approveErc20 env (currency order) totalPrice None)) (\<lambda>approveTx.
            andThen (call (WaitForTransactionReceipt (hash approveTx) None None)
                       (waitForTransactionReceipt env (hash approveTx) None None)) (\<lambda>_.
            returns ()))
          else returns ())
        else returns ()))
       (\<lambda>e.
          andThen (setStep ''ERC20'' (Some error) (Some (message_or e ''Approval error''))) (\<lambda>_.
          throws (JsError ''Approval error'')))"

text \<open>The transfer-manager block (lines 160-181).\<close>

definition EOA_transferManager_part_001 :: "env \<Rightarrow> unit run" where
  "EOA_transferManager_part_001 env =
     tryCatch
       (andThen (setStep ''Transfer manager'' None None) (\<lambda>_.
        andThen (call IsTransferManagerApproved (isTransferManagerApproved env)) (\<lambda>isApproved.
        if \<not> isApproved then
          andThen (call GrantTransferManagerApproval (grantTransferManagerApproval env))
            (\<lambda>transferManagerApprove.
          andThen (call (WaitForTransactionReceipt (hash transferManagerApprove) None None)
                     (waitForTransactionReceipt env (hash transferManagerApprove) None None)) (\<lambda>_.
          returns ()))
        else returns ())))
       (\<lambda>e.
          andThen (setStep ''Transfer manager'' (Some error)
                     (Some (message_or e ''Error approving transfer manager''))) (\<lambda>_.
          throws (JsError ''Approval error'')))"

text \<open>
  The order-execution block (lines 216-285): as in the other file, but the whole receipt
  goes to \<open>emitHash\<close> and the error is not emitted to the store.
\<close>

definition EOA_executeOrder_part_001 ::
  "env \<Rightarrow> int \<Rightarrow> MarketplaceOrder \<Rightarrow> int \<Rightarrow> string option \<Rightarrow> int option \<Rightarrow>
   Currency \<Rightarrow> Taker \<Rightarrow> int \<Rightarrow> string \<Rightarrow> string \<Rightarrow> unit run" where
  "EOA_executeOrder_part_001 env thisChainId order unitAmount hypercertName totalUnitsInHypercert
       cur takerOrder totalPrice signedMessage referralSignature =
     tryCatch
       (andThen (setStep ''Awaiting buy signature'' None None) (\<lambda>_.
        let overrides = (if address cur = zeroAddress then Some totalPrice else None) in
        andThen (call (ExecuteOrder order takerOrder (signature order) overrides)
                   (executeOrder env order takerOrder (signature order) overrides)) (\<lambda>tx.
        andThen (setStep ''Awaiting confirmation'' None None) (\<lambda>_.
        andThen (call (WaitForTransactionReceipt (hash tx) None None)
                   (waitForTransactionReceipt env (hash tx) None None)) (\<lambda>receipt.
        andThen (submit_referral env signedMessage referralSignature thisChainId) (\<lambda>_.
        andThen (emit (EmitReceipt receipt)) (\<lambda>_.
        andThen (setStep ''Awaiting confirmation'' (Some completed) None) (\<lambda>_.
        emit (SetExtraContent
                (EOA_success_message unitAmount hypercertName totalUnitsInHypercert)
                (hypercert_id order)
                (find_chain (SUPPORTED_CHAINS env) (chainId order))
                (Some receipt) False None)))))))))
       (\<lambda>e.
          let decodedMessage = decodeContractError env e ''Error buying listing'' in
          andThen (setStep ''Awaiting confirmation'' (Some error) (Some decodedMessage)) (\<lambda>_.
          throws (JsError decodedMessage)))"

text \<open>\<open>execute\<close> (lines 32-286); the setup and referral blocks are those of the other file.\<close>

definition EOA_execute_part_001 ::
  "env \<Rightarrow> MarketplaceOrder \<Rightarrow> int \<Rightarrow> string \<Rightarrow> string option \<Rightarrow> int option \<Rightarrow> unit run" where
  "EOA_execute_part_001 env order unitAmount pricePerUnit hypercertName totalUnitsInHypercert =
     andThen (initial_guards env) (\<lambda>thisChainId.
     andThen (emit (SetSteps EOA_steps)) (\<lambda>_.
     andThen (emit (SetOpen True)) (\<lambda>_.
     andThen (setup_order_execution env order unitAmount pricePerUnit) (\<lambda>(currency_opt, takerOrder).
     case currency_opt of
       None \<Rightarrow> throws (JsError (invalid_currency_message order))
     | Some cur \<Rightarrow>
     andThen (evaluate (bigInt env (price order))) (\<lambda>orderPrice.
     let totalPrice = orderPrice * unitAmount in
     andThen (EOA_ERC20_part_001 env order cur totalPrice) (\<lambda>_.
     andThen (EOA_transferManager_part_001 env) (\<lambda>_.
     andThen (EOA_referral env order) (\<lambda>(signedMessage, referralSignature).
     EOA_executeOrder_part_001 env thisChainId order unitAmount hypercertName
       totalUnitsInHypercert cur takerOrder totalPrice signedMessage referralSignature))))))))"

section \<open>\<open>SafeBuyFractionalStrategy.execute\<close> (\<open>part_000\<close>)\<close>

definition Safe_steps :: "(string \<times> string) list" where
  "Safe_steps =
     [(''Setting up order execution'', ''Setting up order execution''),
      (''ERC20'', ''Setting approval on Safe''),
      (''Transfer manager'', ''Approving transfer manager on Safe''),
      (''Divvi referral setup'', ''Setting up referral attribution''),
      (''Submitting order'', ''Submitting buy transaction to Safe transaction queue''),
      (''Transaction queued'', ''Transaction(s) queued on Safe'')]"

text \<open>The ERC20 block (lines 111-136).\<close>

definition Safe_ERC20 ::
  "env \<Rightarrow> MarketplaceOrder \<Rightarrow> Currency \<Rightarrow> int \<Rightarrow> unit run" where
  "Safe_ERC20 env order cur totalPrice =
     tryCatch
       (andThen (setStep ''ERC20'' None None) (\<lambda>_.
        if address cur \<noteq> zeroAddress then
          andThen (call (GetERC20Allowance (currency order))
                     (getERC20Allowance env (currency order))) (\<lambda>currentAllowance.
          if currentAllowance < totalPrice then
            call (ApproveErc20Safe (this_address env) (currency order) totalPrice)
              (approveErc20Safe env (this_address env) (currency order) totalPrice)
          else returns ())
        else returns ()))
       (\<lambda>e.
          andThen (setStep ''ERC20'' (Some error) (Some (message_or e ''Approval error''))) (\<lambda>_.
          throws (JsError ''Approval error'')))"

text \<open>The transfer-manager block (lines 138-158).\<close>

definition Safe_transferManager :: "env \<Rightarrow> unit run" where
  "Safe_transferManager env =
     tryCatch
       (andThen (setStep ''Transfer manager'' None None) (\<lambda>_.
        andThen (call (IsTransferManagerApprovedSafe (this_address env))
                   (isTransferManagerApprovedSafe env (this_address env))) (\<lambda>isApproved.
        if \<not> isApproved then
          call (GrantTransferManagerApprovalSafe (this_address env))
            (grantTransferManagerApprovalSafe env (this_address env))
        else returns ())))
       (\<lambda>e.
          andThen (setStep ''Transfer manager'' (Some error)
                     (Some (message_or e ''Error approving transfer manager''))) (\<lambda>_.
          throws (JsError ''Approval error'')))"

definition Safe_referralMessage :: "string \<Rightarrow> string \<Rightarrow> MarketplaceOrder \<Rightarrow> int \<Rightarrow> string" where
  "Safe_referralMessage referralTag safeAddress order now =
     ''Divvi Referral Attribution (Safe Transaction)'' @ [CHR 0x0A] @
     ''Referral Tag: '' @ referralTag @ [CHR 0x0A] @
     ''Safe Address: '' @ safeAddress @ [CHR 0x0A] @
     ''Order ID: '' @ order_id_or_unknown order @ [CHR 0x0A] @
     ''Timestamp: '' @ toString now"

text \<open>The referral block (lines 160-191).\<close>

definition Safe_referral :: "env \<Rightarrow> MarketplaceOrder \<Rightarrow> (string \<times> string) run" where
  "Safe_referral env order =
     tryCatch
       (andThen (setStep ''Divvi referral setup'' None None) (\<lambda>_.
        andThen (call (GetReferralTag (this_address env) divvi_consumer)
                   (getReferralTag env (this_address env) divvi_consumer)) (\<lambda>referralTag.
        let referralMessage =
              Safe_referralMessage referralTag (this_address env) order (dateNow env) in
        andThen (call (SignMessage referralMessage) (signMessage env referralMessage))
          (\<lambda>referralSignature.
        returns (referralMessage, referralSignature)))))
       (\<lambda>e.
          andThen (setStep ''Divvi referral setup'' (Some error)
                     (Some (message_or e ''Error setting up referral''))) (\<lambda>_.
          returns ([], [])))"

text \<open>The order-execution block (lines 193-255).\<close>

definition Safe_executeOrder ::
  "env \<Rightarrow> int \<Rightarrow> MarketplaceOrder \<Rightarrow> Currency \<Rightarrow> Taker \<Rightarrow> int \<Rightarrow> string \<Rightarrow> string \<Rightarrow>
   unit run" where
  "Safe_executeOrder env thisChainId order cur takerOrder totalPrice
       signedMessage referralSignature =
     tryCatch
       (andThen (setStep ''Submitting order'' None None) (\<lambda>_.
        let overrides = (if address cur = zeroAddress then Some totalPrice else None) in
        andThen (call (ExecuteOrderSafe (this_address env) order takerOrder (signature order) overrides)
                   (executeOrderSafe env (this_address env) order takerOrder (signature order)
                      overrides)) (\<lambda>_.
        andThen (setStep ''Transaction queued'' None None) (\<lambda>_.
        andThen (submit_referral env signedMessage referralSignature thisChainId) (\<lambda>_.
        emit (SetExtraContent SubmittedToSafe (hypercert_id order)
                (find_chain (SUPPORTED_CHAINS env) (chainId order))
                None True (Some (this_address env))))))))
       (\<lambda>e.
          let decodedMessage = decodeContractError env e ''Error buying listing'' in
          andThen (setStep ''Submitting order'' (Some error) (Some decodedMessage)) (\<lambda>_.
          throws (JsError decodedMessage)))"

text \<open>\<open>execute\<close> (lines 15-256).\<close>

definition Safe_execute ::
  "env \<Rightarrow> MarketplaceOrder \<Rightarrow> int \<Rightarrow> string \<Rightarrow> unit run" where
  "Safe_execute env order unitAmount pricePerUnit =
     andThen (initial_guards env) (\<lambda>thisChainId.
     andThen (emit (SetSteps Safe_steps)) (\<lambda>_.
     andThen (emit (SetOpen True)) (\<lambda>_.
     andThen (setup_order_execution env order unitAmount pricePerUnit) (\<lambda>(currency_opt, takerOrder).
     case currency_opt of
       None \<Rightarrow> throws (JsError (invalid_currency_message order))
     | Some cur \<Rightarrow>
     andThen (evaluate (bigInt env (price order))) (\<lambda>orderPrice.
     let totalPrice = orderPrice * unitAmount in
     andThen (Safe_ERC20 env order cur totalPrice) (\<lambda>_.
     andThen (Safe_transferManager env) (\<lambda>_.
     andThen (Safe_referral env order) (\<lambda>(signedMessage, referralSignature).
     Safe_executeOrder env thisChainId order cur takerOrder totalPrice
       signedMessage referralSignature))))))))"


section \<open>Reading a trace\<close>

datatype pipeline_step =
  OrderSetup | CurrencyApproval | TransferManagerApproval | ReferralAttribution | OrderExecution

text \<open>
  The step an event can come from: the progress callback by the id it is given (the last
  step owns two ids in each strategy), a call by the block of \<open>execute\<close> that makes it.
\<close>

fun belongs_to :: "pipeline_step \<Rightarrow> event \<Rightarrow> bool" where
  "belongs_to s (SetDialogStep ident st msg) =
     (case s of
        OrderSetup \<Rightarrow> ident = ''Setting up order execution''
      | CurrencyApproval \<Rightarrow> ident = ''ERC20''
      | TransferManagerApproval \<Rightarrow> ident = ''Transfer manager''
      | ReferralAttribution \<Rightarrow> ident = ''Divvi referral setup''
      | OrderExecution \<Rightarrow>
          ident = ''Awaiting buy signature'' \<or> ident = ''Awaiting confirmation'' \<or>
          ident = ''Submitting order'' \<or> ident = ''Transaction queued'')"
| "belongs_to s (CreateFractionalSaleTakerBid _ _ _ _ _) = (s = OrderSetup)"
| "belongs_to s (GetERC20Allowance _ _) = (s = CurrencyApproval)"
| "belongs_to s (ApproveErc20 _ _ _ _) = (s = CurrencyApproval)"
| "belongs_to s (ApproveErc20Safe _ _ _ _) = (s = CurrencyApproval)"
| "belongs_to s (WaitForTransactionReceipt _ _ _ _) =
     (s = CurrencyApproval \<or> s = TransferManagerApproval \<or> s = OrderExecution)"
| "belongs_to s (IsTransferManagerApproved _) = (s = TransferManagerApproval)"
| "belongs_to s (IsTransferManagerApprovedSafe _ _) = (s = TransferManagerApproval)"
| "belongs_to s (GrantTransferManagerApproval _) = (s = TransferManagerApproval)"
| "belongs_to s (GrantTransferManagerApprovalSafe _ _) = (s = TransferManagerApproval)"
| "belongs_to s (GetReferralTag _ _ _) = (s = ReferralAttribution)"
| "belongs_to s (SignMessage _ _) = (s = ReferralAttribution)"
| "belongs_to s (ExecuteOrder _ _ _ _ _) = (s = OrderExecution)"
| "belongs_to s (ExecuteOrderSafe _ _ _ _ _ _) = (s = OrderExecution)"
| "belongs_to s (SubmitReferral _ _ _ _) = (s = OrderExecution)"
| "belongs_to s (EmitHash _) = (s = OrderExecution)"
| "belongs_to s (EmitReceipt _) = (s = OrderExecution)"
| "belongs_to s (EmitError _) = (s = OrderExecution)"
| "belongs_to s (SetExtraContent _ _ _ _ _ _) = (s = OrderExecution)"
| "belongs_to s (SetOpen _) = False"
| "belongs_to s (SetSteps _) = False"

text \<open>
  The part of a trace that one step produced: nothing when the step was not reached,
  else the progress callback with the step's id and no status, then events of that step.
\<close>

fun step_segment :: "string \<Rightarrow> pipeline_step \<Rightarrow> event list \<Rightarrow> bool" where
  "step_segment ident s [] = True"
| "step_segment ident s (e # rest) =
     (e = SetDialogStep ident None None \<and> list_all (belongs_to s) rest)"


section \<open>Concrete runs\<close>

text \<open>
  A buyer in a regular browser tab on Celo, paying with a token for which nothing is
  approved yet; every outside call succeeds.
\<close>

definition demo_order :: MarketplaceOrder where
  "demo_order =
     \<lparr>order_id = ''order-1'', chainId = 42220,
      currency = ''0x765DE816845861e75A25fCA122bb6898B8B1282a'', price = ''2'',
      signature = ''0xsigned'', hypercert_id = ''42220-0x16bA53B74c234C870c61EFC04cD418B8f2865959-1''\<rparr>"

definition demo_env :: env where
  "demo_env =
     \<lparr>this_exchangeClient = True,
      this_chainId = Some 42220,
      this_walletClient_data = True,
      this_address = ''0xBuyer'',
      window = Some \<lparr>userAgent = ''Mozilla/5.0'', hostname = ''example.org'', isFrame = False\<rparr>,
      getCurrencyByAddress = (\<lambda>chain a. Some \<lparr>address = a\<rparr>),
      createFractionalSaleTakerBid =
        (\<lambda>order r amount ppu. Inr \<lparr>recipient = r, additionalParameters = amount\<rparr>),
      bigInt = (\<lambda>s. if s = ''2'' then Inr 2 else Inl (JsError ''SyntaxError'')),
      getERC20Allowance = (\<lambda>a. Inr 0),
      approveErc20 = (\<lambda>a amount gas. Inr \<lparr>hash = ''0xa1''\<rparr>),
      approveErc20Safe = (\<lambda>safe a amount. Inr ()),
      waitForTransactionReceipt =
        (\<lambda>h tmo poll. Inr \<lparr>status = ''success'', transactionHash = h\<rparr>),
      isTransferManagerApproved = Inr False,
      isTransferManagerApprovedSafe = (\<lambda>safe. Inr False),
      grantTransferManagerApproval = Inr \<lparr>hash = ''0xa2''\<rparr>,
      grantTransferManagerApprovalSafe = (\<lambda>safe. Inr ()),
      getReferralTag = (\<lambda>user consumer. Inr ''tag''),
      dateNow = 7,
      signMessage = (\<lambda>m. Inr ''0xsig''),
      executeOrder = (\<lambda>order taker sig ov. Inr \<lparr>hash = ''0xb1''\<rparr>),
      executeOrderSafe = (\<lambda>safe order taker sig ov. Inr ()),
      submitReferral = (\<lambda>m sig chain. Inr ()),
      decodeContractError = (\<lambda>e dflt. message_or e dflt),
      SUPPORTED_CHAINS = [42220],
      typeErrorMessage = ''Cannot read properties of undefined''\<rparr>"

text \<open>The same buyer inside the mini-app host: the page runs in a frame.\<close>

definition framed_env :: env where
  "framed_env =
     demo_env\<lparr>window := Some \<lparr>userAgent = ''Mozilla/5.0'', hostname = ''example.org'',
                               isFrame = True\<rparr>\<rparr>"

text \<open>Inside the mini-app host, with an allowance of 1000 already granted.\<close>

definition farcaster_env :: env where
  "farcaster_env = framed_env\<lparr>getERC20Allowance := (\<lambda>a. Inr 1000)\<rparr>"

text \<open>
  The five segments of a run after the guards, in the fixed order: each is empty or
  opens with the progress callback for its step, a step is reached only when the step
  before it was, and the setup step is always reached.
\<close>

definition steps_in_order ::
  "string \<Rightarrow> event list \<Rightarrow> event list \<Rightarrow> event list \<Rightarrow> event list \<Rightarrow> event list \<Rightarrow> bool" where
  "steps_in_order execution_id t1 t2 t3 t4 t5 =
     (t1 \<noteq> [] \<and>
      step_segment ''Setting up order execution'' OrderSetup t1 \<and>
      step_segment ''ERC20'' CurrencyApproval t2 \<and>
      step_segment ''Transfer manager'' TransferManagerApproval t3 \<and>
      step_segment ''Divvi referral setup'' ReferralAttribution t4 \<and>
      step_segment execution_id OrderExecution t5 \<and>
      (t3 \<noteq> [] \<longrightarrow> t2 \<noteq> []) \<and> (t4 \<noteq> [] \<longrightarrow> t3 \<noteq> []) \<and> (t5 \<noteq> [] \<longrightarrow> t4 \<noteq> []))"



text \<open>The same buyer with a wallet that cannot sign messages.\<close>

definition unreferred_env :: env where
  "unreferred_env =
     demo_env\<lparr>signMessage := (\<lambda>m. Inl (JsError ''Method not supported''))\<rparr>"

text \<open>The same buyer while the referral service is down.\<close>

definition unsubmitted_env :: env where
  "unsubmitted_env =
     demo_env\<lparr>submitReferral := (\<lambda>m sig chain. Inl (JsError ''Service unavailable''))\<rparr>"


text \<open>What an outside call threw, when the event is a call that threw.\<close>

definition failure :: "thrown + 'a \<Rightarrow> thrown option" where
  "failure outcome = (case outcome of Inl x \<Rightarrow> Some x | Inr _ \<Rightarrow> None)"







section \<open>Properties of the string helpers\<close>

lemma substring_prefix: "0 \<le> n \<Longrightarrow> substring s 0 n = take (nat n) s"
  by (auto simp: substring_def Let_def min_def max_def)

lemma substring_prefix_neg: "n \<le> 0 \<Longrightarrow> substring s 0 n = []"
  by (auto simp: substring_def Let_def min_def max_def)

lemma substring_from_drop: "substring_from s k = drop (nat k) s"
  by (auto simp: substring_from_def substring_def Let_def min_def max_def)

lemma drop_int_diff: "drop (nat (int (length t) - n)) t = drop (length t - nat n) t"
proof (cases "0 \<le> n")
  case True
  then have "nat (int (length t) - n) = length t - nat n" by linarith
  then show ?thesis by simp
next
  case False
  then have "length t \<le> nat (int (length t) - n)" by linarith
  with False show ?thesis by simp
qed

lemma length_ellipsis: "h + k \<le> length s \<Longrightarrow> length (ellipsis h k s) = h + 3 + k"
  by (simp add: ellipsis_def)

lemma ellipsis_idem:
  assumes "h + k \<le> length s"
  shows "ellipsis h k (ellipsis h k s) = ellipsis h k s"
proof -
  have l: "length (ellipsis h k s) = h + 3 + k"
    using assms by (rule length_ellipsis)
  have a: "take h (ellipsis h k s) = take h s"
    using assms by (simp add: ellipsis_def)
  have "drop (h + 3) (ellipsis h k s) = drop (length s - k) s"
    using assms by (simp add: ellipsis_def)
  then have b: "drop (length (ellipsis h k s) - k) (ellipsis h k s) = drop (length s - k) s"
    using l by simp
  show ?thesis
    unfolding ellipsis_def[of h k "ellipsis h k s"] a b by (simp add: ellipsis_def)
qed

lemma truncateText_long:
  "0 \<le> n \<Longrightarrow> n * 2 < int (length t) \<Longrightarrow> truncateText t n = ellipsis (nat n) (nat n) t"
  by (auto simp: truncateText_def ellipsis_def substring_prefix substring_from_drop
      drop_int_diff)

lemma truncateText_negative: "n < 0 \<Longrightarrow> t \<noteq> [] \<Longrightarrow> truncateText t n = ''...''"
  by (auto simp: truncateText_def substring_prefix_neg substring_from_drop)

lemma truncateText_short: "int (length t) \<le> n * 2 \<Longrightarrow> truncateText t n = t"
  by (simp add: truncateText_def)

lemma truncateText_idem: "truncateText (truncateText t n) n = truncateText t n"
proof (cases "t = [] \<or> int (length t) \<le> n * 2")
  case True
  then show ?thesis by (auto simp: truncateText_def)
next
  case long: False
  show ?thesis
  proof (cases "0 \<le> n")
    case True
    let ?e = "ellipsis (nat n) (nat n) t"
    from True long have e: "truncateText t n = ?e"
      by (simp add: truncateText_long)
    from True long have le: "nat n + nat n \<le> length t" by linarith
    then have "n * 2 < int (length ?e)"
      using True by (simp add: length_ellipsis)
    then have "truncateText ?e n = ellipsis (nat n) (nat n) ?e"
      using True by (simp add: truncateText_long)
    then show ?thesis using e ellipsis_idem[OF le] by simp
  next
    case False
    with long have "truncateText t n = ''...''" by (simp add: truncateText_negative)
    moreover have "truncateText ''...'' n = ''...''"
      using False by (simp add: truncateText_negative)
    ultimately show ?thesis by simp
  qed
qed

lemma truncateEthereumAddress_long:
  "- 2 \<le> n \<Longrightarrow> a \<noteq> [] \<Longrightarrow> 2 + n * 2 < int (length a) \<Longrightarrow>
   truncateEthereumAddress a n = ellipsis (nat (n + 2)) (nat n) a"
  by (simp add: truncateEthereumAddress_def ellipsis_def substring_prefix substring_from_drop
      drop_int_diff)

lemma truncateEthereumAddress_negative:
  "n < - 2 \<Longrightarrow> a \<noteq> [] \<Longrightarrow> truncateEthereumAddress a n = ''...''"
  by (auto simp: truncateEthereumAddress_def substring_prefix_neg substring_from_drop)

lemma truncateEthereumAddress_short:
  "int (length a) \<le> 2 + n * 2 \<Longrightarrow> truncateEthereumAddress a n = a"
  by (simp add: truncateEthereumAddress_def)

lemma truncateEthereumAddress_idem:
  "truncateEthereumAddress (truncateEthereumAddress a n) n = truncateEthereumAddress a n"
proof (cases "a = [] \<or> int (length a) \<le> 2 + n * 2")
  case True
  then show ?thesis by (auto simp: truncateEthereumAddress_def)
next
  case long: False
  show ?thesis
  proof (cases "- 2 \<le> n")
    case True
    let ?e = "ellipsis (nat (n + 2)) (nat n) a"
    from True long have e: "truncateEthereumAddress a n = ?e"
      by (simp add: truncateEthereumAddress_long)
    have ne: "?e \<noteq> []" by (simp add: ellipsis_def)
    from True long have le: "nat (n + 2) + nat n \<le> length a" by linarith
    then have "2 + n * 2 < int (length ?e)"
      using True by (simp add: length_ellipsis)
    then have "truncateEthereumAddress ?e n = ellipsis (nat (n + 2)) (nat n) ?e"
      using True ne by (simp add: truncateEthereumAddress_long)
    then show ?thesis using e ellipsis_idem[OF le] by simp
  next
    case False
    with long have "truncateEthereumAddress a n = ''...''"
      by (simp add: truncateEthereumAddress_negative)
    moreover have "truncateEthereumAddress ''...'' n = ''...''"
      using False by (simp add: truncateEthereumAddress_negative)
    ultimately show ?thesis by simp
  qed
qed

text \<open>
  Claim C10, as stated, at a negative \<open>length\<close>: \<open>truncateText("abc", -1)\<close> is longer
  than the threshold \<open>-2\<close> and yields \<open>"..."\<close>, three code units and not
  \<open>2 * (-1) + 3 = 1\<close>.
\<close>

theorem truncateText_negative_length_counterexample:
  "(- 1) * 2 < int (length ''abc'') \<and>
   truncateText ''abc'' (- 1) = ''...'' \<and>
   int (length (truncateText ''abc'' (- 1))) \<noteq> 2 * (- 1) + 3"
  by (simp add: truncateText_def substring_def substring_from_def)

text \<open>
  Claim C10, amended. For every string and every integer \<open>length\<close>, \<open>truncateText\<close>
  and \<open>truncateEthereumAddress\<close> are idempotent, and an input no longer than the
  threshold (\<open>2 * length\<close>, respectively \<open>2 + 2 * length\<close>) is returned unchanged. For
  every non-negative \<open>length\<close>, a longer input yields a string of exactly
  \<open>2 * length + 3\<close> (respectively \<open>2 * length + 5\<close>) code units.
\<close>

theorem truncate_idempotent_and_sized:
  "truncateText (truncateText t n) n = truncateText t n \<and>
   truncateEthereumAddress (truncateEthereumAddress a n) n = truncateEthereumAddress a n \<and>
   (int (length t) \<le> 2 * n \<longrightarrow> truncateText t n = t) \<and>
   (int (length a) \<le> 2 + 2 * n \<longrightarrow> truncateEthereumAddress a n = a) \<and>
   (0 \<le> n \<and> 2 * n < int (length t) \<longrightarrow> int (length (truncateText t n)) = 2 * n + 3) \<and>
   (0 \<le> n \<and> 2 + 2 * n < int (length a) \<longrightarrow>
      int (length (truncateEthereumAddress a n)) = 2 * n + 5)"
proof -
  have "int (length (truncateText t n)) = 2 * n + 3" if "0 \<le> n" "2 * n < int (length t)"
    using that by (simp add: truncateText_long length_ellipsis)
  moreover have "int (length (truncateEthereumAddress a n)) = 2 * n + 5"
    if "0 \<le> n" "2 + 2 * n < int (length a)"
  proof -
    from that have "a \<noteq> []" by auto
    with that show ?thesis by (simp add: truncateEthereumAddress_long length_ellipsis)
  qed
  ultimately show ?thesis
    by (simp add: truncateText_idem truncateEthereumAddress_idem truncateText_short
        truncateEthereumAddress_short)
qed

theorem truncate_idempotent_and_sized_witness:
  "int (length ''abcdefghijkl'') > 2 * 4 \<and>
   int (length ''0x1234567890abcdef'') > 2 + 2 * 4 \<and>
   truncateText ''abcdefghijkl'' 4 = ''abcd...ijkl'' \<and>
   truncateText (truncateText ''abcdefghijkl'' 4) 4 = ''abcd...ijkl'' \<and>
   int (length (truncateText ''abcdefghijkl'' 4)) = 11 \<and>
   truncateEthereumAddress ''0x1234567890abcdef'' 4 = ''0x1234...cdef'' \<and>
   int (length (truncateEthereumAddress ''0x1234567890abcdef'' 4)) = 13 \<and>
   int (length ''abcdefgh'') \<le> 2 * 4 \<and>
   truncateText ''abcdefgh'' 4 = ''abcdefgh'' \<and>
   int (length ''0x12345678'') \<le> 2 + 2 * 4 \<and>
   truncateEthereumAddress ''0x12345678'' 4 = ''0x12345678''"
  using truncate_idempotent_and_sized [of "''abcdefghijkl''" 4 "''0x1234567890abcdef''"]
    truncate_idempotent_and_sized [of "''abcdefgh''" 4 "''0x12345678''"]
  by (simp add: truncateText_def truncateEthereumAddress_def substring_def substring_from_def)

section \<open>Reasoning about runs\<close>

lemma andThen_eq:
  "(andThen m f = (t, r)) =
     ((\<exists>e. m = (t, Inl e) \<and> r = Inl e) \<or>
      (\<exists>t1 a t2. m = (t1, Inr a) \<and> f a = (t2, r) \<and> t = t1 @ t2))"
  by (cases m; cases "snd m"; cases "f (projr (snd m))") (auto simp: andThen_def)

lemma tryCatch_eq:
  "(tryCatch m h = (t, r)) =
     ((\<exists>a. m = (t, Inr a) \<and> r = Inr a) \<or>
      (\<exists>t1 e t2. m = (t1, Inl e) \<and> h e = (t2, r) \<and> t = t1 @ t2))"
  by (cases m; cases "snd m"; cases "h (projl (snd m))") (auto simp: tryCatch_def)

lemma basic_eq:
  "(call ev out = (t, r)) = (out = r \<and> t = [ev r])"
  "(returns a = (t, r)) = (t = [] \<and> r = Inr a)"
  "(throws e = (t, r')) = (t = [] \<and> r' = Inl e)"
  "(emit ev' = (t, ru)) = (t = [ev'] \<and> ru = Inr ())"
  "(setStep i st msg = (t, ru)) = (t = [SetDialogStep i st msg] \<and> ru = Inr ())"
  "(evaluate out = (t, r)) = (out = r \<and> t = [])"
  by (auto simp: call_def returns_def throws_def emit_def setStep_def evaluate_def)

lemmas run_eq = andThen_eq tryCatch_eq basic_eq

lemma andThen_simps:
  "andThen (t, Inl e) f = (t, Inl e)"
  "andThen (t, Inr a) f = (t @ fst (f a), snd (f a))"
  by (simp_all add: andThen_def split: prod.splits)

lemma tryCatch_simps:
  "tryCatch (t, Inl e) h = (t @ fst (h e), snd (h e))"
  "tryCatch (t, Inr a) h = (t, Inr a)"
  by (simp_all add: tryCatch_def split: prod.splits)

lemma fst_andThen:
  "fst (andThen m f) = fst m @ (case snd m of Inl e \<Rightarrow> [] | Inr a \<Rightarrow> fst (f a))"
  by (cases m; cases "snd m") (auto simp: andThen_simps)

lemma fst_tryCatch:
  "fst (tryCatch m h) = fst m @ (case snd m of Inl e \<Rightarrow> fst (h e) | Inr a \<Rightarrow> [])"
  by (cases m; cases "snd m") (auto simp: tryCatch_simps)

text \<open>Every event of a run satisfies \<open>P\<close>: one rule for each way of building a run.\<close>

lemma all_andThen:
  "list_all P (fst m) \<Longrightarrow> (\<And>a. list_all P (fst (f a))) \<Longrightarrow> list_all P (fst (andThen m f))"
  by (simp add: fst_andThen split: sum.splits)

lemma all_tryCatch:
  "list_all P (fst m) \<Longrightarrow> (\<And>e. list_all P (fst (h e))) \<Longrightarrow> list_all P (fst (tryCatch m h))"
  by (simp add: fst_tryCatch split: sum.splits)

lemma all_basic:
  "list_all P (fst (returns a))"
  "list_all P (fst (throws e))"
  "P ev \<Longrightarrow> list_all P (fst (emit ev))"
  "P (SetDialogStep i st msg) \<Longrightarrow> list_all P (fst (setStep i st msg))"
  "P (c out) \<Longrightarrow> list_all P (fst (call c out))"
  "list_all P (fst (evaluate out'))"
  by (simp_all add: returns_def throws_def emit_def setStep_def call_def evaluate_def)

lemma all_if:
  "(c \<Longrightarrow> list_all P (fst m1)) \<Longrightarrow> (\<not> c \<Longrightarrow> list_all P (fst m2)) \<Longrightarrow>
   list_all P (fst (if c then m1 else m2))"
  by simp

lemma all_case_option:
  "(x = None \<Longrightarrow> list_all P (fst m1)) \<Longrightarrow> (\<And>y. x = Some y \<Longrightarrow> list_all P (fst (m2 y))) \<Longrightarrow>
   list_all P (fst (case x of None \<Rightarrow> m1 | Some y \<Rightarrow> m2 y))"
  by (cases x) simp_all

lemma all_let: "list_all P (fst (f v)) \<Longrightarrow> list_all P (fst (Let v f))"
  by simp

lemmas all_rules = all_andThen all_tryCatch all_basic all_if all_case_option all_let

lemma step_head:
  "fst (tryCatch (andThen (setStep i None None) f) h) =
     SetDialogStep i None None # fst (tryCatch (f ()) h)"
  by (cases "f ()"; cases "snd (f ())")
     (auto simp: setStep_def emit_def andThen_simps tryCatch_simps)

lemma segment_head:
  "list_all (belongs_to s) (fst (tryCatch (f ()) h)) \<Longrightarrow>
   fst (tryCatch (andThen (setStep i None None) f) h) \<noteq> [] \<and>
   step_segment i s (fst (tryCatch (andThen (setStep i None None) f) h))"
  by (simp add: step_head)

lemma split_after_prefix:
  assumes "xs @ ys = a @ x # b" and "x \<notin> set xs"
  shows "\<exists>a'. a = xs @ a' \<and> ys = a' @ x # b"
proof -
  from assms(1) consider
    (left) us where "xs = a @ us" "us @ ys = x # b"
  | (right) us where "xs @ us = a" "ys = us @ x # b"
    by (auto simp: append_eq_append_conv2)
  then show ?thesis
  proof cases
    case left
    with assms(2) have "us = []" by (cases us) auto
    with left show ?thesis by auto
  next
    case right
    then show ?thesis by auto
  qed
qed

subsection \<open>The guards\<close>

lemma initial_guards_pass:
  "(initial_guards env = ([], Inr c)) =
     (this_exchangeClient env \<and> this_chainId env = Some c \<and> c \<noteq> 0 \<and>
      this_walletClient_data env)"
  by (auto simp: initial_guards_def andThen_simps returns_def throws_def emit_def
      split: option.splits)

lemma initial_guards_shape:
  "(\<exists>c. initial_guards env = ([], Inr c)) \<or> (\<exists>e. initial_guards env = ([SetOpen False], Inl e))"
  by (auto simp: initial_guards_def andThen_simps returns_def throws_def emit_def
      split: option.splits)

subsection \<open>The setup block\<close>

lemma setup_segment:
  "fst (setup_order_execution env order u ppu) \<noteq> [] \<and>
   step_segment ''Setting up order execution'' OrderSetup
     (fst (setup_order_execution env order u ppu))"
  unfolding setup_order_execution_def
  by (rule segment_head) (intro all_rules; simp)

lemma setup_result:
  "setup_order_execution env order u ppu = (t, Inr (co, tk)) \<Longrightarrow>
     (\<exists>cur. co = Some cur \<and>
        getCurrencyByAddress env (chainId order) (currency order) = Some cur) \<and>
     createFractionalSaleTakerBid env order (this_address env) (toString u) ppu = Inr tk \<and>
     t = [SetDialogStep ''Setting up order execution'' None None,
          CreateFractionalSaleTakerBid order (this_address env) (toString u) ppu (Inr tk)]"
  by (auto simp: setup_order_execution_def run_eq split: option.splits)

lemma setup_fails:
  "setup_order_execution env order u ppu = (t, Inl e) \<Longrightarrow>
     t \<noteq> [] \<and>
     (\<exists>m. last t = SetDialogStep ''Setting up order execution'' (Some error) (Some m))"
  by (auto simp: setup_order_execution_def run_eq split: option.splits)

subsection \<open>The ERC20 blocks\<close>

lemma EOA_ERC20_segment:
  "fst (EOA_ERC20 env b order cur tp) \<noteq> [] \<and>
   step_segment ''ERC20'' CurrencyApproval (fst (EOA_ERC20 env b order cur tp))"
  unfolding EOA_ERC20_def
  by (rule segment_head) (intro all_rules; simp)

lemma EOA_ERC20_part_001_segment:
  "fst (EOA_ERC20_part_001 env order cur tp) \<noteq> [] \<and>
   step_segment ''ERC20'' CurrencyApproval (fst (EOA_ERC20_part_001 env order cur tp))"
  unfolding EOA_ERC20_part_001_def
  by (rule segment_head) (intro all_rules; simp)

lemma Safe_ERC20_segment:
  "fst (Safe_ERC20 env order cur tp) \<noteq> [] \<and>
   step_segment ''ERC20'' CurrencyApproval (fst (Safe_ERC20 env order cur tp))"
  unfolding Safe_ERC20_def
  by (rule segment_head) (intro all_rules; simp)

lemma EOA_ERC20_fails:
  "EOA_ERC20 env b order cur tp = (t, Inl e) \<Longrightarrow>
     t \<noteq> [] \<and> (\<exists>m. last t = SetDialogStep ''ERC20'' (Some error) (Some m))"
  by (auto simp: EOA_ERC20_def run_eq Let_def split: if_splits option.splits)

lemma EOA_ERC20_part_001_fails:
  "EOA_ERC20_part_001 env order cur tp = (t, Inl e) \<Longrightarrow>
     t \<noteq> [] \<and> (\<exists>m. last t = SetDialogStep ''ERC20'' (Some error) (Some m))"
  by (auto simp: EOA_ERC20_part_001_def run_eq Let_def split: if_splits option.splits)

lemma Safe_ERC20_fails:
  "Safe_ERC20 env order cur tp = (t, Inl e) \<Longrightarrow>
     t \<noteq> [] \<and> (\<exists>m. last t = SetDialogStep ''ERC20'' (Some error) (Some m))"
  by (auto simp: Safe_ERC20_def run_eq Let_def split: if_splits option.splits)

lemma EOA_ERC20_approves:
  "EOA_ERC20 env b order cur tp = (t, r) \<Longrightarrow> ApproveErc20 a amount gas out \<in> set t \<Longrightarrow>
     address cur \<noteq> zeroAddress \<and> a = currency order \<and> amount = tp \<and>
     (b \<or> (\<exists>allowance. GetERC20Allowance (currency order) (Inr allowance) \<in> set t \<and>
              allowance < tp))"
  by (auto simp: EOA_ERC20_def run_eq Let_def split: if_splits option.splits)

lemma EOA_ERC20_part_001_approves:
  "EOA_ERC20_part_001 env order cur tp = (t, r) \<Longrightarrow>
   ApproveErc20 a amount gas out \<in> set t \<Longrightarrow>
     address cur \<noteq> zeroAddress \<and> a = currency order \<and> amount = tp \<and>
     (\<exists>allowance. GetERC20Allowance (currency order) (Inr allowance) \<in> set t \<and>
        allowance < tp)"
  by (auto simp: EOA_ERC20_part_001_def run_eq Let_def split: if_splits option.splits)

lemma Safe_ERC20_approves:
  "Safe_ERC20 env order cur tp = (t, r) \<Longrightarrow>
   ApproveErc20Safe safe a amount out \<in> set t \<Longrightarrow>
     address cur \<noteq> zeroAddress \<and> a = currency order \<and> amount = tp \<and>
     (\<exists>allowance. GetERC20Allowance (currency order) (Inr allowance) \<in> set t \<and>
        allowance < tp)"
  by (auto simp: Safe_ERC20_def run_eq Let_def split: if_splits option.splits)

subsection \<open>The transfer-manager blocks\<close>

lemma EOA_transferManager_segment:
  "fst (EOA_transferManager env b) \<noteq> [] \<and>
   step_segment ''Transfer manager'' TransferManagerApproval (fst (EOA_transferManager env b))"
  unfolding EOA_transferManager_def
  by (rule segment_head) (intro all_rules; simp)

lemma EOA_transferManager_part_001_segment:
  "fst (EOA_transferManager_part_001 env) \<noteq> [] \<and>
   step_segment ''Transfer manager'' TransferManagerApproval
     (fst (EOA_transferManager_part_001 env))"
  unfolding EOA_transferManager_part_001_def
  by (rule segment_head) (intro all_rules; simp)

lemma Safe_transferManager_segment:
  "fst (Safe_transferManager env) \<noteq> [] \<and>
   step_segment ''Transfer manager'' TransferManagerApproval (fst (Safe_transferManager env))"
  unfolding Safe_transferManager_def
  by (rule segment_head) (intro all_rules; simp)

lemma EOA_transferManager_fails:
  "EOA_transferManager env b = (t, Inl e) \<Longrightarrow>
     t \<noteq> [] \<and> (\<exists>m. last t = SetDialogStep ''Transfer manager'' (Some error) (Some m))"
  by (auto simp: EOA_transferManager_def run_eq Let_def split: if_splits)

lemma EOA_transferManager_part_001_fails:
  "EOA_transferManager_part_001 env = (t, Inl e) \<Longrightarrow>
     t \<noteq> [] \<and> (\<exists>m. last t = SetDialogStep ''Transfer manager'' (Some error) (Some m))"
  by (auto simp: EOA_transferManager_part_001_def run_eq Let_def split: if_splits)

lemma Safe_transferManager_fails:
  "Safe_transferManager env = (t, Inl e) \<Longrightarrow>
     t \<noteq> [] \<and> (\<exists>m. last t = SetDialogStep ''Transfer manager'' (Some error) (Some m))"
  by (auto simp: Safe_transferManager_def run_eq Let_def split: if_splits)

lemma EOA_transferManager_succeeds:
  assumes "EOA_transferManager env b = (t, Inr ())"
  shows "if b then (\<exists>out. GrantTransferManagerApproval out \<in> set t)
         else (t = [SetDialogStep ''Transfer manager'' None None,
                    IsTransferManagerApproved (Inr True)] \<or>
               (\<exists>tx rc. status rc = ''success'' \<and>
                  t = [SetDialogStep ''Transfer manager'' None None,
                       IsTransferManagerApproved (Inr False),
                       GrantTransferManagerApproval (Inr tx),
                       WaitForTransactionReceipt (hash tx) (Some 60000) None (Inr rc)]))"
  using assms
  by (auto simp: EOA_transferManager_def run_eq Let_def split: if_splits)

lemma EOA_transferManager_part_001_succeeds:
  assumes "EOA_transferManager_part_001 env = (t, Inr ())"
  shows "t = [SetDialogStep ''Transfer manager'' None None,
              IsTransferManagerApproved (Inr True)] \<or>
         (\<exists>tx rc.
            t = [SetDialogStep ''Transfer manager'' None None,
                 IsTransferManagerApproved (Inr False),
                 GrantTransferManagerApproval (Inr tx),
                 WaitForTransactionReceipt (hash tx) None None (Inr rc)])"
  using assms
  by (auto simp: EOA_transferManager_part_001_def run_eq Let_def split: if_splits)

lemma Safe_transferManager_succeeds:
  assumes "Safe_transferManager env = (t, Inr ())"
  shows "t = [SetDialogStep ''Transfer manager'' None None,
              IsTransferManagerApprovedSafe (this_address env) (Inr True)] \<or>
         t = [SetDialogStep ''Transfer manager'' None None,
              IsTransferManagerApprovedSafe (this_address env) (Inr False),
              GrantTransferManagerApprovalSafe (this_address env) (Inr ())]"
  using assms
  by (auto simp: Safe_transferManager_def run_eq Let_def split: if_splits)

subsection \<open>The referral blocks\<close>

lemma EOA_referral_segment:
  "fst (EOA_referral env order) \<noteq> [] \<and>
   step_segment ''Divvi referral setup'' ReferralAttribution (fst (EOA_referral env order))"
  unfolding EOA_referral_def
  by (rule segment_head) (intro all_rules; simp)

lemma Safe_referral_segment:
  "fst (Safe_referral env order) \<noteq> [] \<and>
   step_segment ''Divvi referral setup'' ReferralAttribution (fst (Safe_referral env order))"
  unfolding Safe_referral_def
  by (rule segment_head) (intro all_rules; simp)

text \<open>The three ways through the referral block: signed, no tag, tag but no signature.\<close>

lemma EOA_referral_shape:
  assumes "EOA_referral env order = (t, r)"
  shows
    "(\<exists>tag sig.
        getReferralTag env (this_address env) divvi_consumer = Inr tag \<and>
        signMessage env (EOA_referralMessage tag order (dateNow env)) = Inr sig \<and>
        t = [SetDialogStep ''Divvi referral setup'' None None,
             GetReferralTag (this_address env) divvi_consumer (Inr tag),
             SignMessage (EOA_referralMessage tag order (dateNow env)) (Inr sig)] \<and>
        r = Inr (EOA_referralMessage tag order (dateNow env), sig)) \<or>
     (\<exists>x.
        getReferralTag env (this_address env) divvi_consumer = Inl x \<and>
        t = [SetDialogStep ''Divvi referral setup'' None None,
             GetReferralTag (this_address env) divvi_consumer (Inl x),
             SetDialogStep ''Divvi referral setup'' (Some error)
               (Some (message_or x ''Error setting up referral''))] \<and>
        r = Inr ([], [])) \<or>
     (\<exists>tag x.
        getReferralTag env (this_address env) divvi_consumer = Inr tag \<and>
        signMessage env (EOA_referralMessage tag order (dateNow env)) = Inl x \<and>
        t = [SetDialogStep ''Divvi referral setup'' None None,
             GetReferralTag (this_address env) divvi_consumer (Inr tag),
             SignMessage (EOA_referralMessage tag order (dateNow env)) (Inl x),
             SetDialogStep ''Divvi referral setup'' (Some error)
               (Some (message_or x ''Error setting up referral''))] \<and>
        r = Inr ([], []))"
  using assms
  by (cases "getReferralTag env (this_address env) divvi_consumer";
      cases "signMessage env (EOA_referralMessage
               (projr (getReferralTag env (this_address env) divvi_consumer)) order (dateNow env))")
     (auto simp: EOA_referral_def run_eq Let_def)

lemma Safe_referral_shape:
  assumes "Safe_referral env order = (t, r)"
  shows
    "(\<exists>tag sig.
        getReferralTag env (this_address env) divvi_consumer = Inr tag \<and>
        signMessage env (Safe_referralMessage tag (this_address env) order (dateNow env)) =
          Inr sig \<and>
        t = [SetDialogStep ''Divvi referral setup'' None None,
             GetReferralTag (this_address env) divvi_consumer (Inr tag),
             SignMessage (Safe_referralMessage tag (this_address env) order (dateNow env))
               (Inr sig)] \<and>
        r = Inr (Safe_referralMessage tag (this_address env) order (dateNow env), sig)) \<or>
     (\<exists>x.
        getReferralTag env (this_address env) divvi_consumer = Inl x \<and>
        t = [SetDialogStep ''Divvi referral setup'' None None,
             GetReferralTag (this_address env) divvi_consumer (Inl x),
             SetDialogStep ''Divvi referral setup'' (Some error)
               (Some (message_or x ''Error setting up referral''))] \<and>
        r = Inr ([], [])) \<or>
     (\<exists>tag x.
        getReferralTag env (this_address env) divvi_consumer = Inr tag \<and>
        signMessage env (Safe_referralMessage tag (this_address env) order (dateNow env)) =
          Inl x \<and>
        t = [SetDialogStep ''Divvi referral setup'' None None,
             GetReferralTag (this_address env) divvi_consumer (Inr tag),
             SignMessage (Safe_referralMessage tag (this_address env) order (dateNow env))
               (Inl x),
             SetDialogStep ''Divvi referral setup'' (Some error)
               (Some (message_or x ''Error setting up referral''))] \<and>
        r = Inr ([], []))"
  using assms
  by (cases "getReferralTag env (this_address env) divvi_consumer";
      cases "signMessage env (Safe_referralMessage
               (projr (getReferralTag env (this_address env) divvi_consumer))
               (this_address env) order (dateNow env))")
     (auto simp: Safe_referral_def run_eq Let_def)

lemma EOA_referral_total: "EOA_referral env order = (t, r) \<Longrightarrow> \<exists>sm rs. r = Inr (sm, rs)"
  using EOA_referral_shape[of env order t r] by auto

lemma Safe_referral_total: "Safe_referral env order = (t, r) \<Longrightarrow> \<exists>sm rs. r = Inr (sm, rs)"
  using Safe_referral_shape[of env order t r] by auto

lemma sublist_middle: "sublist x (a @ x @ b)"
  unfolding sublist_def by blast

lemma sublist_order_id: "sublist (order_id order) (order_id_or_unknown order)"
  by (simp add: order_id_or_unknown_def)

lemma EOA_referralMessage_contains:
  "sublist tag (EOA_referralMessage tag order now) \<and>
   sublist (order_id order) (EOA_referralMessage tag order now)"
proof
  have "EOA_referralMessage tag order now =
          (''Divvi Referral Attribution'' @ [CHR 0x0A] @ ''Referral Tag: '') @ tag @
          ([CHR 0x0A] @ ''Order ID: '' @ order_id_or_unknown order @ [CHR 0x0A] @
           ''Timestamp: '' @ toString now)"
    by (simp add: EOA_referralMessage_def)
  then show "sublist tag (EOA_referralMessage tag order now)"
    using sublist_middle by metis
next
  have "EOA_referralMessage tag order now =
          (''Divvi Referral Attribution'' @ [CHR 0x0A] @ ''Referral Tag: '' @ tag @
           [CHR 0x0A] @ ''Order ID: '') @ order_id_or_unknown order @
          ([CHR 0x0A] @ ''Timestamp: '' @ toString now)"
    by (simp add: EOA_referralMessage_def)
  then have "sublist (order_id_or_unknown order) (EOA_referralMessage tag order now)"
    using sublist_middle by metis
  with sublist_order_id show "sublist (order_id order) (EOA_referralMessage tag order now)"
    by (rule sublist_order.order_trans)
qed

lemma Safe_referralMessage_contains:
  "sublist tag (Safe_referralMessage tag safe order now) \<and>
   sublist (order_id order) (Safe_referralMessage tag safe order now)"
proof
  have "Safe_referralMessage tag safe order now =
          (''Divvi Referral Attribution (Safe Transaction)'' @ [CHR 0x0A] @
           ''Referral Tag: '') @ tag @
          ([CHR 0x0A] @ ''Safe Address: '' @ safe @ [CHR 0x0A] @
           ''Order ID: '' @ order_id_or_unknown order @ [CHR 0x0A] @
           ''Timestamp: '' @ toString now)"
    by (simp add: Safe_referralMessage_def)
  then show "sublist tag (Safe_referralMessage tag safe order now)"
    using sublist_middle by metis
next
  have "Safe_referralMessage tag safe order now =
          (''Divvi Referral Attribution (Safe Transaction)'' @ [CHR 0x0A] @
           ''Referral Tag: '' @ tag @ [CHR 0x0A] @ ''Safe Address: '' @ safe @ [CHR 0x0A] @
           ''Order ID: '') @ order_id_or_unknown order @
          ([CHR 0x0A] @ ''Timestamp: '' @ toString now)"
    by (simp add: Safe_referralMessage_def)
  then have "sublist (order_id_or_unknown order) (Safe_referralMessage tag safe order now)"
    using sublist_middle by metis
  with sublist_order_id
  show "sublist (order_id order) (Safe_referralMessage tag safe order now)"
    by (rule sublist_order.order_trans)
qed

lemma referralMessage_nonempty:
  "EOA_referralMessage tag order now \<noteq> [] \<and> Safe_referralMessage tag safe order now \<noteq> []"
  by (simp add: EOA_referralMessage_def Safe_referralMessage_def)

subsection \<open>The order-execution blocks\<close>

lemma submit_referral_eq:
  "submit_referral env sm rs c =
     (if sm \<noteq> [] \<and> rs \<noteq> [] then [SubmitReferral sm rs c (submitReferral env sm rs c)] else [],
      Inr ())"
  by (cases "submitReferral env sm rs c")
     (simp_all add: submit_referral_def tryCatch_simps call_def returns_def)

lemma submit_referral_events:
  "list_all (belongs_to OrderExecution) (fst (submit_referral env sm rs c))"
  by (simp add: submit_referral_eq)

lemma EOA_executeOrder_segment:
  "fst (EOA_executeOrder env c order u hn tu cur tk tp sm rs) \<noteq> [] \<and>
   step_segment ''Awaiting buy signature'' OrderExecution
     (fst (EOA_executeOrder env c order u hn tu cur tk tp sm rs))"
  unfolding EOA_executeOrder_def
  by (rule segment_head) (intro all_rules submit_referral_events; simp)

lemma EOA_executeOrder_part_001_segment:
  "fst (EOA_executeOrder_part_001 env c order u hn tu cur tk tp sm rs) \<noteq> [] \<and>
   step_segment ''Awaiting buy signature'' OrderExecution
     (fst (EOA_executeOrder_part_001 env c order u hn tu cur tk tp sm rs))"
  unfolding EOA_executeOrder_part_001_def
  by (rule segment_head) (intro all_rules submit_referral_events; simp)

lemma Safe_executeOrder_segment:
  "fst (Safe_executeOrder env c order cur tk tp sm rs) \<noteq> [] \<and>
   step_segment ''Submitting order'' OrderExecution
     (fst (Safe_executeOrder env c order cur tk tp sm rs))"
  unfolding Safe_executeOrder_def
  by (rule segment_head) (intro all_rules submit_referral_events; simp)

text \<open>The three ways through the order-execution block of each strategy.\<close>

lemma EOA_executeOrder_shape:
  assumes "EOA_executeOrder env c order u hn tu cur tk tp sm rs = (t, r)"
  shows
    "(\<exists>x. t = [SetDialogStep ''Awaiting buy signature'' None None,
               ExecuteOrder order tk (signature order)
                 (if address cur = zeroAddress then Some tp else None) (Inl x),
               SetDialogStep ''Awaiting confirmation'' (Some error)
                 (Some (decodeContractError env x ''Error buying listing'')),
               EmitError x] \<and>
          r = Inl (JsError (decodeContractError env x ''Error buying listing''))) \<or>
     (\<exists>tx x. t = [SetDialogStep ''Awaiting buy signature'' None None,
               ExecuteOrder order tk (signature order)
                 (if address cur = zeroAddress then Some tp else None) (Inr tx),
               SetDialogStep ''Awaiting confirmation'' None None,
               WaitForTransactionReceipt (hash tx) None None (Inl x),
               SetDialogStep ''Awaiting confirmation'' (Some error)
                 (Some (decodeContractError env x ''Error buying listing'')),
               EmitError x] \<and>
          r = Inl (JsError (decodeContractError env x ''Error buying listing''))) \<or>
     (\<exists>tx rc. t = [SetDialogStep ''Awaiting buy signature'' None None,
               ExecuteOrder order tk (signature order)
                 (if address cur = zeroAddress then Some tp else None) (Inr tx),
               SetDialogStep ''Awaiting confirmation'' None None,
               WaitForTransactionReceipt (hash tx) None None (Inr rc)] @
              fst (submit_referral env sm rs c) @
              [EmitHash (transactionHash rc),
               SetDialogStep ''Awaiting confirmation'' (Some completed) None,
               SetExtraContent (EOA_success_message u hn tu) (hypercert_id order)
                 (find_chain (SUPPORTED_CHAINS env) (chainId order)) (Some rc) False None] \<and>
          waitForTransactionReceipt env (hash tx) None None = Inr rc \<and>
          r = Inr ())"
  using assms
  by (auto simp: EOA_executeOrder_def run_eq Let_def submit_referral_eq)

lemma EOA_executeOrder_part_001_shape:
  assumes "EOA_executeOrder_part_001 env c order u hn tu cur tk tp sm rs = (t, r)"
  shows
    "(\<exists>x. t = [SetDialogStep ''Awaiting buy signature'' None None,
               ExecuteOrder order tk (signature order)
                 (if address cur = zeroAddress then Some tp else None) (Inl x),
               SetDialogStep ''Awaiting confirmation'' (Some error)
                 (Some (decodeContractError env x ''Error buying listing''))] \<and>
          r = Inl (JsError (decodeContractError env x ''Error buying listing''))) \<or>
     (\<exists>tx x. t = [SetDialogStep ''Awaiting buy signature'' None None,
               ExecuteOrder order tk (signature order)
                 (if address cur = zeroAddress then Some tp else None) (Inr tx),
               SetDialogStep ''Awaiting confirmation'' None None,
               WaitForTransactionReceipt (hash tx) None None (Inl x),
               SetDialogStep ''Awaiting confirmation'' (Some error)
                 (Some (decodeContractError env x ''Error buying listing''))] \<and>
          r = Inl (JsError (decodeContractError env x ''Error buying listing''))) \<or>
     (\<exists>tx rc. t = [SetDialogStep ''Awaiting buy signature'' None None,
               ExecuteOrder order tk (signature order)
                 (if address cur = zeroAddress then Some tp else None) (Inr tx),
               SetDialogStep ''Awaiting confirmation'' None None,
               WaitForTransactionReceipt (hash tx) None None (Inr rc)] @
              fst (submit_referral env sm rs c) @
              [EmitReceipt rc,
               SetDialogStep ''Awaiting confirmation'' (Some completed) None,
               SetExtraContent (EOA_success_message u hn tu) (hypercert_id order)
                 (find_chain (SUPPORTED_CHAINS env) (chainId order)) (Some rc) False None] \<and>
          waitForTransactionReceipt env (hash tx) None None = Inr rc \<and>
          r = Inr ())"
  using assms
  by (auto simp: EOA_executeOrder_part_001_def run_eq Let_def submit_referral_eq)

lemma Safe_executeOrder_shape:
  assumes "Safe_executeOrder env c order cur tk tp sm rs = (t, r)"
  shows
    "(\<exists>x. t = [SetDialogStep ''Submitting order'' None None,
               ExecuteOrderSafe (this_address env) order tk (signature order)
                 (if address cur = zeroAddress then Some tp else None) (Inl x),
               SetDialogStep ''Submitting order'' (Some error)
                 (Some (decodeContractError env x ''Error buying listing''))] \<and>
          r = Inl (JsError (decodeContractError env x ''Error buying listing''))) \<or>
     (t = [SetDialogStep ''Submitting order'' None None,
           ExecuteOrderSafe (this_address env) order tk (signature order)
             (if address cur = zeroAddress then Some tp else None) (Inr ()),
           SetDialogStep ''Transaction queued'' None None] @
          fst (submit_referral env sm rs c) @
          [SetExtraContent SubmittedToSafe (hypercert_id order)
             (find_chain (SUPPORTED_CHAINS env) (chainId order)) None True
             (Some (this_address env))] \<and>
      r = Inr ())"
  using assms
  by (auto simp: Safe_executeOrder_def run_eq Let_def submit_referral_eq)

subsection \<open>The shape shared by the three \<open>execute\<close> functions\<close>

lemma pipeline_cases
  [consumes 4, case_names setup_fails bigInt_fails erc20_fails tm_fails reaches_order]:
  assumes X: "X =
      andThen G (\<lambda>c.
      andThen (emit A) (\<lambda>_.
      andThen (emit B) (\<lambda>_.
      andThen S1 (\<lambda>(co, tk).
      case co of
        None \<Rightarrow> throws E0
      | Some cur \<Rightarrow>
      andThen (evaluate bi) (\<lambda>p.
      andThen (S2 cur (p * u)) (\<lambda>_.
      andThen S3 (\<lambda>_.
      andThen S4 (\<lambda>(sm, rs).
      S5 c cur tk (p * u) sm rs))))))))"
    and g: "G = ([], Inr c)"
    and s1: "\<And>t co tk. S1 = (t, Inr (co, tk)) \<Longrightarrow> co \<noteq> None"
    and s4: "\<And>t r. S4 = (t, r) \<Longrightarrow> \<exists>sm rs. r = Inr (sm, rs)"
  obtains
    (setup_fails) t1 e where
      "S1 = (t1, Inl e)"
      "X = ([A, B] @ t1, Inl e)"
  | (bigInt_fails) t1 cur tk e where
      "S1 = (t1, Inr (Some cur, tk))"
      "bi = Inl e"
      "X = ([A, B] @ t1, Inl e)"
  | (erc20_fails) t1 cur tk p t2 e where
      "S1 = (t1, Inr (Some cur, tk))"
      "bi = Inr p"
      "S2 cur (p * u) = (t2, Inl e)"
      "X = ([A, B] @ t1 @ t2, Inl e)"
  | (tm_fails) t1 cur tk p t2 t3 e where
      "S1 = (t1, Inr (Some cur, tk))"
      "bi = Inr p"
      "S2 cur (p * u) = (t2, Inr ())"
      "S3 = (t3, Inl e)"
      "X = ([A, B] @ t1 @ t2 @ t3, Inl e)"
  | (reaches_order) t1 cur tk p t2 t3 t4 sm rs t5 r where
      "S1 = (t1, Inr (Some cur, tk))"
      "bi = Inr p"
      "S2 cur (p * u) = (t2, Inr ())"
      "S3 = (t3, Inr ())"
      "S4 = (t4, Inr (sm, rs))"
      "S5 c cur tk (p * u) sm rs = (t5, r)"
      "X = ([A, B] @ t1 @ t2 @ t3 @ t4 @ t5, r)"
proof -
  obtain t1 r1 where S1: "S1 = (t1, r1)" by (cases S1)
  show thesis
  proof (cases r1)
    case (Inl e)
    with X g S1 have "X = ([A, B] @ t1, Inl e)"
      by (simp add: andThen_simps emit_def)
    with S1 Inl show thesis using setup_fails by blast
  next
    case (Inr x)
    obtain co tk where x: "x = (co, tk)" by (cases x)
    from s1[OF S1[unfolded Inr x]] obtain cur where co: "co = Some cur" by blast
    note S1' = S1[unfolded Inr x co]
    show thesis
    proof (cases bi)
      case (Inl e)
      with X g S1' have "X = ([A, B] @ t1, Inl e)"
        by (simp add: andThen_simps emit_def evaluate_def)
      with S1' Inl show thesis using bigInt_fails by blast
    next
      case p: (Inr p)
      obtain t2 r2 where S2: "S2 cur (p * u) = (t2, r2)" by (cases "S2 cur (p * u)")
      show thesis
      proof (cases r2)
        case (Inl e)
        with X g S1' p S2 have "X = ([A, B] @ t1 @ t2, Inl e)"
          by (simp add: andThen_simps emit_def evaluate_def)
        with S1' p S2 Inl show thesis using erc20_fails by blast
      next
        case r2: (Inr x2)
        obtain t3 r3 where S3: "S3 = (t3, r3)" by (cases S3)
        show thesis
        proof (cases r3)
          case (Inl e)
          with X g S1' p S2 r2 S3 have "X = ([A, B] @ t1 @ t2 @ t3, Inl e)"
            by (simp add: andThen_simps emit_def evaluate_def)
          with S1' p S2 r2 S3 Inl show thesis using tm_fails by simp
        next
          case r3: (Inr x3)
          obtain t4 r4 where S4: "S4 = (t4, r4)" by (cases S4)
          from s4[OF S4] obtain sm rs where r4: "r4 = Inr (sm, rs)" by blast
          obtain t5 r where S5: "S5 c cur tk (p * u) sm rs = (t5, r)"
            by (cases "S5 c cur tk (p * u) sm rs")
          from X g S1' p S2 r2 S3 r3 S4 r4 S5
          have "X = ([A, B] @ t1 @ t2 @ t3 @ t4 @ t5, r)"
            by (simp add: andThen_simps emit_def evaluate_def)
          with S1' p S2 r2 S3 r3 S4 r4 S5 show thesis using reaches_order by simp
        qed
      qed
    qed
  qed
qed

lemma pipeline_guards_fail:
  assumes "X = andThen G F" and "G = ([SetOpen False], Inl e)"
  shows "X = ([SetOpen False], Inl e)"
  using assms by (simp add: andThen_simps)

subsection \<open>Case analysis of a run of \<open>execute\<close>\<close>

lemma EOA_execute_cases
  [consumes 1, case_names setup_fails bigInt_fails erc20_fails tm_fails reaches_order]:
  assumes g: "initial_guards env = ([], Inr c)"
  obtains
    (setup_fails) t1 e where
      "setup_order_execution env order u ppu = (t1, Inl e)"
      "EOA_execute env order u ppu hn tu = ([SetSteps EOA_steps, SetOpen True] @ t1, Inl e)"
  | (bigInt_fails) t1 cur tk e where
      "setup_order_execution env order u ppu = (t1, Inr (Some cur, tk))"
      "bigInt env (price order) = Inl e"
      "EOA_execute env order u ppu hn tu = ([SetSteps EOA_steps, SetOpen True] @ t1, Inl e)"
  | (erc20_fails) t1 cur tk p t2 e where
      "setup_order_execution env order u ppu = (t1, Inr (Some cur, tk))"
      "bigInt env (price order) = Inr p"
      "EOA_ERC20 env (isFarcasterEnvironment (window env)) order cur (p * u) = (t2, Inl e)"
      "EOA_execute env order u ppu hn tu = ([SetSteps EOA_steps, SetOpen True] @ t1 @ t2, Inl e)"
  | (tm_fails) t1 cur tk p t2 t3 e where
      "setup_order_execution env order u ppu = (t1, Inr (Some cur, tk))"
      "bigInt env (price order) = Inr p"
      "EOA_ERC20 env (isFarcasterEnvironment (window env)) order cur (p * u) = (t2, Inr ())"
      "EOA_transferManager env (isFarcasterEnvironment (window env)) = (t3, Inl e)"
      "EOA_execute env order u ppu hn tu = ([SetSteps EOA_steps, SetOpen True] @ t1 @ t2 @ t3, Inl e)"
  | (reaches_order) t1 cur tk p t2 t3 t4 sm rs t5 r where
      "setup_order_execution env order u ppu = (t1, Inr (Some cur, tk))"
      "bigInt env (price order) = Inr p"
      "EOA_ERC20 env (isFarcasterEnvironment (window env)) order cur (p * u) = (t2, Inr ())"
      "EOA_transferManager env (isFarcasterEnvironment (window env)) = (t3, Inr ())"
      "EOA_referral env order = (t4, Inr (sm, rs))"
      "EOA_executeOrder env c order u hn tu cur tk (p * u) sm rs = (t5, r)"
      "EOA_execute env order u ppu hn tu =
         ([SetSteps EOA_steps, SetOpen True] @ t1 @ t2 @ t3 @ t4 @ t5, r)"
proof -
  have X: "EOA_execute env order u ppu hn tu =
      andThen (initial_guards env) (\<lambda>c.
      andThen (emit (SetSteps EOA_steps)) (\<lambda>_.
      andThen (emit (SetOpen True)) (\<lambda>_.
      andThen (setup_order_execution env order u ppu) (\<lambda>(co, tk).
      case co of
        None \<Rightarrow> throws (JsError (invalid_currency_message order))
      | Some cur \<Rightarrow>
      andThen (evaluate (bigInt env (price order))) (\<lambda>p.
      andThen ((\<lambda>cur tp. EOA_ERC20 env (isFarcasterEnvironment (window env)) order cur tp) cur (p * u)) (\<lambda>_.
      andThen (EOA_transferManager env (isFarcasterEnvironment (window env))) (\<lambda>_.
      andThen (EOA_referral env order) (\<lambda>(sm, rs).
      (\<lambda>c cur tk tp sm rs. EOA_executeOrder env c order u hn tu cur tk tp sm rs) c cur tk (p * u) sm rs))))))))"
    unfolding EOA_execute_def Let_def by (rule refl)
  have s1: "co \<noteq> None"
    if "setup_order_execution env order u ppu = (t, Inr (co, tk))" for t co tk
    using setup_result[OF that] by blast
  have s4: "\<exists>sm rs. r = Inr (sm, rs)" if "EOA_referral env order = (t, r)" for t r
    using that by (rule EOA_referral_total)
  show thesis
    apply (rule pipeline_cases[OF X g s1 s4])
         apply assumption
        apply assumption
       apply (rule that(1); assumption)
      apply (rule that(2); assumption)
     apply (rule that(3); assumption)
    apply (rule that(4); assumption)
    apply (rule that(5); assumption)
    done
qed

lemma EOA_execute_guards_fail:
  assumes "initial_guards env = ([SetOpen False], Inl e)"
  shows "EOA_execute env order u ppu hn tu = ([SetOpen False], Inl e)"
  using assms by (simp add: EOA_execute_def andThen_simps)

lemma EOA_execute_part_001_cases
  [consumes 1, case_names setup_fails bigInt_fails erc20_fails tm_fails reaches_order]:
  assumes g: "initial_guards env = ([], Inr c)"
  obtains
    (setup_fails) t1 e where
      "setup_order_execution env order u ppu = (t1, Inl e)"
      "EOA_execute_part_001 env order u ppu hn tu = ([SetSteps EOA_steps, SetOpen True] @ t1, Inl e)"
  | (bigInt_fails) t1 cur tk e where
      "setup_order_execution env order u ppu = (t1, Inr (Some cur, tk))"
      "bigInt env (price order) = Inl e"
      "EOA_execute_part_001 env order u ppu hn tu = ([SetSteps EOA_steps, SetOpen True] @ t1, Inl e)"
  | (erc20_fails) t1 cur tk p t2 e where
      "setup_order_execution env order u ppu = (t1, Inr (Some cur, tk))"
      "bigInt env (price order) = Inr p"
      "EOA_ERC20_part_001 env order cur (p * u) = (t2, Inl e)"
      "EOA_execute_part_001 env order u ppu hn tu = ([SetSteps EOA_steps, SetOpen True] @ t1 @ t2, Inl e)"
  | (tm_fails) t1 cur tk p t2 t3 e where
      "setup_order_execution env order u ppu = (t1, Inr (Some cur, tk))"
      "bigInt env (price order) = Inr p"
      "EOA_ERC20_part_001 env order cur (p * u) = (t2, Inr ())"
      "EOA_transferManager_part_001 env = (t3, Inl e)"
      "EOA_execute_part_001 env order u ppu hn tu = ([SetSteps EOA_steps, SetOpen True] @ t1 @ t2 @ t3, Inl e)"
  | (reaches_order) t1 cur tk p t2 t3 t4 sm rs t5 r where
      "setup_order_execution env order u ppu = (t1, Inr (Some cur, tk))"
      "bigInt env (price order) = Inr p"
      "EOA_ERC20_part_001 env order cur (p * u) = (t2, Inr ())"
      "EOA_transferManager_part_001 env = (t3, Inr ())"
      "EOA_referral env order = (t4, Inr (sm, rs))"
      "EOA_executeOrder_part_001 env c order u hn tu cur tk (p * u) sm rs = (t5, r)"
      "EOA_execute_part_001 env order u ppu hn tu =
         ([SetSteps EOA_steps, SetOpen True] @ t1 @ t2 @ t3 @ t4 @ t5, r)"
proof -
  have X: "EOA_execute_part_001 env order u ppu hn tu =
      andThen (initial_guards env) (\<lambda>c.
      andThen (emit (SetSteps EOA_steps)) (\<lambda>_.
      andThen (emit (SetOpen True)) (\<lambda>_.
      andThen (setup_order_execution env order u ppu) (\<lambda>(co, tk).
      case co of
        None \<Rightarrow> throws (JsError (invalid_currency_message order))
      | Some cur \<Rightarrow>
      andThen (evaluate (bigInt env (price order))) (\<lambda>p.
      andThen ((\<lambda>cur tp. EOA_ERC20_part_001 env order cur tp) cur (p * u)) (\<lambda>_.
      andThen (EOA_transferManager_part_001 env) (\<lambda>_.
      andThen (EOA_referral env order) (\<lambda>(sm, rs).
      (\<lambda>c cur tk tp sm rs. EOA_executeOrder_part_001 env c order u hn tu cur tk tp sm rs) c cur tk (p * u) sm rs))))))))"
    unfolding EOA_execute_part_001_def Let_def by (rule refl)
  have s1: "co \<noteq> None"
    if "setup_order_execution env order u ppu = (t, Inr (co, tk))" for t co tk
    using setup_result[OF that] by blast
  have s4: "\<exists>sm rs. r = Inr (sm, rs)" if "EOA_referral env order = (t, r)" for t r
    using that by (rule EOA_referral_total)
  show thesis
    apply (rule pipeline_cases[OF X g s1 s4])
         apply assumption
        apply assumption
       apply (rule that(1); assumption)
      apply (rule that(2); assumption)
     apply (rule that(3); assumption)
    apply (rule that(4); assumption)
    apply (rule that(5); assumption)
    done
qed

lemma EOA_execute_part_001_guards_fail:
  assumes "initial_guards env = ([SetOpen False], Inl e)"
  shows "EOA_execute_part_001 env order u ppu hn tu = ([SetOpen False], Inl e)"
  using assms by (simp add: EOA_execute_part_001_def andThen_simps)

lemma Safe_execute_cases
  [consumes 1, case_names setup_fails bigInt_fails erc20_fails tm_fails reaches_order]:
  assumes g: "initial_guards env = ([], Inr c)"
  obtains
    (setup_fails) t1 e where
      "setup_order_execution env order u ppu = (t1, Inl e)"
      "Safe_execute env order u ppu = ([SetSteps Safe_steps, SetOpen True] @ t1, Inl e)"
  | (bigInt_fails) t1 cur tk e where
      "setup_order_execution env order u ppu = (t1, Inr (Some cur, tk))"
      "bigInt env (price order) = Inl e"
      "Safe_execute env order u ppu = ([SetSteps Safe_steps, SetOpen True] @ t1, Inl e)"
  | (erc20_fails) t1 cur tk p t2 e where
      "setup_order_execution env order u ppu = (t1, Inr (Some cur, tk))"
      "bigInt env (price order) = Inr p"
      "Safe_ERC20 env order cur (p * u) = (t2, Inl e)"
      "Safe_execute env order u ppu = ([SetSteps Safe_steps, SetOpen True] @ t1 @ t2, Inl e)"
  | (tm_fails) t1 cur tk p t2 t3 e where
      "setup_order_execution env order u ppu = (t1, Inr (Some cur, tk))"
      "bigInt env (price order) = Inr p"
      "Safe_ERC20 env order cur (p * u) = (t2, Inr ())"
      "Safe_transferManager env = (t3, Inl e)"
      "Safe_execute env order u ppu = ([SetSteps Safe_steps, SetOpen True] @ t1 @ t2 @ t3, Inl e)"
  | (reaches_order) t1 cur tk p t2 t3 t4 sm rs t5 r where
      "setup_order_execution env order u ppu = (t1, Inr (Some cur, tk))"
      "bigInt env (price order) = Inr p"
      "Safe_ERC20 env order cur (p * u) = (t2, Inr ())"
      "Safe_transferManager env = (t3, Inr ())"
      "Safe_referral env order = (t4, Inr (sm, rs))"
      "Safe_executeOrder env c order cur tk (p * u) sm rs = (t5, r)"
      "Safe_execute env order u ppu =
         ([SetSteps Safe_steps, SetOpen True] @ t1 @ t2 @ t3 @ t4 @ t5, r)"
proof -
  have X: "Safe_execute env order u ppu =
      andThen (initial_guards env) (\<lambda>c.
      andThen (emit (SetSteps Safe_steps)) (\<lambda>_.
      andThen (emit (SetOpen True)) (\<lambda>_.
      andThen (setup_order_execution env order u ppu) (\<lambda>(co, tk).
      case co of
        None \<Rightarrow> throws (JsError (invalid_currency_message order))
      | Some cur \<Rightarrow>
      andThen (evaluate (bigInt env (price order))) (\<lambda>p.
      andThen ((\<lambda>cur tp. Safe_ERC20 env order cur tp) cur (p * u)) (\<lambda>_.
      andThen (Safe_transferManager env) (\<lambda>_.
      andThen (Safe_referral env order) (\<lambda>(sm, rs).
      (\<lambda>c cur tk tp sm rs. Safe_executeOrder env c order cur tk tp sm rs) c cur tk (p * u) sm rs))))))))"
    unfolding Safe_execute_def Let_def by (rule refl)
  have s1: "co \<noteq> None"
    if "setup_order_execution env order u ppu = (t, Inr (co, tk))" for t co tk
    using setup_result[OF that] by blast
  have s4: "\<exists>sm rs. r = Inr (sm, rs)" if "Safe_referral env order = (t, r)" for t r
    using that by (rule Safe_referral_total)
  show thesis
    apply (rule pipeline_cases[OF X g s1 s4])
         apply assumption
        apply assumption
       apply (rule that(1); assumption)
      apply (rule that(2); assumption)
     apply (rule that(3); assumption)
    apply (rule that(4); assumption)
    apply (rule that(5); assumption)
    done
qed

lemma Safe_execute_guards_fail:
  assumes "initial_guards env = ([SetOpen False], Inl e)"
  shows "Safe_execute env order u ppu = ([SetOpen False], Inl e)"
  using assms by (simp add: Safe_execute_def andThen_simps)

subsection \<open>What happens before the order-execution block\<close>

text \<open>
  Of the events of the order-execution block, only awaiting a receipt also occurs in an
  earlier block.
\<close>

lemma belongs_only_to_order_execution:
  "belongs_to s e \<Longrightarrow> s \<noteq> OrderExecution \<Longrightarrow> belongs_to OrderExecution e \<Longrightarrow>
   \<exists>h a b out. e = WaitForTransactionReceipt h a b out"
  by (cases e; cases s) auto

lemma segment_early:
  assumes "S = (t, r)" and "fst S \<noteq> [] \<and> step_segment i s (fst S)"
    and "s \<noteq> OrderExecution" and "belongs_to s (SetDialogStep i None None)"
  shows "list_all (\<lambda>e. belongs_to OrderExecution e \<longrightarrow> (\<exists>h a b out. e = WaitForTransactionReceipt h a b out)) t"
proof -
  from assms(1,2) obtain rest where t: "t = SetDialogStep i None None # rest"
    and rest: "list_all (belongs_to s) rest"
    by (cases t) auto
  have "list_all (belongs_to s) t" using t rest assms(4) by simp
  then show ?thesis
    using belongs_only_to_order_execution[OF _ assms(3)] by (auto simp: list_all_iff)
qed

lemma early_excludes:
  assumes "list_all (\<lambda>e. belongs_to OrderExecution e \<longrightarrow>
                      (\<exists>h a b out. e = WaitForTransactionReceipt h a b out)) P"
    and "belongs_to OrderExecution e"
    and "\<And>h a b out. e \<noteq> WaitForTransactionReceipt h a b out"
  shows "e \<notin> set P"
proof
  assume "e \<in> set P"
  with assms(1) have "belongs_to OrderExecution e \<longrightarrow>
      (\<exists>h a b out. e = WaitForTransactionReceipt h a b out)"
    by (simp add: list_all_iff)
  with assms(2,3) show False by blast
qed

lemmas setup_early = segment_early[OF _ setup_segment, simplified]
lemmas EOA_ERC20_early = segment_early[OF _ EOA_ERC20_segment, simplified]
lemmas EOA_ERC20_part_001_early = segment_early[OF _ EOA_ERC20_part_001_segment, simplified]
lemmas Safe_ERC20_early = segment_early[OF _ Safe_ERC20_segment, simplified]
lemmas EOA_transferManager_early = segment_early[OF _ EOA_transferManager_segment, simplified]
lemmas EOA_transferManager_part_001_early =
  segment_early[OF _ EOA_transferManager_part_001_segment, simplified]
lemmas Safe_transferManager_early = segment_early[OF _ Safe_transferManager_segment, simplified]
lemmas EOA_referral_early = segment_early[OF _ EOA_referral_segment, simplified]
lemmas Safe_referral_early = segment_early[OF _ Safe_referral_segment, simplified]

lemma EOA_execute_reach [case_names stops reaches]:
  obtains
    (stops) e where
      "list_all (\<lambda>e. belongs_to OrderExecution e \<longrightarrow> (\<exists>h a b out. e = WaitForTransactionReceipt h a b out)) (fst (EOA_execute env order u ppu hn tu))"
      "snd (EOA_execute env order u ppu hn tu) = Inl e"
  | (reaches) c t1 cur tk p t2 t3 t4 sm rs t5 r where
      "initial_guards env = ([], Inr c)"
      "setup_order_execution env order u ppu = (t1, Inr (Some cur, tk))"
      "bigInt env (price order) = Inr p"
      "EOA_ERC20 env (isFarcasterEnvironment (window env)) order cur (p * u) = (t2, Inr ())"
      "EOA_transferManager env (isFarcasterEnvironment (window env)) = (t3, Inr ())"
      "EOA_referral env order = (t4, Inr (sm, rs))"
      "EOA_executeOrder env c order u hn tu cur tk (p * u) sm rs = (t5, r)"
      "EOA_execute env order u ppu hn tu =
         (([SetSteps EOA_steps, SetOpen True] @ t1 @ t2 @ t3 @ t4) @ t5, r)"
      "list_all (\<lambda>e. belongs_to OrderExecution e \<longrightarrow> (\<exists>h a b out. e = WaitForTransactionReceipt h a b out)) ([SetSteps EOA_steps, SetOpen True] @ t1 @ t2 @ t3 @ t4)"
proof -
  from initial_guards_shape[of env] show thesis
  proof
    assume "\<exists>e. initial_guards env = ([SetOpen False], Inl e)"
    then obtain e where "initial_guards env = ([SetOpen False], Inl e)" ..
    from EOA_execute_guards_fail[OF this]
    have "EOA_execute env order u ppu hn tu = ([SetOpen False], Inl e)" .
    then show thesis by (intro stops[of e]) simp_all
  next
    assume "\<exists>c. initial_guards env = ([], Inr c)"
    then obtain c where g: "initial_guards env = ([], Inr c)" ..
    from g show thesis
    proof (cases rule: EOA_execute_cases[where order = order and u = u and ppu = ppu and hn = hn and tu = tu])
      case (setup_fails t1 e)
      from setup_early[OF setup_fails(1)] setup_fails(2)
      show thesis by (intro stops[of e]) simp_all
    next
      case (bigInt_fails t1 cur tk e)
      from setup_early[OF bigInt_fails(1)] bigInt_fails(3)
      show thesis by (intro stops[of e]) simp_all
    next
      case (erc20_fails t1 cur tk p t2 e)
      from setup_early[OF erc20_fails(1)] EOA_ERC20_early[OF erc20_fails(3)] erc20_fails(4)
      show thesis by (intro stops[of e]) simp_all
    next
      case (tm_fails t1 cur tk p t2 t3 e)
      from setup_early[OF tm_fails(1)] EOA_ERC20_early[OF tm_fails(3)]
        EOA_transferManager_early[OF tm_fails(4)] tm_fails(5)
      show thesis by (intro stops[of e]) simp_all
    next
      case (reaches_order t1 cur tk p t2 t3 t4 sm rs t5 r)
      from setup_early[OF reaches_order(1)] EOA_ERC20_early[OF reaches_order(3)]
        EOA_transferManager_early[OF reaches_order(4)] EOA_referral_early[OF reaches_order(5)]
      have "list_all (\<lambda>e. belongs_to OrderExecution e \<longrightarrow> (\<exists>h a b out. e = WaitForTransactionReceipt h a b out)) ([SetSteps EOA_steps, SetOpen True] @ t1 @ t2 @ t3 @ t4)"
        by simp
      with g reaches_order show thesis by (intro reaches[of c t1 cur tk p t2 t3 t4 sm rs t5 r]) simp_all
    qed
  qed
qed

lemma EOA_execute_part_001_reach [case_names stops reaches]:
  obtains
    (stops) e where
      "list_all (\<lambda>e. belongs_to OrderExecution e \<longrightarrow> (\<exists>h a b out. e = WaitForTransactionReceipt h a b out)) (fst (EOA_execute_part_001 env order u ppu hn tu))"
      "snd (EOA_execute_part_001 env order u ppu hn tu) = Inl e"
  | (reaches) c t1 cur tk p t2 t3 t4 sm rs t5 r where
      "initial_guards env = ([], Inr c)"
      "setup_order_execution env order u ppu = (t1, Inr (Some cur, tk))"
      "bigInt env (price order) = Inr p"
      "EOA_ERC20_part_001 env order cur (p * u) = (t2, Inr ())"
      "EOA_transferManager_part_001 env = (t3, Inr ())"
      "EOA_referral env order = (t4, Inr (sm, rs))"
      "EOA_executeOrder_part_001 env c order u hn tu cur tk (p * u) sm rs = (t5, r)"
      "EOA_execute_part_001 env order u ppu hn tu =
         (([SetSteps EOA_steps, SetOpen True] @ t1 @ t2 @ t3 @ t4) @ t5, r)"
      "list_all (\<lambda>e. belongs_to OrderExecution e \<longrightarrow> (\<exists>h a b out. e = WaitForTransactionReceipt h a b out)) ([SetSteps EOA_steps, SetOpen True] @ t1 @ t2 @ t3 @ t4)"
proof -
  from initial_guards_shape[of env] show thesis
  proof
    assume "\<exists>e. initial_guards env = ([SetOpen False], Inl e)"
    then obtain e where "initial_guards env = ([SetOpen False], Inl e)" ..
    from EOA_execute_part_001_guards_fail[OF this]
    have "EOA_execute_part_001 env order u ppu hn tu = ([SetOpen False], Inl e)" .
    then show thesis by (intro stops[of e]) simp_all
  next
    assume "\<exists>c. initial_guards env = ([], Inr c)"
    then obtain c where g: "initial_guards env = ([], Inr c)" ..
    from g show thesis
    proof (cases rule: EOA_execute_part_001_cases[where order = order and u = u and ppu = ppu and hn = hn and tu = tu])
      case (setup_fails t1 e)
      from setup_early[OF setup_fails(1)] setup_fails(2)
      show thesis by (intro stops[of e]) simp_all
    next
      case (bigInt_fails t1 cur tk e)
      from setup_early[OF bigInt_fails(1)] bigInt_fails(3)
      show thesis by (intro stops[of e]) simp_all
    next
      case (erc20_fails t1 cur tk p t2 e)
      from setup_early[OF erc20_fails(1)] EOA_ERC20_part_001_early[OF erc20_fails(3)] erc20_fails(4)
      show thesis by (intro stops[of e]) simp_all
    next
      case (tm_fails t1 cur tk p t2 t3 e)
      from setup_early[OF tm_fails(1)] EOA_ERC20_part_001_early[OF tm_fails(3)]
        EOA_transferManager_part_001_early[OF tm_fails(4)] tm_fails(5)
      show thesis by (intro stops[of e]) simp_all
    next
      case (reaches_order t1 cur tk p t2 t3 t4 sm rs t5 r)
      from setup_early[OF reaches_order(1)] EOA_ERC20_part_001_early[OF reaches_order(3)]
        EOA_transferManager_part_001_early[OF reaches_order(4)] EOA_referral_early[OF reaches_order(5)]
      have "list_all (\<lambda>e. belongs_to OrderExecution e \<longrightarrow> (\<exists>h a b out. e = WaitForTransactionReceipt h a b out)) ([SetSteps EOA_steps, SetOpen True] @ t1 @ t2 @ t3 @ t4)"
        by simp
      with g reaches_order show thesis by (intro reaches[of c t1 cur tk p t2 t3 t4 sm rs t5 r]) simp_all
    qed
  qed
qed

lemma Safe_execute_reach [case_names stops reaches]:
  obtains
    (stops) e where
      "list_all (\<lambda>e. belongs_to OrderExecution e \<longrightarrow> (\<exists>h a b out. e = WaitForTransactionReceipt h a b out)) (fst (Safe_execute env order u ppu))"
      "snd (Safe_execute env order u ppu) = Inl e"
  | (reaches) c t1 cur tk p t2 t3 t4 sm rs t5 r where
      "initial_guards env = ([], Inr c)"
      "setup_order_execution env order u ppu = (t1, Inr (Some cur, tk))"
      "bigInt env (price order) = Inr p"
      "Safe_ERC20 env order cur (p * u) = (t2, Inr ())"
      "Safe_transferManager env = (t3, Inr ())"
      "Safe_referral env order = (t4, Inr (sm, rs))"
      "Safe_executeOrder env c order cur tk (p * u) sm rs = (t5, r)"
      "Safe_execute env order u ppu =
         (([SetSteps Safe_steps, SetOpen True] @ t1 @ t2 @ t3 @ t4) @ t5, r)"
      "list_all (\<lambda>e. belongs_to OrderExecution e \<longrightarrow> (\<exists>h a b out. e = WaitForTransactionReceipt h a b out)) ([SetSteps Safe_steps, SetOpen True] @ t1 @ t2 @ t3 @ t4)"
proof -
  from initial_guards_shape[of env] show thesis
  proof
    assume "\<exists>e. initial_guards env = ([SetOpen False], Inl e)"
    then obtain e where "initial_guards env = ([SetOpen False], Inl e)" ..
    from Safe_execute_guards_fail[OF this]
    have "Safe_execute env order u ppu = ([SetOpen False], Inl e)" .
    then show thesis by (intro stops[of e]) simp_all
  next
    assume "\<exists>c. initial_guards env = ([], Inr c)"
    then obtain c where g: "initial_guards env = ([], Inr c)" ..
    from g show thesis
    proof (cases rule: Safe_execute_cases[where order = order and u = u and ppu = ppu])
      case (setup_fails t1 e)
      from setup_early[OF setup_fails(1)] setup_fails(2)
      show thesis by (intro stops[of e]) simp_all
    next
      case (bigInt_fails t1 cur tk e)
      from setup_early[OF bigInt_fails(1)] bigInt_fails(3)
      show thesis by (intro stops[of e]) simp_all
    next
      case (erc20_fails t1 cur tk p t2 e)
      from setup_early[OF erc20_fails(1)] Safe_ERC20_early[OF erc20_fails(3)] erc20_fails(4)
      show thesis by (intro stops[of e]) simp_all
    next
      case (tm_fails t1 cur tk p t2 t3 e)
      from setup_early[OF tm_fails(1)] Safe_ERC20_early[OF tm_fails(3)]
        Safe_transferManager_early[OF tm_fails(4)] tm_fails(5)
      show thesis by (intro stops[of e]) simp_all
    next
      case (reaches_order t1 cur tk p t2 t3 t4 sm rs t5 r)
      from setup_early[OF reaches_order(1)] Safe_ERC20_early[OF reaches_order(3)]
        Safe_transferManager_early[OF reaches_order(4)] Safe_referral_early[OF reaches_order(5)]
      have "list_all (\<lambda>e. belongs_to OrderExecution e \<longrightarrow> (\<exists>h a b out. e = WaitForTransactionReceipt h a b out)) ([SetSteps Safe_steps, SetOpen True] @ t1 @ t2 @ t3 @ t4)"
        by simp
      with g reaches_order show thesis by (intro reaches[of c t1 cur tk p t2 t3 t4 sm rs t5 r]) simp_all
    qed
  qed
qed

section \<open>The order of the steps\<close>

lemma segment_of:
  "S = (t, r) \<Longrightarrow> fst S \<noteq> [] \<and> step_segment i s (fst S) \<Longrightarrow> t \<noteq> [] \<and> step_segment i s t"
  by simp

lemma steps_in_order_prefixes:
  assumes "t1 \<noteq> [] \<and> step_segment ''Setting up order execution'' OrderSetup t1"
  shows "steps_in_order x t1 [] [] [] []"
    and "t2 \<noteq> [] \<and> step_segment ''ERC20'' CurrencyApproval t2 \<Longrightarrow>
         steps_in_order x t1 t2 [] [] []"
    and "t2 \<noteq> [] \<and> step_segment ''ERC20'' CurrencyApproval t2 \<Longrightarrow>
         t3 \<noteq> [] \<and> step_segment ''Transfer manager'' TransferManagerApproval t3 \<Longrightarrow>
         steps_in_order x t1 t2 t3 [] []"
    and "t2 \<noteq> [] \<and> step_segment ''ERC20'' CurrencyApproval t2 \<Longrightarrow>
         t3 \<noteq> [] \<and> step_segment ''Transfer manager'' TransferManagerApproval t3 \<Longrightarrow>
         t4 \<noteq> [] \<and> step_segment ''Divvi referral setup'' ReferralAttribution t4 \<Longrightarrow>
         t5 \<noteq> [] \<and> step_segment x OrderExecution t5 \<Longrightarrow>
         steps_in_order x t1 t2 t3 t4 t5"
  using assms by (simp_all add: steps_in_order_def)

lemma EOA_execute_in_order:
  assumes g: "initial_guards env = ([], Inr c)"
  shows "\<exists>t1 t2 t3 t4 t5.
           fst (EOA_execute env order u ppu hn tu) =
             [SetSteps EOA_steps, SetOpen True] @ t1 @ t2 @ t3 @ t4 @ t5 \<and>
           steps_in_order ''Awaiting buy signature'' t1 t2 t3 t4 t5 \<and>
           (snd (EOA_execute env order u ppu hn tu) = Inr () \<longrightarrow> t5 \<noteq> [])"
  using g
proof (cases rule: EOA_execute_cases[where order = order and u = u and ppu = ppu
         and hn = hn and tu = tu])
  case (setup_fails t1 e)
  from segment_of[OF setup_fails(1) setup_segment]
  have "steps_in_order ''Awaiting buy signature'' t1 [] [] [] []"
    by (rule steps_in_order_prefixes)
  with setup_fails(2) show ?thesis by (intro exI[of _ t1] exI[of _ "[]"]) simp
next
  case (bigInt_fails t1 cur tk e)
  from segment_of[OF bigInt_fails(1) setup_segment]
  have "steps_in_order ''Awaiting buy signature'' t1 [] [] [] []"
    by (rule steps_in_order_prefixes)
  with bigInt_fails(3) show ?thesis by (intro exI[of _ t1] exI[of _ "[]"]) simp
next
  case (erc20_fails t1 cur tk p t2 e)
  from segment_of[OF erc20_fails(1) setup_segment] segment_of[OF erc20_fails(3) EOA_ERC20_segment]
  have "steps_in_order ''Awaiting buy signature'' t1 t2 [] [] []"
    by (rule steps_in_order_prefixes)
  with erc20_fails(4) show ?thesis by (intro exI[of _ t1] exI[of _ t2] exI[of _ "[]"]) simp
next
  case (tm_fails t1 cur tk p t2 t3 e)
  from segment_of[OF tm_fails(1) setup_segment] segment_of[OF tm_fails(3) EOA_ERC20_segment]
    segment_of[OF tm_fails(4) EOA_transferManager_segment]
  have "steps_in_order ''Awaiting buy signature'' t1 t2 t3 [] []"
    by (rule steps_in_order_prefixes)
  with tm_fails(5) show ?thesis
    by (intro exI[of _ t1] exI[of _ t2] exI[of _ t3] exI[of _ "[]"]) simp
next
  case (reaches_order t1 cur tk p t2 t3 t4 sm rs t5 r)
  note s5 = segment_of[OF reaches_order(6) EOA_executeOrder_segment]
  from segment_of[OF reaches_order(1) setup_segment]
    segment_of[OF reaches_order(3) EOA_ERC20_segment]
    segment_of[OF reaches_order(4) EOA_transferManager_segment]
    segment_of[OF reaches_order(5) EOA_referral_segment] s5
  have "steps_in_order ''Awaiting buy signature'' t1 t2 t3 t4 t5"
    by (rule steps_in_order_prefixes)
  with reaches_order(7) s5 show ?thesis
    by (intro exI[of _ t1] exI[of _ t2] exI[of _ t3] exI[of _ t4] exI[of _ t5]) simp
qed

lemma EOA_execute_part_001_in_order:
  assumes g: "initial_guards env = ([], Inr c)"
  shows "\<exists>t1 t2 t3 t4 t5.
           fst (EOA_execute_part_001 env order u ppu hn tu) =
             [SetSteps EOA_steps, SetOpen True] @ t1 @ t2 @ t3 @ t4 @ t5 \<and>
           steps_in_order ''Awaiting buy signature'' t1 t2 t3 t4 t5 \<and>
           (snd (EOA_execute_part_001 env order u ppu hn tu) = Inr () \<longrightarrow> t5 \<noteq> [])"
  using g
proof (cases rule: EOA_execute_part_001_cases[where order = order and u = u and ppu = ppu
         and hn = hn and tu = tu])
  case (setup_fails t1 e)
  from segment_of[OF setup_fails(1) setup_segment]
  have "steps_in_order ''Awaiting buy signature'' t1 [] [] [] []"
    by (rule steps_in_order_prefixes)
  with setup_fails(2) show ?thesis by (intro exI[of _ t1] exI[of _ "[]"]) simp
next
  case (bigInt_fails t1 cur tk e)
  from segment_of[OF bigInt_fails(1) setup_segment]
  have "steps_in_order ''Awaiting buy signature'' t1 [] [] [] []"
    by (rule steps_in_order_prefixes)
  with bigInt_fails(3) show ?thesis by (intro exI[of _ t1] exI[of _ "[]"]) simp
next
  case (erc20_fails t1 cur tk p t2 e)
  from segment_of[OF erc20_fails(1) setup_segment] segment_of[OF erc20_fails(3) EOA_ERC20_part_001_segment]
  have "steps_in_order ''Awaiting buy signature'' t1 t2 [] [] []"
    by (rule steps_in_order_prefixes)
  with erc20_fails(4) show ?thesis by (intro exI[of _ t1] exI[of _ t2] exI[of _ "[]"]) simp
next
  case (tm_fails t1 cur tk p t2 t3 e)
  from segment_of[OF tm_fails(1) setup_segment] segment_of[OF tm_fails(3) EOA_ERC20_part_001_segment]
    segment_of[OF tm_fails(4) EOA_transferManager_part_001_segment]
  have "steps_in_order ''Awaiting buy signature'' t1 t2 t3 [] []"
    by (rule steps_in_order_prefixes)
  with tm_fails(5) show ?thesis
    by (intro exI[of _ t1] exI[of _ t2] exI[of _ t3] exI[of _ "[]"]) simp
next
  case (reaches_order t1 cur tk p t2 t3 t4 sm rs t5 r)
  note s5 = segment_of[OF reaches_order(6) EOA_executeOrder_part_001_segment]
  from segment_of[OF reaches_order(1) setup_segment]
    segment_of[OF reaches_order(3) EOA_ERC20_part_001_segment]
    segment_of[OF reaches_order(4) EOA_transferManager_part_001_segment]
    segment_of[OF reaches_order(5) EOA_referral_segment] s5
  have "steps_in_order ''Awaiting buy signature'' t1 t2 t3 t4 t5"
    by (rule steps_in_order_prefixes)
  with reaches_order(7) s5 show ?thesis
    by (intro exI[of _ t1] exI[of _ t2] exI[of _ t3] exI[of _ t4] exI[of _ t5]) simp
qed

lemma Safe_execute_in_order:
  assumes g: "initial_guards env = ([], Inr c)"
  shows "\<exists>t1 t2 t3 t4 t5.
           fst (Safe_execute env order u ppu) =
             [SetSteps Safe_steps, SetOpen True] @ t1 @ t2 @ t3 @ t4 @ t5 \<and>
           steps_in_order ''Submitting order'' t1 t2 t3 t4 t5 \<and>
           (snd (Safe_execute env order u ppu) = Inr () \<longrightarrow> t5 \<noteq> [])"
  using g
proof (cases rule: Safe_execute_cases[where order = order and u = u and ppu = ppu])
  case (setup_fails t1 e)
  from segment_of[OF setup_fails(1) setup_segment]
  have "steps_in_order ''Submitting order'' t1 [] [] [] []"
    by (rule steps_in_order_prefixes)
  with setup_fails(2) show ?thesis by (intro exI[of _ t1] exI[of _ "[]"]) simp
next
  case (bigInt_fails t1 cur tk e)
  from segment_of[OF bigInt_fails(1) setup_segment]
  have "steps_in_order ''Submitting order'' t1 [] [] [] []"
    by (rule steps_in_order_prefixes)
  with bigInt_fails(3) show ?thesis by (intro exI[of _ t1] exI[of _ "[]"]) simp
next
  case (erc20_fails t1 cur tk p t2 e)
  from segment_of[OF erc20_fails(1) setup_segment] segment_of[OF erc20_fails(3) Safe_ERC20_segment]
  have "steps_in_order ''Submitting order'' t1 t2 [] [] []"
    by (rule steps_in_order_prefixes)
  with erc20_fails(4) show ?thesis by (intro exI[of _ t1] exI[of _ t2] exI[of _ "[]"]) simp
next
  case (tm_fails t1 cur tk p t2 t3 e)
  from segment_of[OF tm_fails(1) setup_segment] segment_of[OF tm_fails(3) Safe_ERC20_segment]
    segment_of[OF tm_fails(4) Safe_transferManager_segment]
  have "steps_in_order ''Submitting order'' t1 t2 t3 [] []"
    by (rule steps_in_order_prefixes)
  with tm_fails(5) show ?thesis
    by (intro exI[of _ t1] exI[of _ t2] exI[of _ t3] exI[of _ "[]"]) simp
next
  case (reaches_order t1 cur tk p t2 t3 t4 sm rs t5 r)
  note s5 = segment_of[OF reaches_order(6) Safe_executeOrder_segment]
  from segment_of[OF reaches_order(1) setup_segment]
    segment_of[OF reaches_order(3) Safe_ERC20_segment]
    segment_of[OF reaches_order(4) Safe_transferManager_segment]
    segment_of[OF reaches_order(5) Safe_referral_segment] s5
  have "steps_in_order ''Submitting order'' t1 t2 t3 t4 t5"
    by (rule steps_in_order_prefixes)
  with reaches_order(7) s5 show ?thesis
    by (intro exI[of _ t1] exI[of _ t2] exI[of _ t3] exI[of _ t4] exI[of _ t5]) simp
qed

text \<open>
  Claim C1. Every run of \<open>EOABuyFractionalStrategy.execute\<close> (both files) and of
  \<open>SafeBuyFractionalStrategy.execute\<close> that passes the initial guards is, after
  \<open>setSteps\<close> and \<open>setOpen(true)\<close>, five consecutive segments in the order setup,
  ERC20 approval, transfer-manager approval, referral attribution, order execution. Each
  segment that is reached opens with \<open>setDialogStep\<close> for its step's id and holds only
  that step's calls; a step is reached only after the step before it; a run that returns
  normally reached the order execution.
\<close>

theorem steps_run_in_fixed_order:
  assumes "initial_guards env = ([], Inr c)"
  shows
    "(\<exists>t1 t2 t3 t4 t5.
        fst (EOA_execute env order u ppu hn tu) =
          [SetSteps EOA_steps, SetOpen True] @ t1 @ t2 @ t3 @ t4 @ t5 \<and>
        steps_in_order ''Awaiting buy signature'' t1 t2 t3 t4 t5 \<and>
        (snd (EOA_execute env order u ppu hn tu) = Inr () \<longrightarrow> t5 \<noteq> [])) \<and>
     (\<exists>t1 t2 t3 t4 t5.
        fst (EOA_execute_part_001 env order u ppu hn tu) =
          [SetSteps EOA_steps, SetOpen True] @ t1 @ t2 @ t3 @ t4 @ t5 \<and>
        steps_in_order ''Awaiting buy signature'' t1 t2 t3 t4 t5 \<and>
        (snd (EOA_execute_part_001 env order u ppu hn tu) = Inr () \<longrightarrow> t5 \<noteq> [])) \<and>
     (\<exists>t1 t2 t3 t4 t5.
        fst (Safe_execute env order u ppu) =
          [SetSteps Safe_steps, SetOpen True] @ t1 @ t2 @ t3 @ t4 @ t5 \<and>
        steps_in_order ''Submitting order'' t1 t2 t3 t4 t5 \<and>
        (snd (Safe_execute env order u ppu) = Inr () \<longrightarrow> t5 \<noteq> []))"
  using EOA_execute_in_order[OF assms] EOA_execute_part_001_in_order[OF assms]
    Safe_execute_in_order[OF assms]
  by blast

theorem steps_run_in_fixed_order_witness:
  "initial_guards demo_env = ([], Inr 42220) \<and>
   snd (EOA_execute demo_env demo_order 5 ''2'' None None) = Inr () \<and>
   (\<exists>t1 t2 t3 t4 t5.
      fst (EOA_execute demo_env demo_order 5 ''2'' None None) =
        [SetSteps EOA_steps, SetOpen True] @ t1 @ t2 @ t3 @ t4 @ t5 \<and>
      steps_in_order ''Awaiting buy signature'' t1 t2 t3 t4 t5 \<and> t5 \<noteq> [])"
proof -
  have g: "initial_guards demo_env = ([], Inr 42220)"
    by code_simp
  have ok: "snd (EOA_execute demo_env demo_order 5 ''2'' None None) = Inr ()"
    by code_simp
  from steps_run_in_fixed_order[OF g, of demo_order 5 "''2''" None None] g ok
  show ?thesis by blast
qed

section \<open>What depends on the host environment\<close>

lemma EOA_ERC20_in_host_starts:
  "address cur \<noteq> zeroAddress \<Longrightarrow>
   \<exists>rest. fst (EOA_ERC20 env True order cur tp) =
     SetDialogStep ''ERC20'' None None #
     ApproveErc20 (currency order) tp (Some 100000)
       (approveErc20 env (currency order) tp (Some 100000)) # rest"
  by (simp add: EOA_ERC20_def fst_tryCatch fst_andThen call_def setStep_def emit_def)

lemma EOA_ERC20_in_browser_starts:
  "address cur \<noteq> zeroAddress \<Longrightarrow>
   \<exists>rest. fst (EOA_ERC20 env False order cur tp) =
     SetDialogStep ''ERC20'' None None #
     GetERC20Allowance (currency order) (getERC20Allowance env (currency order)) # rest"
  by (simp add: EOA_ERC20_def fst_tryCatch fst_andThen call_def setStep_def emit_def)

lemma EOA_transferManager_in_host_starts:
  "\<exists>rest. fst (EOA_transferManager env True) =
     SetDialogStep ''Transfer manager'' None None #
     GrantTransferManagerApproval (grantTransferManagerApproval env) # rest"
  by (simp add: EOA_transferManager_def fst_tryCatch fst_andThen call_def setStep_def emit_def)

lemma EOA_transferManager_in_browser_starts:
  "\<exists>rest. fst (EOA_transferManager env False) =
     SetDialogStep ''Transfer manager'' None None #
     IsTransferManagerApproved (isTransferManagerApproved env) # rest"
  by (simp add: EOA_transferManager_def fst_tryCatch fst_andThen call_def setStep_def emit_def)

lemma EOA_ERC20_native_same:
  "address cur = zeroAddress \<Longrightarrow>
   EOA_ERC20 env True order cur tp = EOA_ERC20 env False order cur tp"
  by (simp add: EOA_ERC20_def)

lemma window_not_read:
  "setup_order_execution (env\<lparr>window := w\<rparr>) order u ppu = setup_order_execution env order u ppu"
  "EOA_ERC20 (env\<lparr>window := w\<rparr>) b order cur tp = EOA_ERC20 env b order cur tp"
  "EOA_ERC20_part_001 (env\<lparr>window := w\<rparr>) order cur tp = EOA_ERC20_part_001 env order cur tp"
  "Safe_ERC20 (env\<lparr>window := w\<rparr>) order cur tp = Safe_ERC20 env order cur tp"
  "EOA_transferManager (env\<lparr>window := w\<rparr>) b = EOA_transferManager env b"
  "EOA_transferManager_part_001 (env\<lparr>window := w\<rparr>) = EOA_transferManager_part_001 env"
  "Safe_transferManager (env\<lparr>window := w\<rparr>) = Safe_transferManager env"
  "EOA_referral (env\<lparr>window := w\<rparr>) order = EOA_referral env order"
  "Safe_referral (env\<lparr>window := w\<rparr>) order = Safe_referral env order"
  "submit_referral (env\<lparr>window := w\<rparr>) sm rs c = submit_referral env sm rs c"
  "initial_guards (env\<lparr>window := w\<rparr>) = initial_guards env"
  by (simp_all add: setup_order_execution_def EOA_ERC20_def EOA_ERC20_part_001_def
      Safe_ERC20_def EOA_transferManager_def EOA_transferManager_part_001_def
      Safe_transferManager_def EOA_referral_def Safe_referral_def submit_referral_def
      initial_guards_def Let_def cong: if_cong option.case_cong)

lemma window_not_read_by_order_execution:
  "EOA_executeOrder (env\<lparr>window := w\<rparr>) c order u hn tu cur tk tp sm rs =
     EOA_executeOrder env c order u hn tu cur tk tp sm rs"
  "EOA_executeOrder_part_001 (env\<lparr>window := w\<rparr>) c order u hn tu cur tk tp sm rs =
     EOA_executeOrder_part_001 env c order u hn tu cur tk tp sm rs"
  "Safe_executeOrder (env\<lparr>window := w\<rparr>) c order cur tk tp sm rs =
     Safe_executeOrder env c order cur tk tp sm rs"
  by (simp_all add: EOA_executeOrder_def EOA_executeOrder_part_001_def Safe_executeOrder_def
      window_not_read Let_def cong: if_cong)

text \<open>
  Claim C2, as stated, at the setup step and at the whole Safe strategy: the buyer in a
  frame (where \<open>isFarcasterEnvironment()\<close> is true) and the buyer in a browser tab
  (where it is false) get the same run.
\<close>

theorem setup_ignores_host_counterexample:
  "isFarcasterEnvironment (window framed_env) \<and>
   \<not> isFarcasterEnvironment (window demo_env) \<and>
   setup_order_execution framed_env demo_order 5 ''2'' =
     setup_order_execution demo_env demo_order 5 ''2'' \<and>
   Safe_execute framed_env demo_order 5 ''2'' = Safe_execute demo_env demo_order 5 ''2''"
  by code_simp

text \<open>
  Claim C2, amended. Only two steps of \<open>EOABuyFractionalStrategy.tsx\<close> behave
  differently by host environment: the ERC20 approval for a token currency (in the host
  the first call is \<open>approveErc20\<close>, in a browser \<open>getERC20Allowance\<close>) and the
  transfer-manager approval (in the host the first call is
  \<open>grantTransferManagerApproval\<close>, in a browser \<open>isTransferManagerApproved\<close>). The
  ERC20 step for the native currency, the setup, referral and order-execution steps, the
  other file of the EOA strategy and the whole Safe strategy do not read the environment;
  \<open>execute\<close> depends on the window only through the value of
  \<open>isFarcasterEnvironment()\<close>.
\<close>

theorem host_changes_only_two_approval_steps:
  "(address cur \<noteq> zeroAddress \<longrightarrow>
      fst (EOA_ERC20 env True order cur tp) \<noteq> fst (EOA_ERC20 env False order cur tp)) \<and>
   fst (EOA_transferManager env True) \<noteq> fst (EOA_transferManager env False) \<and>
   (address cur = zeroAddress \<longrightarrow>
      EOA_ERC20 env True order cur tp = EOA_ERC20 env False order cur tp) \<and>
   setup_order_execution (env\<lparr>window := w\<rparr>) order u ppu =
     setup_order_execution env order u ppu \<and>
   EOA_referral (env\<lparr>window := w\<rparr>) order = EOA_referral env order \<and>
   EOA_executeOrder (env\<lparr>window := w\<rparr>) c order u hn tu cur tk tp sm rs =
     EOA_executeOrder env c order u hn tu cur tk tp sm rs \<and>
   EOA_execute_part_001 (env\<lparr>window := w\<rparr>) order u ppu hn tu =
     EOA_execute_part_001 env order u ppu hn tu \<and>
   Safe_execute (env\<lparr>window := w\<rparr>) order u ppu = Safe_execute env order u ppu \<and>
   (isFarcasterEnvironment w = isFarcasterEnvironment (window env) \<longrightarrow>
      EOA_execute (env\<lparr>window := w\<rparr>) order u ppu hn tu = EOA_execute env order u ppu hn tu)"
proof -
  have erc: "fst (EOA_ERC20 env True order cur tp) \<noteq> fst (EOA_ERC20 env False order cur tp)"
    if "address cur \<noteq> zeroAddress"
    using EOA_ERC20_in_host_starts[OF that, of env order tp]
      EOA_ERC20_in_browser_starts[OF that, of env order tp]
    by auto
  have tm: "fst (EOA_transferManager env True) \<noteq> fst (EOA_transferManager env False)"
    using EOA_transferManager_in_host_starts[of env]
      EOA_transferManager_in_browser_starts[of env]
    by auto
  have p1: "EOA_execute_part_001 (env\<lparr>window := w\<rparr>) order u ppu hn tu =
     EOA_execute_part_001 env order u ppu hn tu"
    by (simp add: EOA_execute_part_001_def window_not_read window_not_read_by_order_execution
        Let_def cong: if_cong option.case_cong)
  have safe: "Safe_execute (env\<lparr>window := w\<rparr>) order u ppu = Safe_execute env order u ppu"
    by (simp add: Safe_execute_def window_not_read window_not_read_by_order_execution
        Let_def cong: if_cong option.case_cong)
  have eoa: "EOA_execute (env\<lparr>window := w\<rparr>) order u ppu hn tu = EOA_execute env order u ppu hn tu"
    if "isFarcasterEnvironment w = isFarcasterEnvironment (window env)"
    using that
    by (simp add: EOA_execute_def window_not_read window_not_read_by_order_execution
        Let_def cong: if_cong option.case_cong)
  from erc tm p1 safe eoa show ?thesis
    by (simp add: EOA_ERC20_native_same window_not_read window_not_read_by_order_execution)
qed

theorem host_changes_only_two_approval_steps_witness:
  "address \<lparr>address = currency demo_order\<rparr> \<noteq> zeroAddress \<and>
   fst (EOA_ERC20 demo_env True demo_order \<lparr>address = currency demo_order\<rparr> 10) \<noteq>
     fst (EOA_ERC20 demo_env False demo_order \<lparr>address = currency demo_order\<rparr> 10) \<and>
   address \<lparr>address = zeroAddress\<rparr> = zeroAddress \<and>
   EOA_ERC20 demo_env True demo_order \<lparr>address = zeroAddress\<rparr> 10 =
     EOA_ERC20 demo_env False demo_order \<lparr>address = zeroAddress\<rparr> 10"
proof -
  have token: "address \<lparr>address = currency demo_order\<rparr> \<noteq> zeroAddress"
    by code_simp
  have native: "address \<lparr>address = zeroAddress\<rparr> = zeroAddress"
    by simp
  from host_changes_only_two_approval_steps
         [of "\<lparr>address = currency demo_order\<rparr>" demo_env demo_order 10] token
       host_changes_only_two_approval_steps
         [of "\<lparr>address = zeroAddress\<rparr>" demo_env demo_order 10] native
  show ?thesis by blast
qed

section \<open>How the two wallet types finish\<close>

lemma all_case_prod:
  "(\<And>a b. list_all P (fst (f a b))) \<Longrightarrow> list_all P (fst (case_prod f x))"
  by (cases x) simp

lemma Safe_execute_awaits_no_receipt:
  "list_all (\<lambda>e. \<forall>h a b out. e \<noteq> WaitForTransactionReceipt h a b out)
     (fst (Safe_execute env order u ppu))"
  unfolding Safe_execute_def initial_guards_def setup_order_execution_def Safe_ERC20_def
    Safe_transferManager_def Safe_referral_def Safe_executeOrder_def submit_referral_def
  by (intro all_rules all_case_prod; simp)

lemma EOA_execute_confirmed:
  assumes "SetDialogStep ''Awaiting confirmation'' (Some completed) None
             \<in> set (fst (EOA_execute env order u ppu hn tu)) \<or>
           snd (EOA_execute env order u ppu hn tu) = Inr ()"
  shows "\<exists>pre tk ov tx rc post.
           fst (EOA_execute env order u ppu hn tu) =
             pre @ [ExecuteOrder order tk (signature order) ov (Inr tx),
                    SetDialogStep ''Awaiting confirmation'' None None,
                    WaitForTransactionReceipt (hash tx) None None (Inr rc)] @ post \<and>
           SetDialogStep ''Awaiting confirmation'' (Some completed) None \<notin> set pre \<and>
           SetDialogStep ''Awaiting confirmation'' (Some completed) None \<in> set post \<and>
           snd (EOA_execute env order u ppu hn tu) = Inr ()"
proof (cases rule: EOA_execute_reach[of env order u ppu hn tu])
  case (stops e)
  from early_excludes[OF stops(1), of "SetDialogStep ''Awaiting confirmation'' (Some completed) None"]
    stops(2) assms
  show ?thesis by simp
next
  case (reaches c t1 cur tk p t2 t3 t4 sm rs t5 r)
  let ?P = "[SetSteps EOA_steps, SetOpen True] @ t1 @ t2 @ t3 @ t4"
  let ?done = "SetDialogStep ''Awaiting confirmation'' (Some completed) None"
  from early_excludes[OF reaches(9), of ?done] have early: "?done \<notin> set ?P"
    by simp
  from assms reaches(8) early have "?done \<in> set t5 \<or> r = Inr ()" by auto
  with EOA_executeOrder_shape[OF reaches(7)] obtain tx rc where
    t5: "t5 = [SetDialogStep ''Awaiting buy signature'' None None,
               ExecuteOrder order tk (signature order)
                 (if address cur = zeroAddress then Some (p * u) else None) (Inr tx),
               SetDialogStep ''Awaiting confirmation'' None None,
               WaitForTransactionReceipt (hash tx) None None (Inr rc)] @
              fst (submit_referral env sm rs c) @
              [EmitHash (transactionHash rc), ?done,
               SetExtraContent (EOA_success_message u hn tu) (hypercert_id order)
                 (find_chain (SUPPORTED_CHAINS env) (chainId order)) (Some rc) False None]"
    and r: "r = Inr ()"
    by auto
  show ?thesis
    apply (rule exI[of _ "?P @ [SetDialogStep ''Awaiting buy signature'' None None]"])
    apply (rule exI[of _ tk])
    apply (rule exI[of _ "if address cur = zeroAddress then Some (p * u) else None"])
    apply (rule exI[of _ tx])
    apply (rule exI[of _ rc])
    apply (rule exI[of _ "fst (submit_referral env sm rs c) @
              [EmitHash (transactionHash rc), ?done,
               SetExtraContent (EOA_success_message u hn tu) (hypercert_id order)
                 (find_chain (SUPPORTED_CHAINS env) (chainId order)) (Some rc) False None]"])
    using reaches(8) t5 r early by simp
qed

lemma EOA_execute_part_001_confirmed:
  assumes "SetDialogStep ''Awaiting confirmation'' (Some completed) None
             \<in> set (fst (EOA_execute_part_001 env order u ppu hn tu)) \<or>
           snd (EOA_execute_part_001 env order u ppu hn tu) = Inr ()"
  shows "\<exists>pre tk ov tx rc post.
           fst (EOA_execute_part_001 env order u ppu hn tu) =
             pre @ [ExecuteOrder order tk (signature order) ov (Inr tx),
                    SetDialogStep ''Awaiting confirmation'' None None,
                    WaitForTransactionReceipt (hash tx) None None (Inr rc)] @ post \<and>
           SetDialogStep ''Awaiting confirmation'' (Some completed) None \<notin> set pre \<and>
           SetDialogStep ''Awaiting confirmation'' (Some completed) None \<in> set post \<and>
           snd (EOA_execute_part_001 env order u ppu hn tu) = Inr ()"
proof (cases rule: EOA_execute_part_001_reach[of env order u ppu hn tu])
  case (stops e)
  from early_excludes[OF stops(1), of "SetDialogStep ''Awaiting confirmation'' (Some completed) None"]
    stops(2) assms
  show ?thesis by simp
next
  case (reaches c t1 cur tk p t2 t3 t4 sm rs t5 r)
  let ?P = "[SetSteps EOA_steps, SetOpen True] @ t1 @ t2 @ t3 @ t4"
  let ?done = "SetDialogStep ''Awaiting confirmation'' (Some completed) None"
  from early_excludes[OF reaches(9), of ?done] have early: "?done \<notin> set ?P"
    by simp
  from assms reaches(8) early have "?done \<in> set t5 \<or> r = Inr ()" by auto
  with EOA_executeOrder_part_001_shape[OF reaches(7)] obtain tx rc where
    t5: "t5 = [SetDialogStep ''Awaiting buy signature'' None None,
               ExecuteOrder order tk (signature order)
                 (if address cur = zeroAddress then Some (p * u) else None) (Inr tx),
               SetDialogStep ''Awaiting confirmation'' None None,
               WaitForTransactionReceipt (hash tx) None None (Inr rc)] @
              fst (submit_referral env sm rs c) @
              [EmitReceipt rc, ?done,
               SetExtraContent (EOA_success_message u hn tu) (hypercert_id order)
                 (find_chain (SUPPORTED_CHAINS env) (chainId order)) (Some rc) False None]"
    and r: "r = Inr ()"
    by auto
  show ?thesis
    apply (rule exI[of _ "?P @ [SetDialogStep ''Awaiting buy signature'' None None]"])
    apply (rule exI[of _ tk])
    apply (rule exI[of _ "if address cur = zeroAddress then Some (p * u) else None"])
    apply (rule exI[of _ tx])
    apply (rule exI[of _ rc])
    apply (rule exI[of _ "fst (submit_referral env sm rs c) @
              [EmitReceipt rc, ?done,
               SetExtraContent (EOA_success_message u hn tu) (hypercert_id order)
                 (find_chain (SUPPORTED_CHAINS env) (chainId order)) (Some rc) False None]"])
    using reaches(8) t5 r early by simp
qed

lemma Safe_execute_queued:
  assumes "snd (Safe_execute env order u ppu) = Inr ()"
  shows "\<exists>pre tk ov post.
           fst (Safe_execute env order u ppu) =
             pre @ [ExecuteOrderSafe (this_address env) order tk (signature order) ov (Inr ()),
                    SetDialogStep ''Transaction queued'' None None] @ post"
proof (cases rule: Safe_execute_reach[of env order u ppu])
  case (stops e)
  with assms show ?thesis by simp
next
  case (reaches c t1 cur tk p t2 t3 t4 sm rs t5 r)
  let ?P = "[SetSteps Safe_steps, SetOpen True] @ t1 @ t2 @ t3 @ t4"
  from assms reaches(8) have "r = Inr ()" by simp
  with Safe_executeOrder_shape[OF reaches(7)] have
    t5: "t5 = [SetDialogStep ''Submitting order'' None None,
           ExecuteOrderSafe (this_address env) order tk (signature order)
             (if address cur = zeroAddress then Some (p * u) else None) (Inr ()),
           SetDialogStep ''Transaction queued'' None None] @
          fst (submit_referral env sm rs c) @
          [SetExtraContent SubmittedToSafe (hypercert_id order)
             (find_chain (SUPPORTED_CHAINS env) (chainId order)) None True
             (Some (this_address env))]"
    by auto
  show ?thesis
    apply (rule exI[of _ "?P @ [SetDialogStep ''Submitting order'' None None]"])
    apply (rule exI[of _ tk])
    apply (rule exI[of _ "if address cur = zeroAddress then Some (p * u) else None"])
    apply (rule exI[of _ "fst (submit_referral env sm rs c) @
          [SetExtraContent SubmittedToSafe (hypercert_id order)
             (find_chain (SUPPORTED_CHAINS env) (chainId order)) None True
             (Some (this_address env))]"])
    using reaches(8) t5 by simp
qed

text \<open>
  Claim C3. In both files of the EOA strategy, a run that marks ``Awaiting confirmation''
  completed, or that returns normally, has called \<open>executeOrder\<close>, then awaited
  \<open>waitForTransactionReceipt\<close> for the hash of that transaction and received a receipt,
  before it marked the step completed. The Safe strategy never awaits a transaction
  receipt, and a run of it that returns normally has submitted the order with
  \<open>executeOrderSafe\<close> and then set the step ``Transaction queued''.
\<close>

theorem wallet_types_finish_differently:
  "(SetDialogStep ''Awaiting confirmation'' (Some completed) None
        \<in> set (fst (EOA_execute env order u ppu hn tu)) \<or>
      snd (EOA_execute env order u ppu hn tu) = Inr () \<longrightarrow>
    (\<exists>pre tk ov tx rc post.
       fst (EOA_execute env order u ppu hn tu) =
         pre @ [ExecuteOrder order tk (signature order) ov (Inr tx),
                SetDialogStep ''Awaiting confirmation'' None None,
                WaitForTransactionReceipt (hash tx) None None (Inr rc)] @ post \<and>
       SetDialogStep ''Awaiting confirmation'' (Some completed) None \<notin> set pre \<and>
       SetDialogStep ''Awaiting confirmation'' (Some completed) None \<in> set post \<and>
       snd (EOA_execute env order u ppu hn tu) = Inr ())) \<and>
   (SetDialogStep ''Awaiting confirmation'' (Some completed) None
        \<in> set (fst (EOA_execute_part_001 env order u ppu hn tu)) \<or>
      snd (EOA_execute_part_001 env order u ppu hn tu) = Inr () \<longrightarrow>
    (\<exists>pre tk ov tx rc post.
       fst (EOA_execute_part_001 env order u ppu hn tu) =
         pre @ [ExecuteOrder order tk (signature order) ov (Inr tx),
                SetDialogStep ''Awaiting confirmation'' None None,
                WaitForTransactionReceipt (hash tx) None None (Inr rc)] @ post \<and>
       SetDialogStep ''Awaiting confirmation'' (Some completed) None \<notin> set pre \<and>
       SetDialogStep ''Awaiting confirmation'' (Some completed) None \<in> set post \<and>
       snd (EOA_execute_part_001 env order u ppu hn tu) = Inr ())) \<and>
   list_all (\<lambda>e. \<forall>h a b out. e \<noteq> WaitForTransactionReceipt h a b out)
     (fst (Safe_execute env order u ppu)) \<and>
   (snd (Safe_execute env order u ppu) = Inr () \<longrightarrow>
    (\<exists>pre tk ov post.
       fst (Safe_execute env order u ppu) =
         pre @ [ExecuteOrderSafe (this_address env) order tk (signature order) ov (Inr ()),
                SetDialogStep ''Transaction queued'' None None] @ post))"
  using EOA_execute_confirmed[of env order u ppu hn tu]
    EOA_execute_part_001_confirmed[of env order u ppu hn tu]
    Safe_execute_awaits_no_receipt[of env order u ppu]
    Safe_execute_queued[of env order u ppu]
  by blast

theorem wallet_types_finish_differently_witness:
  "snd (EOA_execute demo_env demo_order 5 ''2'' None None) = Inr () \<and>
   (\<exists>pre tk ov tx rc post.
      fst (EOA_execute demo_env demo_order 5 ''2'' None None) =
        pre @ [ExecuteOrder demo_order tk (signature demo_order) ov (Inr tx),
               SetDialogStep ''Awaiting confirmation'' None None,
               WaitForTransactionReceipt (hash tx) None None (Inr rc)] @ post \<and>
      SetDialogStep ''Awaiting confirmation'' (Some completed) None \<notin> set pre \<and>
      SetDialogStep ''Awaiting confirmation'' (Some completed) None \<in> set post) \<and>
   snd (Safe_execute demo_env demo_order 5 ''2'') = Inr () \<and>
   (\<exists>pre tk ov post.
      fst (Safe_execute demo_env demo_order 5 ''2'') =
        pre @ [ExecuteOrderSafe (this_address demo_env) demo_order tk (signature demo_order) ov
                 (Inr ()),
               SetDialogStep ''Transaction queued'' None None] @ post)"
proof -
  have eoa: "snd (EOA_execute demo_env demo_order 5 ''2'' None None) = Inr ()"
    by code_simp
  have safe: "snd (Safe_execute demo_env demo_order 5 ''2'') = Inr ()"
    by code_simp
  from wallet_types_finish_differently[of demo_env demo_order 5 "''2''" None None] eoa safe
  show ?thesis by blast
qed

section \<open>Transfer-manager approval comes before the order\<close>

lemma early_no_order:
  assumes "list_all (\<lambda>e. belongs_to OrderExecution e \<longrightarrow>
                      (\<exists>h a b out. e = WaitForTransactionReceipt h a b out)) P"
  shows "list_all (\<lambda>ev. (\<forall>o' tk s ov out. ev \<noteq> ExecuteOrder o' tk s ov out) \<and>
                       (\<forall>sa o' tk s ov out. ev \<noteq> ExecuteOrderSafe sa o' tk s ov out)) P"
  using assms by (rule list.pred_mono_strong) auto

lemma inside_prefix:
  assumes "t3 = x @ m @ y" and "a = (F @ t3 @ t4) @ a'"
  shows "\<exists>a1 a2. a = a1 @ m @ a2"
proof -
  from assms have "a = (F @ x) @ m @ (y @ t4 @ a')" by simp
  then show ?thesis by blast
qed

lemma EOA_execute_approved_first:
  assumes tr: "fst (EOA_execute env order u ppu hn tu) = a @ ExecuteOrder o' tk' s ov out # b"
  shows "if isFarcasterEnvironment (window env)
         then (\<exists>g. GrantTransferManagerApproval g \<in> set a)
         else IsTransferManagerApproved (Inr True) \<in> set a \<or>
              (\<exists>a1 a2 tx rc.
                 a = a1 @ [GrantTransferManagerApproval (Inr tx),
                           WaitForTransactionReceipt (hash tx) (Some 60000) None (Inr rc)] @ a2 \<and>
                 status rc = ''success'')"
proof (cases rule: EOA_execute_reach[of env order u ppu hn tu])
  case (stops e)
  from early_excludes[OF stops(1), of "ExecuteOrder o' tk' s ov out"] tr
  show ?thesis by simp
next
  case (reaches c t1 cur tk p t2 t3 t4 sm rs t5 r)
  let ?F = "[SetSteps EOA_steps, SetOpen True] @ t1 @ t2"
  from early_excludes[OF reaches(9), of "ExecuteOrder o' tk' s ov out"]
  have notin: "ExecuteOrder o' tk' s ov out \<notin> set (?F @ t3 @ t4)" by simp
  from reaches(8) tr
  have "(?F @ t3 @ t4) @ t5 = a @ ExecuteOrder o' tk' s ov out # b" by simp
  from split_after_prefix[OF this notin]
  obtain a' where a: "a = (?F @ t3 @ t4) @ a'" by (elim exE conjE)
  show ?thesis
  proof (cases "isFarcasterEnvironment (window env)")
    case True
    with EOA_transferManager_succeeds[OF reaches(5)]
    have "\<exists>g. GrantTransferManagerApproval g \<in> set t3" by simp
    then obtain g where "GrantTransferManagerApproval g \<in> set t3" ..
    with a have "GrantTransferManagerApproval g \<in> set a" by simp
    then have "\<exists>g. GrantTransferManagerApproval g \<in> set a" ..
    with True show ?thesis by simp
  next
    case False
    with EOA_transferManager_succeeds[OF reaches(5)] have
      "t3 = [SetDialogStep ''Transfer manager'' None None,
             IsTransferManagerApproved (Inr True)] \<or>
       (\<exists>tx rc. status rc = ''success'' \<and>
          t3 = [SetDialogStep ''Transfer manager'' None None,
                IsTransferManagerApproved (Inr False),
                GrantTransferManagerApproval (Inr tx),
                WaitForTransactionReceipt (hash tx) (Some 60000) None (Inr rc)])"
      by (simp only: if_False)
    then have "IsTransferManagerApproved (Inr True) \<in> set a \<or>
         (\<exists>a1 a2 tx rc.
            a = a1 @ [GrantTransferManagerApproval (Inr tx),
                      WaitForTransactionReceipt (hash tx) (Some 60000) None (Inr rc)] @ a2 \<and>
            status rc = ''success'')"
    proof (elim disjE exE conjE)
      assume "t3 = [SetDialogStep ''Transfer manager'' None None,
                    IsTransferManagerApproved (Inr True)]"
      with a have "IsTransferManagerApproved (Inr True) \<in> set a" by simp
      then show ?thesis by (rule disjI1)
    next
      fix tx rc
      assume ok: "status rc = ''success''"
        and "t3 = [SetDialogStep ''Transfer manager'' None None,
                   IsTransferManagerApproved (Inr False),
                   GrantTransferManagerApproval (Inr tx),
                   WaitForTransactionReceipt (hash tx) (Some 60000) None (Inr rc)]"
      then have "t3 = [SetDialogStep ''Transfer manager'' None None,
                       IsTransferManagerApproved (Inr False)] @
                      [GrantTransferManagerApproval (Inr tx),
                       WaitForTransactionReceipt (hash tx) (Some 60000) None (Inr rc)] @ []"
        by simp
      from inside_prefix[OF this a] ok
      have "\<exists>a1 a2 tx rc.
              a = a1 @ [GrantTransferManagerApproval (Inr tx),
                        WaitForTransactionReceipt (hash tx) (Some 60000) None (Inr rc)] @ a2 \<and>
              status rc = ''success''"
        by blast
      then show ?thesis by (rule disjI2)
    qed
    with False show ?thesis by simp
  qed
qed

lemma EOA_execute_part_001_approved_first:
  assumes tr: "fst (EOA_execute_part_001 env order u ppu hn tu) =
                 a @ ExecuteOrder o' tk' s ov out # b"
  shows "IsTransferManagerApproved (Inr True) \<in> set a \<or>
         (\<exists>a1 a2 tx rc.
            a = a1 @ [GrantTransferManagerApproval (Inr tx),
                      WaitForTransactionReceipt (hash tx) None None (Inr rc)] @ a2)"
proof (cases rule: EOA_execute_part_001_reach[of env order u ppu hn tu])
  case (stops e)
  from early_excludes[OF stops(1), of "ExecuteOrder o' tk' s ov out"] tr
  show ?thesis by simp
next
  case (reaches c t1 cur tk p t2 t3 t4 sm rs t5 r)
  let ?F = "[SetSteps EOA_steps, SetOpen True] @ t1 @ t2"
  from early_excludes[OF reaches(9), of "ExecuteOrder o' tk' s ov out"]
  have notin: "ExecuteOrder o' tk' s ov out \<notin> set (?F @ t3 @ t4)" by simp
  from reaches(8) tr
  have "(?F @ t3 @ t4) @ t5 = a @ ExecuteOrder o' tk' s ov out # b" by simp
  from split_after_prefix[OF this notin]
  obtain a' where a: "a = (?F @ t3 @ t4) @ a'" by (elim exE conjE)
  from EOA_transferManager_part_001_succeeds[OF reaches(5)] show ?thesis
  proof (elim disjE exE)
    assume "t3 = [SetDialogStep ''Transfer manager'' None None,
                  IsTransferManagerApproved (Inr True)]"
    with a have "IsTransferManagerApproved (Inr True) \<in> set a" by simp
    then show ?thesis by (rule disjI1)
  next
    fix tx rc
    assume "t3 = [SetDialogStep ''Transfer manager'' None None,
                  IsTransferManagerApproved (Inr False),
                  GrantTransferManagerApproval (Inr tx),
                  WaitForTransactionReceipt (hash tx) None None (Inr rc)]"
    then have "t3 = [SetDialogStep ''Transfer manager'' None None,
                     IsTransferManagerApproved (Inr False)] @
                    [GrantTransferManagerApproval (Inr tx),
                     WaitForTransactionReceipt (hash tx) None None (Inr rc)] @ []"
      by simp
    from inside_prefix[OF this a]
    have "\<exists>a1 a2 tx rc.
            a = a1 @ [GrantTransferManagerApproval (Inr tx),
                      WaitForTransactionReceipt (hash tx) None None (Inr rc)] @ a2"
      by blast
    then show ?thesis by (rule disjI2)
  qed
qed

lemma Safe_execute_approved_first:
  assumes tr: "fst (Safe_execute env order u ppu) =
                 a @ ExecuteOrderSafe sa o' tk' s ov out # b"
  shows "IsTransferManagerApprovedSafe (this_address env) (Inr True) \<in> set a \<or>
         GrantTransferManagerApprovalSafe (this_address env) (Inr ()) \<in> set a"
proof (cases rule: Safe_execute_reach[of env order u ppu])
  case (stops e)
  from early_excludes[OF stops(1), of "ExecuteOrderSafe sa o' tk' s ov out"] tr
  show ?thesis by simp
next
  case (reaches c t1 cur tk p t2 t3 t4 sm rs t5 r)
  let ?F = "[SetSteps Safe_steps, SetOpen True] @ t1 @ t2"
  from early_excludes[OF reaches(9), of "ExecuteOrderSafe sa o' tk' s ov out"]
  have notin: "ExecuteOrderSafe sa o' tk' s ov out \<notin> set (?F @ t3 @ t4)" by simp
  from reaches(8) tr
  have "(?F @ t3 @ t4) @ t5 = a @ ExecuteOrderSafe sa o' tk' s ov out # b" by simp
  from split_after_prefix[OF this notin]
  obtain a' where a: "a = (?F @ t3 @ t4) @ a'" by (elim exE conjE)
  from Safe_transferManager_succeeds[OF reaches(5)] show ?thesis
  proof
    assume "t3 = [SetDialogStep ''Transfer manager'' None None,
                  IsTransferManagerApprovedSafe (this_address env) (Inr True)]"
    with a show ?thesis by simp
  next
    assume "t3 = [SetDialogStep ''Transfer manager'' None None,
                  IsTransferManagerApprovedSafe (this_address env) (Inr False),
                  GrantTransferManagerApprovalSafe (this_address env) (Inr ())]"
    with a show ?thesis by simp
  qed
qed

lemma EOA_execute_stops_at_transfer_manager:
  assumes "EOA_transferManager env (isFarcasterEnvironment (window env)) = (t, Inl e)"
  shows "(\<exists>e'. snd (EOA_execute env order u ppu hn tu) = Inl e') \<and>
         list_all (\<lambda>ev. (\<forall>o' tk s ov out. ev \<noteq> ExecuteOrder o' tk s ov out) \<and>
                        (\<forall>sa o' tk s ov out. ev \<noteq> ExecuteOrderSafe sa o' tk s ov out))
           (fst (EOA_execute env order u ppu hn tu))"
proof (cases rule: EOA_execute_reach[of env order u ppu hn tu])
  case (stops e)
  with early_no_order[OF stops(1)] show ?thesis by simp
next
  case (reaches c t1 cur tk p t2 t3 t4 sm rs t5 r)
  with assms show ?thesis by simp
qed

lemma EOA_execute_part_001_stops_at_transfer_manager:
  assumes "EOA_transferManager_part_001 env = (t, Inl e)"
  shows "(\<exists>e'. snd (EOA_execute_part_001 env order u ppu hn tu) = Inl e') \<and>
         list_all (\<lambda>ev. (\<forall>o' tk s ov out. ev \<noteq> ExecuteOrder o' tk s ov out) \<and>
                        (\<forall>sa o' tk s ov out. ev \<noteq> ExecuteOrderSafe sa o' tk s ov out))
           (fst (EOA_execute_part_001 env order u ppu hn tu))"
proof (cases rule: EOA_execute_part_001_reach[of env order u ppu hn tu])
  case (stops e)
  with early_no_order[OF stops(1)] show ?thesis by simp
next
  case (reaches c t1 cur tk p t2 t3 t4 sm rs t5 r)
  with assms show ?thesis by simp
qed

lemma Safe_execute_stops_at_transfer_manager:
  assumes "Safe_transferManager env = (t, Inl e)"
  shows "(\<exists>e'. snd (Safe_execute env order u ppu) = Inl e') \<and>
         list_all (\<lambda>ev. (\<forall>o' tk s ov out. ev \<noteq> ExecuteOrder o' tk s ov out) \<and>
                        (\<forall>sa o' tk s ov out. ev \<noteq> ExecuteOrderSafe sa o' tk s ov out))
           (fst (Safe_execute env order u ppu))"
proof (cases rule: Safe_execute_reach[of env order u ppu])
  case (stops e)
  with early_no_order[OF stops(1)] show ?thesis by simp
next
  case (reaches c t1 cur tk p t2 t3 t4 sm rs t5 r)
  with assms show ?thesis by simp
qed

text \<open>
  Claim C4. Wherever \<open>executeOrder\<close> (or \<open>executeOrderSafe\<close>) occurs in a run, the
  events before it hold the approval of the transfer manager: in a regular browser
  \<open>isTransferManagerApproved\<close> returned true, or \<open>grantTransferManagerApproval\<close>
  returned a transaction whose receipt was then awaited and received (with status
  \<open>success\<close> in \<open>EOABuyFractionalStrategy.tsx\<close>; the other file does not read the
  status); in the mini-app host \<open>grantTransferManagerApproval\<close> was called; for a Safe
  the query returned true or the grant was queued. When the transfer-manager block
  throws, \<open>execute\<close> throws and the run holds no \<open>executeOrder\<close>.
\<close>

theorem order_needs_transfer_manager_approval:
  "(\<forall>a o' tk s ov out b.
      fst (EOA_execute env order u ppu hn tu) = a @ ExecuteOrder o' tk s ov out # b \<longrightarrow>
      (if isFarcasterEnvironment (window env)
       then (\<exists>g. GrantTransferManagerApproval g \<in> set a)
       else IsTransferManagerApproved (Inr True) \<in> set a \<or>
            (\<exists>a1 a2 tx rc.
               a = a1 @ [GrantTransferManagerApproval (Inr tx),
                         WaitForTransactionReceipt (hash tx) (Some 60000) None (Inr rc)] @ a2 \<and>
               status rc = ''success''))) \<and>
   (\<forall>a o' tk s ov out b.
      fst (EOA_execute_part_001 env order u ppu hn tu) = a @ ExecuteOrder o' tk s ov out # b \<longrightarrow>
      IsTransferManagerApproved (Inr True) \<in> set a \<or>
      (\<exists>a1 a2 tx rc.
         a = a1 @ [GrantTransferManagerApproval (Inr tx),
                   WaitForTransactionReceipt (hash tx) None None (Inr rc)] @ a2)) \<and>
   (\<forall>a sa o' tk s ov out b.
      fst (Safe_execute env order u ppu) = a @ ExecuteOrderSafe sa o' tk s ov out # b \<longrightarrow>
      IsTransferManagerApprovedSafe (this_address env) (Inr True) \<in> set a \<or>
      GrantTransferManagerApprovalSafe (this_address env) (Inr ()) \<in> set a) \<and>
   (\<forall>t e. EOA_transferManager env (isFarcasterEnvironment (window env)) = (t, Inl e) \<longrightarrow>
      (\<exists>e'. snd (EOA_execute env order u ppu hn tu) = Inl e') \<and>
      list_all (\<lambda>ev. (\<forall>o' tk s ov out. ev \<noteq> ExecuteOrder o' tk s ov out) \<and>
                     (\<forall>sa o' tk s ov out. ev \<noteq> ExecuteOrderSafe sa o' tk s ov out))
        (fst (EOA_execute env order u ppu hn tu))) \<and>
   (\<forall>t e. EOA_transferManager_part_001 env = (t, Inl e) \<longrightarrow>
      (\<exists>e'. snd (EOA_execute_part_001 env order u ppu hn tu) = Inl e') \<and>
      list_all (\<lambda>ev. (\<forall>o' tk s ov out. ev \<noteq> ExecuteOrder o' tk s ov out) \<and>
                     (\<forall>sa o' tk s ov out. ev \<noteq> ExecuteOrderSafe sa o' tk s ov out))
        (fst (EOA_execute_part_001 env order u ppu hn tu))) \<and>
   (\<forall>t e. Safe_transferManager env = (t, Inl e) \<longrightarrow>
      (\<exists>e'. snd (Safe_execute env order u ppu) = Inl e') \<and>
      list_all (\<lambda>ev. (\<forall>o' tk s ov out. ev \<noteq> ExecuteOrder o' tk s ov out) \<and>
                     (\<forall>sa o' tk s ov out. ev \<noteq> ExecuteOrderSafe sa o' tk s ov out))
        (fst (Safe_execute env order u ppu)))"
  apply (intro conjI allI impI)
       apply (erule EOA_execute_approved_first)
      apply (erule EOA_execute_part_001_approved_first)
     apply (erule Safe_execute_approved_first)
    apply (erule EOA_execute_stops_at_transfer_manager[THEN conjunct1])
    apply (erule EOA_execute_stops_at_transfer_manager[THEN conjunct2])
    apply (erule EOA_execute_part_001_stops_at_transfer_manager[THEN conjunct1])
    apply (erule EOA_execute_part_001_stops_at_transfer_manager[THEN conjunct2])
    apply (erule Safe_execute_stops_at_transfer_manager[THEN conjunct1])
    apply (erule Safe_execute_stops_at_transfer_manager[THEN conjunct2])
  done

theorem order_needs_transfer_manager_approval_witness:
  "\<not> isFarcasterEnvironment (window demo_env) \<and>
   (\<exists>a tk ov out b.
      fst (EOA_execute demo_env demo_order 5 ''2'' None None) =
        a @ ExecuteOrder demo_order tk (signature demo_order) ov out # b \<and>
      (IsTransferManagerApproved (Inr True) \<in> set a \<or>
       (\<exists>a1 a2 tx rc.
          a = a1 @ [GrantTransferManagerApproval (Inr tx),
                    WaitForTransactionReceipt (hash tx) (Some 60000) None (Inr rc)] @ a2 \<and>
          status rc = ''success'')))"
proof -
  have nf: "\<not> isFarcasterEnvironment (window demo_env)"
    by code_simp
  have ok: "snd (EOA_execute demo_env demo_order 5 ''2'' None None) = Inr ()"
    by code_simp
  from EOA_execute_confirmed[of demo_env demo_order 5 "''2''" None None] ok
  obtain pre tk ov tx rc post where
    "fst (EOA_execute demo_env demo_order 5 ''2'' None None) =
       pre @ [ExecuteOrder demo_order tk (signature demo_order) ov (Inr tx),
              SetDialogStep ''Awaiting confirmation'' None None,
              WaitForTransactionReceipt (hash tx) None None (Inr rc)] @ post"
    by blast
  then have tr:
    "fst (EOA_execute demo_env demo_order 5 ''2'' None None) =
       pre @ ExecuteOrder demo_order tk (signature demo_order) ov (Inr tx) #
         ([SetDialogStep ''Awaiting confirmation'' None None,
           WaitForTransactionReceipt (hash tx) None None (Inr rc)] @ post)"
    by simp
  from order_needs_transfer_manager_approval[of demo_env demo_order 5 "''2''" None None]
  have "\<forall>a o' tk s ov out b.
      fst (EOA_execute demo_env demo_order 5 ''2'' None None) =
        a @ ExecuteOrder o' tk s ov out # b \<longrightarrow>
      (if isFarcasterEnvironment (window demo_env)
       then (\<exists>g. GrantTransferManagerApproval g \<in> set a)
       else IsTransferManagerApproved (Inr True) \<in> set a \<or>
            (\<exists>a1 a2 tx rc.
               a = a1 @ [GrantTransferManagerApproval (Inr tx),
                         WaitForTransactionReceipt (hash tx) (Some 60000) None (Inr rc)] @ a2 \<and>
               status rc = ''success''))"
    by (rule conjunct1)
  from this[rule_format, OF tr] nf
  have "IsTransferManagerApproved (Inr True) \<in> set pre \<or>
       (\<exists>a1 a2 tx rc.
          pre = a1 @ [GrantTransferManagerApproval (Inr tx),
                    WaitForTransactionReceipt (hash tx) (Some 60000) None (Inr rc)] @ a2 \<and>
          status rc = ''success'')"
    by simp
  with nf tr show ?thesis by blast
qed

section \<open>Currency approval and the native value\<close>

lemma segment_all:
  assumes "S = (t, r)" and "fst S \<noteq> [] \<and> step_segment i s (fst S)"
    and "belongs_to s (SetDialogStep i None None)"
  shows "list_all (belongs_to s) t"
  using assms by (cases t) auto

lemmas setup_all = segment_all[OF _ setup_segment, simplified]
lemmas EOA_ERC20_all = segment_all[OF _ EOA_ERC20_segment, simplified]
lemmas EOA_ERC20_part_001_all = segment_all[OF _ EOA_ERC20_part_001_segment, simplified]
lemmas Safe_ERC20_all = segment_all[OF _ Safe_ERC20_segment, simplified]
lemmas EOA_transferManager_all = segment_all[OF _ EOA_transferManager_segment, simplified]
lemmas EOA_transferManager_part_001_all =
  segment_all[OF _ EOA_transferManager_part_001_segment, simplified]
lemmas Safe_transferManager_all = segment_all[OF _ Safe_transferManager_segment, simplified]
lemmas EOA_referral_all = segment_all[OF _ EOA_referral_segment, simplified]
lemmas Safe_referral_all = segment_all[OF _ Safe_referral_segment, simplified]
lemmas EOA_executeOrder_all = segment_all[OF _ EOA_executeOrder_segment, simplified]
lemmas EOA_executeOrder_part_001_all =
  segment_all[OF _ EOA_executeOrder_part_001_segment, simplified]
lemmas Safe_executeOrder_all = segment_all[OF _ Safe_executeOrder_segment, simplified]

lemma not_of_step:
  "list_all (belongs_to s) t \<Longrightarrow> \<not> belongs_to s e \<Longrightarrow> e \<notin> set t"
  by (auto simp: list_all_iff)

lemma approval_in_erc20_block:
  assumes e: "e = ApproveErc20 a m g out \<or> e = ApproveErc20Safe sa a m out'"
    and mem: "e \<in> set ([SetSteps x, SetOpen True] @ t1 @ t2 @ t3 @ t4 @ t5)"
    and "list_all (belongs_to OrderSetup) t1"
    and "list_all (belongs_to TransferManagerApproval) t3"
    and "list_all (belongs_to ReferralAttribution) t4"
    and "list_all (belongs_to OrderExecution) t5"
  shows "e \<in> set t2"
proof -
  from e have "\<not> belongs_to OrderSetup e" "\<not> belongs_to TransferManagerApproval e"
    "\<not> belongs_to ReferralAttribution e" "\<not> belongs_to OrderExecution e"
    by auto
  with assms(3-6) have "e \<notin> set t1" "e \<notin> set t3" "e \<notin> set t4" "e \<notin> set t5"
    by (simp_all add: not_of_step)
  moreover from e have "e \<noteq> SetSteps x" "e \<noteq> SetOpen True" by auto
  ultimately show ?thesis using mem by simp
qed

lemma EOA_execute_approval:
  assumes mem: "ApproveErc20 a amount gas out \<in> set (fst (EOA_execute env order u ppu hn tu))"
  shows "\<exists>cur p.
           getCurrencyByAddress env (chainId order) (currency order) = Some cur \<and>
           bigInt env (price order) = Inr p \<and>
           address cur \<noteq> zeroAddress \<and> a = currency order \<and> amount = p * u \<and>
           (isFarcasterEnvironment (window env) \<or> (\<exists>allowance.
               GetERC20Allowance (currency order) (Inr allowance)
                 \<in> set (fst (EOA_execute env order u ppu hn tu)) \<and>
               allowance < p * u))"
proof -
  from initial_guards_shape[of env] show ?thesis
  proof
    assume "\<exists>e. initial_guards env = ([SetOpen False], Inl e)"
    then obtain e where "initial_guards env = ([SetOpen False], Inl e)" ..
    from EOA_execute_guards_fail[OF this] mem show ?thesis by simp
  next
    assume "\<exists>c. initial_guards env = ([], Inr c)"
    then obtain c where g: "initial_guards env = ([], Inr c)" ..
    have E: "ApproveErc20 a amount gas out = ApproveErc20 a amount gas out \<or>
             ApproveErc20 a amount gas out = ApproveErc20Safe safe' a amount out'"
      by simp
    have final: ?thesis
      if s1: "setup_order_execution env order u ppu = (t1, Inr (Some cur, tk))"
        and bi: "bigInt env (price order) = Inr p"
        and s2: "EOA_ERC20 env (isFarcasterEnvironment (window env)) order cur (p * u) = (t2, r2)"
        and in2: "ApproveErc20 a amount gas out \<in> set t2"
        and sub: "set t2 \<subseteq> set (fst (EOA_execute env order u ppu hn tu))"
      for t1 cur tk p t2 r2
    proof -
      from setup_result[OF s1]
      have "getCurrencyByAddress env (chainId order) (currency order) = Some cur" by simp
      moreover note bi
      moreover from EOA_ERC20_approves[OF s2 in2] sub
      have "address cur \<noteq> zeroAddress \<and> a = currency order \<and> amount = p * u \<and>
            (isFarcasterEnvironment (window env) \<or> (\<exists>allowance.
               GetERC20Allowance (currency order) (Inr allowance)
                 \<in> set (fst (EOA_execute env order u ppu hn tu)) \<and>
               allowance < p * u))"
        by blast
      ultimately show ?thesis by blast
    qed
    from g show ?thesis
    proof (cases rule: EOA_execute_cases[where order = order and u = u and ppu = ppu and hn = hn and tu = tu])
      case (setup_fails t1 e)
      from mem setup_fails(2)
      have "ApproveErc20 a amount gas out \<in> set ([SetSteps EOA_steps, SetOpen True] @ t1 @ [] @ [] @ [] @ [])"
        by simp
      from approval_in_erc20_block[OF E this setup_all[OF setup_fails(1)]]
      show ?thesis by simp
    next
      case (bigInt_fails t1 cur tk e)
      from mem bigInt_fails(3)
      have "ApproveErc20 a amount gas out \<in> set ([SetSteps EOA_steps, SetOpen True] @ t1 @ [] @ [] @ [] @ [])"
        by simp
      from approval_in_erc20_block[OF E this setup_all[OF bigInt_fails(1)]]
      show ?thesis by simp
    next
      case (erc20_fails t1 cur tk p t2 e)
      from mem erc20_fails(4)
      have "ApproveErc20 a amount gas out \<in> set ([SetSteps EOA_steps, SetOpen True] @ t1 @ t2 @ [] @ [] @ [])"
        by simp
      from approval_in_erc20_block[OF E this setup_all[OF erc20_fails(1)]]
      have "ApproveErc20 a amount gas out \<in> set t2" by simp
      with erc20_fails show ?thesis by (intro final[of t1 cur tk p t2 "Inl e"]) auto
    next
      case (tm_fails t1 cur tk p t2 t3 e)
      from mem tm_fails(5)
      have "ApproveErc20 a amount gas out \<in> set ([SetSteps EOA_steps, SetOpen True] @ t1 @ t2 @ t3 @ [] @ [])"
        by simp
      from approval_in_erc20_block[OF E this setup_all[OF tm_fails(1)]
          EOA_transferManager_all[OF tm_fails(4)]]
      have "ApproveErc20 a amount gas out \<in> set t2" by simp
      with tm_fails show ?thesis by (intro final[of t1 cur tk p t2 "Inr ()"]) auto
    next
      case (reaches_order t1 cur tk p t2 t3 t4 sm rs t5 r)
      from mem reaches_order(7)
      have "ApproveErc20 a amount gas out \<in> set ([SetSteps EOA_steps, SetOpen True] @ t1 @ t2 @ t3 @ t4 @ t5)"
        by simp
      from approval_in_erc20_block[OF E this setup_all[OF reaches_order(1)]
          EOA_transferManager_all[OF reaches_order(4)] EOA_referral_all[OF reaches_order(5)]
          EOA_executeOrder_all[OF reaches_order(6)]]
      have "ApproveErc20 a amount gas out \<in> set t2" .
      with reaches_order show ?thesis by (intro final[of t1 cur tk p t2 "Inr ()"]) auto
    qed
  qed
qed

lemma EOA_execute_value:
  assumes mem: "ExecuteOrder o' tk' s ov out \<in> set (fst (EOA_execute env order u ppu hn tu))"
  shows "\<exists>cur p.
           getCurrencyByAddress env (chainId order) (currency order) = Some cur \<and>
           bigInt env (price order) = Inr p \<and>
           ov = (if address cur = zeroAddress then Some (p * u) else None)"
proof (cases rule: EOA_execute_reach[of env order u ppu hn tu])
  case (stops e)
  from early_excludes[OF stops(1), of "ExecuteOrder o' tk' s ov out"] mem
  show ?thesis by simp
next
  case (reaches c t1 cur tk p t2 t3 t4 sm rs t5 r)
  from early_excludes[OF reaches(9), of "ExecuteOrder o' tk' s ov out"] mem reaches(8)
  have "ExecuteOrder o' tk' s ov out \<in> set t5" by simp
  with EOA_executeOrder_shape[OF reaches(7)]
  have "ov = (if address cur = zeroAddress then Some (p * u) else None)"
    by (auto simp: submit_referral_eq)
  moreover from setup_result[OF reaches(2)]
  have "getCurrencyByAddress env (chainId order) (currency order) = Some cur" by simp
  ultimately show ?thesis using reaches(3) by blast
qed

lemma EOA_execute_part_001_approval:
  assumes mem: "ApproveErc20 a amount gas out \<in> set (fst (EOA_execute_part_001 env order u ppu hn tu))"
  shows "\<exists>cur p.
           getCurrencyByAddress env (chainId order) (currency order) = Some cur \<and>
           bigInt env (price order) = Inr p \<and>
           address cur \<noteq> zeroAddress \<and> a = currency order \<and> amount = p * u \<and>
           ((\<exists>allowance.
               GetERC20Allowance (currency order) (Inr allowance)
                 \<in> set (fst (EOA_execute_part_001 env order u ppu hn tu)) \<and>
               allowance < p * u))"
proof -
  from initial_guards_shape[of env] show ?thesis
  proof
    assume "\<exists>e. initial_guards env = ([SetOpen False], Inl e)"
    then obtain e where "initial_guards env = ([SetOpen False], Inl e)" ..
    from EOA_execute_part_001_guards_fail[OF this] mem show ?thesis by simp
  next
    assume "\<exists>c. initial_guards env = ([], Inr c)"
    then obtain c where g: "initial_guards env = ([], Inr c)" ..
    have E: "ApproveErc20 a amount gas out = ApproveErc20 a amount gas out \<or>
             ApproveErc20 a amount gas out = ApproveErc20Safe safe' a amount out'"
      by simp
    have final: ?thesis
      if s1: "setup_order_execution env order u ppu = (t1, Inr (Some cur, tk))"
        and bi: "bigInt env (price order) = Inr p"
        and s2: "EOA_ERC20_part_001 env order cur (p * u) = (t2, r2)"
        and in2: "ApproveErc20 a amount gas out \<in> set t2"
        and sub: "set t2 \<subseteq> set (fst (EOA_execute_part_001 env order u ppu hn tu))"
      for t1 cur tk p t2 r2
    proof -
      from setup_result[OF s1]
      have "getCurrencyByAddress env (chainId order) (currency order) = Some cur" by simp
      moreover note bi
      moreover from EOA_ERC20_part_001_approves[OF s2 in2] sub
      have "address cur \<noteq> zeroAddress \<and> a = currency order \<and> amount = p * u \<and>
            ((\<exists>allowance.
               GetERC20Allowance (currency order) (Inr allowance)
                 \<in> set (fst (EOA_execute_part_001 env order u ppu hn tu)) \<and>
               allowance < p * u))"
        by blast
      ultimately show ?thesis by blast
    qed
    from g show ?thesis
    proof (cases rule: EOA_execute_part_001_cases[where order = order and u = u and ppu = ppu and hn = hn and tu = tu])
      case (setup_fails t1 e)
      from mem setup_fails(2)
      have "ApproveErc20 a amount gas out \<in> set ([SetSteps EOA_steps, SetOpen True] @ t1 @ [] @ [] @ [] @ [])"
        by simp
      from approval_in_erc20_block[OF E this setup_all[OF setup_fails(1)]]
      show ?thesis by simp
    next
      case (bigInt_fails t1 cur tk e)
      from mem bigInt_fails(3)
      have "ApproveErc20 a amount gas out \<in> set ([SetSteps EOA_steps, SetOpen True] @ t1 @ [] @ [] @ [] @ [])"
        by simp
      from approval_in_erc20_block[OF E this setup_all[OF bigInt_fails(1)]]
      show ?thesis by simp
    next
      case (erc20_fails t1 cur tk p t2 e)
      from mem erc20_fails(4)
      have "ApproveErc20 a amount gas out \<in> set ([SetSteps EOA_steps, SetOpen True] @ t1 @ t2 @ [] @ [] @ [])"
        by simp
      from approval_in_erc20_block[OF E this setup_all[OF erc20_fails(1)]]
      have "ApproveErc20 a amount gas out \<in> set t2" by simp
      with erc20_fails show ?thesis by (intro final[of t1 cur tk p t2 "Inl e"]) auto
    next
      case (tm_fails t1 cur tk p t2 t3 e)
      from mem tm_fails(5)
      have "ApproveErc20 a amount gas out \<in> set ([SetSteps EOA_steps, SetOpen True] @ t1 @ t2 @ t3 @ [] @ [])"
        by simp
      from approval_in_erc20_block[OF E this setup_all[OF tm_fails(1)]
          EOA_transferManager_part_001_all[OF tm_fails(4)]]
      have "ApproveErc20 a amount gas out \<in> set t2" by simp
      with tm_fails show ?thesis by (intro final[of t1 cur tk p t2 "Inr ()"]) auto
    next
      case (reaches_order t1 cur tk p t2 t3 t4 sm rs t5 r)
      from mem reaches_order(7)
      have "ApproveErc20 a amount gas out \<in> set ([SetSteps EOA_steps, SetOpen True] @ t1 @ t2 @ t3 @ t4 @ t5)"
        by simp
      from approval_in_erc20_block[OF E this setup_all[OF reaches_order(1)]
          EOA_transferManager_part_001_all[OF reaches_order(4)] EOA_referral_all[OF reaches_order(5)]
          EOA_executeOrder_part_001_all[OF reaches_order(6)]]
      have "ApproveErc20 a amount gas out \<in> set t2" .
      with reaches_order show ?thesis by (intro final[of t1 cur tk p t2 "Inr ()"]) auto
    qed
  qed
qed

lemma EOA_execute_part_001_value:
  assumes mem: "ExecuteOrder o' tk' s ov out \<in> set (fst (EOA_execute_part_001 env order u ppu hn tu))"
  shows "\<exists>cur p.
           getCurrencyByAddress env (chainId order) (currency order) = Some cur \<and>
           bigInt env (price order) = Inr p \<and>
           ov = (if address cur = zeroAddress then Some (p * u) else None)"
proof (cases rule: EOA_execute_part_001_reach[of env order u ppu hn tu])
  case (stops e)
  from early_excludes[OF stops(1), of "ExecuteOrder o' tk' s ov out"] mem
  show ?thesis by simp
next
  case (reaches c t1 cur tk p t2 t3 t4 sm rs t5 r)
  from early_excludes[OF reaches(9), of "ExecuteOrder o' tk' s ov out"] mem reaches(8)
  have "ExecuteOrder o' tk' s ov out \<in> set t5" by simp
  with EOA_executeOrder_part_001_shape[OF reaches(7)]
  have "ov = (if address cur = zeroAddress then Some (p * u) else None)"
    by (auto simp: submit_referral_eq)
  moreover from setup_result[OF reaches(2)]
  have "getCurrencyByAddress env (chainId order) (currency order) = Some cur" by simp
  ultimately show ?thesis using reaches(3) by blast
qed

lemma Safe_execute_approval:
  assumes mem: "ApproveErc20Safe safe a amount out \<in> set (fst (Safe_execute env order u ppu))"
  shows "\<exists>cur p.
           getCurrencyByAddress env (chainId order) (currency order) = Some cur \<and>
           bigInt env (price order) = Inr p \<and>
           address cur \<noteq> zeroAddress \<and> a = currency order \<and> amount = p * u \<and>
           ((\<exists>allowance.
               GetERC20Allowance (currency order) (Inr allowance)
                 \<in> set (fst (Safe_execute env order u ppu)) \<and>
               allowance < p * u))"
proof -
  from initial_guards_shape[of env] show ?thesis
  proof
    assume "\<exists>e. initial_guards env = ([SetOpen False], Inl e)"
    then obtain e where "initial_guards env = ([SetOpen False], Inl e)" ..
    from Safe_execute_guards_fail[OF this] mem show ?thesis by simp
  next
    assume "\<exists>c. initial_guards env = ([], Inr c)"
    then obtain c where g: "initial_guards env = ([], Inr c)" ..
    have E: "ApproveErc20Safe safe a amount out = ApproveErc20 a amount gas' out' \<or>
             ApproveErc20Safe safe a amount out = ApproveErc20Safe safe a amount out"
      by simp
    have final: ?thesis
      if s1: "setup_order_execution env order u ppu = (t1, Inr (Some cur, tk))"
        and bi: "bigInt env (price order) = Inr p"
        and s2: "Safe_ERC20 env order cur (p * u) = (t2, r2)"
        and in2: "ApproveErc20Safe safe a amount out \<in> set t2"
        and sub: "set t2 \<subseteq> set (fst (Safe_execute env order u ppu))"
      for t1 cur tk p t2 r2
    proof -
      from setup_result[OF s1]
      have "getCurrencyByAddress env (chainId order) (currency order) = Some cur" by simp
      moreover note bi
      moreover from Safe_ERC20_approves[OF s2 in2] sub
      have "address cur \<noteq> zeroAddress \<and> a = currency order \<and> amount = p * u \<and>
            ((\<exists>allowance.
               GetERC20Allowance (currency order) (Inr allowance)
                 \<in> set (fst (Safe_execute env order u ppu)) \<and>
               allowance < p * u))"
        by blast
      ultimately show ?thesis by blast
    qed
    from g show ?thesis
    proof (cases rule: Safe_execute_cases[where order = order and u = u and ppu = ppu])
      case (setup_fails t1 e)
      from mem setup_fails(2)
      have "ApproveErc20Safe safe a amount out \<in> set ([SetSteps Safe_steps, SetOpen True] @ t1 @ [] @ [] @ [] @ [])"
        by simp
      from approval_in_erc20_block[OF E this setup_all[OF setup_fails(1)]]
      show ?thesis by simp
    next
      case (bigInt_fails t1 cur tk e)
      from mem bigInt_fails(3)
      have "ApproveErc20Safe safe a amount out \<in> set ([SetSteps Safe_steps, SetOpen True] @ t1 @ [] @ [] @ [] @ [])"
        by simp
      from approval_in_erc20_block[OF E this setup_all[OF bigInt_fails(1)]]
      show ?thesis by simp
    next
      case (erc20_fails t1 cur tk p t2 e)
      from mem erc20_fails(4)
      have "ApproveErc20Safe safe a amount out \<in> set ([SetSteps Safe_steps, SetOpen True] @ t1 @ t2 @ [] @ [] @ [])"
        by simp
      from approval_in_erc20_block[OF E this setup_all[OF erc20_fails(1)]]
      have "ApproveErc20Safe safe a amount out \<in> set t2" by simp
      with erc20_fails show ?thesis by (intro final[of t1 cur tk p t2 "Inl e"]) auto
    next
      case (tm_fails t1 cur tk p t2 t3 e)
      from mem tm_fails(5)
      have "ApproveErc20Safe safe a amount out \<in> set ([SetSteps Safe_steps, SetOpen True] @ t1 @ t2 @ t3 @ [] @ [])"
        by simp
      from approval_in_erc20_block[OF E this setup_all[OF tm_fails(1)]
          Safe_transferManager_all[OF tm_fails(4)]]
      have "ApproveErc20Safe safe a amount out \<in> set t2" by simp
      with tm_fails show ?thesis by (intro final[of t1 cur tk p t2 "Inr ()"]) auto
    next
      case (reaches_order t1 cur tk p t2 t3 t4 sm rs t5 r)
      from mem reaches_order(7)
      have "ApproveErc20Safe safe a amount out \<in> set ([SetSteps Safe_steps, SetOpen True] @ t1 @ t2 @ t3 @ t4 @ t5)"
        by simp
      from approval_in_erc20_block[OF E this setup_all[OF reaches_order(1)]
          Safe_transferManager_all[OF reaches_order(4)] Safe_referral_all[OF reaches_order(5)]
          Safe_executeOrder_all[OF reaches_order(6)]]
      have "ApproveErc20Safe safe a amount out \<in> set t2" .
      with reaches_order show ?thesis by (intro final[of t1 cur tk p t2 "Inr ()"]) auto
    qed
  qed
qed

lemma Safe_execute_value:
  assumes mem: "ExecuteOrderSafe sa o' tk' s ov out \<in> set (fst (Safe_execute env order u ppu))"
  shows "\<exists>cur p.
           getCurrencyByAddress env (chainId order) (currency order) = Some cur \<and>
           bigInt env (price order) = Inr p \<and>
           ov = (if address cur = zeroAddress then Some (p * u) else None)"
proof (cases rule: Safe_execute_reach[of env order u ppu])
  case (stops e)
  from early_excludes[OF stops(1), of "ExecuteOrderSafe sa o' tk' s ov out"] mem
  show ?thesis by simp
next
  case (reaches c t1 cur tk p t2 t3 t4 sm rs t5 r)
  from early_excludes[OF reaches(9), of "ExecuteOrderSafe sa o' tk' s ov out"] mem reaches(8)
  have "ExecuteOrderSafe sa o' tk' s ov out \<in> set t5" by simp
  with Safe_executeOrder_shape[OF reaches(7)]
  have "ov = (if address cur = zeroAddress then Some (p * u) else None)"
    by (auto simp: submit_referral_eq)
  moreover from setup_result[OF reaches(2)]
  have "getCurrencyByAddress env (chainId order) (currency order) = Some cur" by simp
  ultimately show ?thesis using reaches(3) by blast
qed

text \<open>
  Claim C5, as stated, in the mini-app host: with an allowance of 1000 and a total price
  of \<open>2 * 5 = 10\<close>, \<open>EOABuyFractionalStrategy.execute\<close> still calls \<open>approveErc20\<close>.
\<close>

theorem farcaster_approval_ignores_allowance_counterexample:
  "isFarcasterEnvironment (window farcaster_env) \<and>
   getERC20Allowance farcaster_env (currency demo_order) = Inr 1000 \<and>
   bigInt farcaster_env (price demo_order) = Inr 2 \<and>
   \<not> (1000 < (2::int) * 5) \<and>
   ApproveErc20 (currency demo_order) (2 * 5) (Some 100000) (Inr \<lparr>hash = ''0xa1''\<rparr>)
     \<in> set (fst (EOA_execute farcaster_env demo_order 5 ''2'' None None))"
  by code_simp

text \<open>
  Claim C5, amended. With \<open>totalPrice = BigInt(order.price) * unitAmount\<close> in exact
  integer arithmetic and the currency looked up for the order: every ERC20 approval in a
  run is for the order's currency and for \<open>totalPrice\<close>, and is made only when the
  currency's address is not the zero address and the allowance read in that run was
  below \<open>totalPrice\<close> -- except in \<open>EOABuyFractionalStrategy.tsx\<close> inside the
  mini-app host, where the allowance is not read and the approval is attempted for every
  token. Hence no approval is made for the native currency. The value override given to
  \<open>executeOrder\<close> / \<open>executeOrderSafe\<close> is \<open>totalPrice\<close> for the native currency
  and absent otherwise.
\<close>

theorem currency_approval_and_native_value:
  "(\<forall>a amount gas out.
      ApproveErc20 a amount gas out \<in> set (fst (EOA_execute env order u ppu hn tu)) \<longrightarrow>
      (\<exists>cur p.
         getCurrencyByAddress env (chainId order) (currency order) = Some cur \<and>
         bigInt env (price order) = Inr p \<and>
         address cur \<noteq> zeroAddress \<and> a = currency order \<and> amount = p * u \<and>
         (isFarcasterEnvironment (window env) \<or>
          (\<exists>allowance.
             GetERC20Allowance (currency order) (Inr allowance)
               \<in> set (fst (EOA_execute env order u ppu hn tu)) \<and>
             allowance < p * u)))) \<and>
   (\<forall>a amount gas out.
      ApproveErc20 a amount gas out
        \<in> set (fst (EOA_execute_part_001 env order u ppu hn tu)) \<longrightarrow>
      (\<exists>cur p.
         getCurrencyByAddress env (chainId order) (currency order) = Some cur \<and>
         bigInt env (price order) = Inr p \<and>
         address cur \<noteq> zeroAddress \<and> a = currency order \<and> amount = p * u \<and>
         (\<exists>allowance.
            GetERC20Allowance (currency order) (Inr allowance)
              \<in> set (fst (EOA_execute_part_001 env order u ppu hn tu)) \<and>
            allowance < p * u))) \<and>
   (\<forall>safe a amount out.
      ApproveErc20Safe safe a amount out \<in> set (fst (Safe_execute env order u ppu)) \<longrightarrow>
      (\<exists>cur p.
         getCurrencyByAddress env (chainId order) (currency order) = Some cur \<and>
         bigInt env (price order) = Inr p \<and>
         address cur \<noteq> zeroAddress \<and> a = currency order \<and> amount = p * u \<and>
         (\<exists>allowance.
            GetERC20Allowance (currency order) (Inr allowance)
              \<in> set (fst (Safe_execute env order u ppu)) \<and>
            allowance < p * u))) \<and>
   (\<forall>o' tk' s ov out.
      ExecuteOrder o' tk' s ov out \<in> set (fst (EOA_execute env order u ppu hn tu)) \<longrightarrow>
      (\<exists>cur p.
         getCurrencyByAddress env (chainId order) (currency order) = Some cur \<and>
         bigInt env (price order) = Inr p \<and>
         ov = (if address cur = zeroAddress then Some (p * u) else None))) \<and>
   (\<forall>o' tk' s ov out.
      ExecuteOrder o' tk' s ov out
        \<in> set (fst (EOA_execute_part_001 env order u ppu hn tu)) \<longrightarrow>
      (\<exists>cur p.
         getCurrencyByAddress env (chainId order) (currency order) = Some cur \<and>
         bigInt env (price order) = Inr p \<and>
         ov = (if address cur = zeroAddress then Some (p * u) else None))) \<and>
   (\<forall>sa o' tk' s ov out.
      ExecuteOrderSafe sa o' tk' s ov out \<in> set (fst (Safe_execute env order u ppu)) \<longrightarrow>
      (\<exists>cur p.
         getCurrencyByAddress env (chainId order) (currency order) = Some cur \<and>
         bigInt env (price order) = Inr p \<and>
         ov = (if address cur = zeroAddress then Some (p * u) else None)))"
  apply (intro conjI allI impI)
       apply (erule EOA_execute_approval)
      apply (erule EOA_execute_part_001_approval)
     apply (erule Safe_execute_approval)
    apply (erule EOA_execute_value)
   apply (erule EOA_execute_part_001_value)
  apply (erule Safe_execute_value)
  done

theorem currency_approval_and_native_value_witness:
  "ApproveErc20 (currency demo_order) 10 None (Inr \<lparr>hash = ''0xa1''\<rparr>)
     \<in> set (fst (EOA_execute demo_env demo_order 5 ''2'' None None)) \<and>
   (\<exists>cur p.
      getCurrencyByAddress demo_env (chainId demo_order) (currency demo_order) = Some cur \<and>
      bigInt demo_env (price demo_order) = Inr p \<and>
      address cur \<noteq> zeroAddress \<and> 10 = p * 5 \<and>
      (isFarcasterEnvironment (window demo_env) \<or>
       (\<exists>allowance.
          GetERC20Allowance (currency demo_order) (Inr allowance)
            \<in> set (fst (EOA_execute demo_env demo_order 5 ''2'' None None)) \<and>
          allowance < p * 5)))"
proof -
  have mem: "ApproveErc20 (currency demo_order) 10 None (Inr \<lparr>hash = ''0xa1''\<rparr>)
     \<in> set (fst (EOA_execute demo_env demo_order 5 ''2'' None None))"
    by code_simp
  note first = currency_approval_and_native_value
    [of demo_env demo_order 5 "''2''" None None, THEN conjunct1, rule_format, OF mem]
  then obtain cur p where
    "getCurrencyByAddress demo_env (chainId demo_order) (currency demo_order) = Some cur"
    "bigInt demo_env (price demo_order) = Inr p"
    "address cur \<noteq> zeroAddress" "10 = p * 5"
    "isFarcasterEnvironment (window demo_env) \<or>
       (\<exists>allowance.
          GetERC20Allowance (currency demo_order) (Inr allowance)
            \<in> set (fst (EOA_execute demo_env demo_order 5 ''2'' None None)) \<and>
          allowance < p * 5)"
    by (elim exE conjE)
  with mem show ?thesis by (intro conjI exI[of _ cur] exI[of _ p])
qed

section \<open>Referral attribution\<close>

lemma signature_in_referral_block:
  assumes e: "e = SignMessage m out"
    and mem: "e \<in> set ([SetSteps x, SetOpen True] @ t1 @ t2 @ t3 @ t4 @ t5)"
    and "list_all (belongs_to OrderSetup) t1"
    and "list_all (belongs_to CurrencyApproval) t2"
    and "list_all (belongs_to TransferManagerApproval) t3"
    and "list_all (belongs_to OrderExecution) t5"
  shows "e \<in> set t4"
proof -
  from e have "\<not> belongs_to OrderSetup e" "\<not> belongs_to CurrencyApproval e"
    "\<not> belongs_to TransferManagerApproval e" "\<not> belongs_to OrderExecution e"
    by auto
  with assms(3-6) have "e \<notin> set t1" "e \<notin> set t2" "e \<notin> set t3" "e \<notin> set t5"
    by (simp_all add: not_of_step)
  moreover from e have "e \<noteq> SetSteps x" "e \<noteq> SetOpen True" by auto
  ultimately show ?thesis using mem by simp
qed

lemma unique_position:
  assumes eq: "xs @ [y] @ zs = a @ x # b" and "x \<notin> set xs" and "x \<notin> set zs"
  shows "a = xs \<and> x = y \<and> b = zs"
proof -
  from split_after_prefix[OF eq assms(2)] obtain a' where
    a: "a = xs @ a'" and rest: "[y] @ zs = a' @ x # b"
    by blast
  show ?thesis
  proof (cases a')
    case Nil
    with a rest show ?thesis by simp
  next
    case (Cons h a'')
    with rest have "zs = a'' @ x # b" by simp
    with assms(3) show ?thesis by simp
  qed
qed

lemma absent_no_position: "x \<notin> set t \<Longrightarrow> t \<noteq> a @ x # b"
  by auto

lemma EOA_execute_signed_message:
  assumes mem: "SignMessage m out \<in> set (fst (EOA_execute env order u ppu hn tu))"
  shows "\<exists>tag. GetReferralTag (this_address env) divvi_consumer (Inr tag)
                 \<in> set (fst (EOA_execute env order u ppu hn tu)) \<and>
               sublist tag m \<and> sublist (order_id order) m"
proof -
  from initial_guards_shape[of env] show ?thesis
  proof
    assume "\<exists>e. initial_guards env = ([SetOpen False], Inl e)"
    then obtain e where "initial_guards env = ([SetOpen False], Inl e)" ..
    from EOA_execute_guards_fail[OF this] mem show ?thesis by simp
  next
    assume "\<exists>c. initial_guards env = ([], Inr c)"
    then obtain c where g: "initial_guards env = ([], Inr c)" ..
    from g show ?thesis
    proof (cases rule: EOA_execute_cases[where order = order and u = u and ppu = ppu and hn = hn and tu = tu])
      case (setup_fails t1 e)
      from mem setup_fails(2)
      have "SignMessage m out
              \<in> set ([SetSteps EOA_steps, SetOpen True] @ t1 @ [] @ [] @ [] @ [])"
        by simp
      from signature_in_referral_block[OF refl this setup_all[OF setup_fails(1)]]
      show ?thesis by simp
    next
      case (bigInt_fails t1 cur tk e)
      from mem bigInt_fails(3)
      have "SignMessage m out
              \<in> set ([SetSteps EOA_steps, SetOpen True] @ t1 @ [] @ [] @ [] @ [])"
        by simp
      from signature_in_referral_block[OF refl this setup_all[OF bigInt_fails(1)]]
      show ?thesis by simp
    next
      case (erc20_fails t1 cur tk p t2 e)
      from mem erc20_fails(4)
      have "SignMessage m out
              \<in> set ([SetSteps EOA_steps, SetOpen True] @ t1 @ t2 @ [] @ [] @ [])"
        by simp
      from signature_in_referral_block[OF refl this setup_all[OF erc20_fails(1)]
          EOA_ERC20_all[OF erc20_fails(3)]]
      show ?thesis by simp
    next
      case (tm_fails t1 cur tk p t2 t3 e)
      from mem tm_fails(5)
      have "SignMessage m out
              \<in> set ([SetSteps EOA_steps, SetOpen True] @ t1 @ t2 @ t3 @ [] @ [])"
        by simp
      from signature_in_referral_block[OF refl this setup_all[OF tm_fails(1)]
          EOA_ERC20_all[OF tm_fails(3)] EOA_transferManager_all[OF tm_fails(4)]]
      show ?thesis by simp
    next
      case (reaches_order t1 cur tk p t2 t3 t4 sm rs t5 r)
      from mem reaches_order(7)
      have "SignMessage m out
              \<in> set ([SetSteps EOA_steps, SetOpen True] @ t1 @ t2 @ t3 @ t4 @ t5)"
        by simp
      from signature_in_referral_block[OF refl this setup_all[OF reaches_order(1)]
          EOA_ERC20_all[OF reaches_order(3)] EOA_transferManager_all[OF reaches_order(4)]
          EOA_executeOrder_all[OF reaches_order(6)]]
      have in4: "SignMessage m out \<in> set t4" .
      from EOA_referral_shape[OF reaches_order(5)] in4
      obtain tag where "m = EOA_referralMessage tag order (dateNow env)"
        and "GetReferralTag (this_address env) divvi_consumer (Inr tag) \<in> set t4"
        by auto
      with EOA_referralMessage_contains[of tag order "dateNow env"] reaches_order(7) show ?thesis
        by (intro exI[of _ tag]) simp
    qed
  qed
qed

lemma EOA_execute_submits_after_order:
  assumes tr: "fst (EOA_execute env order u ppu hn tu) = a @ SubmitReferral m s ch out # b"
  shows "m \<noteq> [] \<and> s \<noteq> [] \<and> SignMessage m (Inr s) \<in> set a \<and>
         (\<exists>a1 tk ov tx rc. a = a1 @ [ExecuteOrder order tk (signature order) ov (Inr tx),
                    SetDialogStep ''Awaiting confirmation'' None None,
                    WaitForTransactionReceipt (hash tx) None None (Inr rc)])"
proof (cases rule: EOA_execute_reach[of env order u ppu hn tu])
  case (stops e)
  from early_excludes[OF stops(1), of "SubmitReferral m s ch out"] tr
  show ?thesis by simp
next
  case (reaches c t1 cur tk p t2 t3 t4 sm rs t5 r)
  let ?P = "[SetSteps EOA_steps, SetOpen True] @ t1 @ t2 @ t3 @ t4"
  let ?x = "SubmitReferral m s ch out"
  from early_excludes[OF reaches(9), of ?x]
  have notin: "?x \<notin> set ?P" by simp
  from reaches(8) tr have "?P @ t5 = a @ ?x # b" by simp
  from split_after_prefix[OF this notin]
  obtain a' where a: "a = ?P @ a'" and t5: "t5 = a' @ ?x # b" by (elim exE conjE)
  from t5 have in5: "?x \<in> set t5" by simp
  from EOA_executeOrder_shape[OF reaches(7)] in5
  have shape: "\<exists>tx rc. t5 = [SetDialogStep ''Awaiting buy signature'' None None,
               ExecuteOrder order tk (signature order) (if address cur = zeroAddress then Some (p * u) else None) (Inr tx),
               SetDialogStep ''Awaiting confirmation'' None None,
               WaitForTransactionReceipt (hash tx) None None (Inr rc)] @
                 fst (submit_referral env sm rs c) @ [EmitHash (transactionHash rc),
               SetDialogStep ''Awaiting confirmation'' (Some completed) None,
               SetExtraContent (EOA_success_message u hn tu) (hypercert_id order)
                 (find_chain (SUPPORTED_CHAINS env) (chainId order)) (Some rc) False None]"
    by auto
  then obtain tx rc where shape: "t5 = [SetDialogStep ''Awaiting buy signature'' None None,
               ExecuteOrder order tk (signature order) (if address cur = zeroAddress then Some (p * u) else None) (Inr tx),
               SetDialogStep ''Awaiting confirmation'' None None,
               WaitForTransactionReceipt (hash tx) None None (Inr rc)] @
                 fst (submit_referral env sm rs c) @ [EmitHash (transactionHash rc),
               SetDialogStep ''Awaiting confirmation'' (Some completed) None,
               SetExtraContent (EOA_success_message u hn tu) (hypercert_id order)
                 (find_chain (SUPPORTED_CHAINS env) (chainId order)) (Some rc) False None]"
    by (elim exE)
  have both: "sm \<noteq> [] \<and> rs \<noteq> []"
  proof (rule ccontr)
    assume "\<not> (sm \<noteq> [] \<and> rs \<noteq> [])"
    with shape have "?x \<notin> set t5" by (auto simp: submit_referral_eq)
    with t5 show False by simp
  qed
  with shape t5 have
    "[SetDialogStep ''Awaiting buy signature'' None None,
               ExecuteOrder order tk (signature order) (if address cur = zeroAddress then Some (p * u) else None) (Inr tx),
               SetDialogStep ''Awaiting confirmation'' None None,
               WaitForTransactionReceipt (hash tx) None None (Inr rc)] @ [SubmitReferral sm rs c (submitReferral env sm rs c)] @ [EmitHash (transactionHash rc),
               SetDialogStep ''Awaiting confirmation'' (Some completed) None,
               SetExtraContent (EOA_success_message u hn tu) (hypercert_id order)
                 (find_chain (SUPPORTED_CHAINS env) (chainId order)) (Some rc) False None]
       = a' @ ?x # b"
    by (simp add: submit_referral_eq)
  from unique_position[OF this] have a': "a' = [SetDialogStep ''Awaiting buy signature'' None None,
               ExecuteOrder order tk (signature order) (if address cur = zeroAddress then Some (p * u) else None) (Inr tx),
               SetDialogStep ''Awaiting confirmation'' None None,
               WaitForTransactionReceipt (hash tx) None None (Inr rc)]" and x: "m = sm" "s = rs"
    by simp_all
  from EOA_referral_shape[OF reaches(6)] both
  have "SignMessage sm (Inr rs) \<in> set t4" by auto
  with a x have signed: "SignMessage m (Inr s) \<in> set a" by simp
  from a a' have "a = (?P @ [SetDialogStep ''Awaiting buy signature'' None None]) @ [ExecuteOrder order tk (signature order) (if address cur = zeroAddress then Some (p * u) else None) (Inr tx),
               SetDialogStep ''Awaiting confirmation'' None None,
               WaitForTransactionReceipt (hash tx) None None (Inr rc)]"
    by simp
  then have "\<exists>a1 tk ov tx rc. a = a1 @ [ExecuteOrder order tk (signature order) ov (Inr tx),
                    SetDialogStep ''Awaiting confirmation'' None None,
                    WaitForTransactionReceipt (hash tx) None None (Inr rc)]"
    by blast
  with both x signed show ?thesis by simp
qed

lemma EOA_execute_part_001_signed_message:
  assumes mem: "SignMessage m out \<in> set (fst (EOA_execute_part_001 env order u ppu hn tu))"
  shows "\<exists>tag. GetReferralTag (this_address env) divvi_consumer (Inr tag)
                 \<in> set (fst (EOA_execute_part_001 env order u ppu hn tu)) \<and>
               sublist tag m \<and> sublist (order_id order) m"
proof -
  from initial_guards_shape[of env] show ?thesis
  proof
    assume "\<exists>e. initial_guards env = ([SetOpen False], Inl e)"
    then obtain e where "initial_guards env = ([SetOpen False], Inl e)" ..
    from EOA_execute_part_001_guards_fail[OF this] mem show ?thesis by simp
  next
    assume "\<exists>c. initial_guards env = ([], Inr c)"
    then obtain c where g: "initial_guards env = ([], Inr c)" ..
    from g show ?thesis
    proof (cases rule: EOA_execute_part_001_cases[where order = order and u = u and ppu = ppu and hn = hn and tu = tu])
      case (setup_fails t1 e)
      from mem setup_fails(2)
      have "SignMessage m out
              \<in> set ([SetSteps EOA_steps, SetOpen True] @ t1 @ [] @ [] @ [] @ [])"
        by simp
      from signature_in_referral_block[OF refl this setup_all[OF setup_fails(1)]]
      show ?thesis by simp
    next
      case (bigInt_fails t1 cur tk e)
      from mem bigInt_fails(3)
      have "SignMessage m out
              \<in> set ([SetSteps EOA_steps, SetOpen True] @ t1 @ [] @ [] @ [] @ [])"
        by simp
      from signature_in_referral_block[OF refl this setup_all[OF bigInt_fails(1)]]
      show ?thesis by simp
    next
      case (erc20_fails t1 cur tk p t2 e)
      from mem erc20_fails(4)
      have "SignMessage m out
              \<in> set ([SetSteps EOA_steps, SetOpen True] @ t1 @ t2 @ [] @ [] @ [])"
        by simp
      from signature_in_referral_block[OF refl this setup_all[OF erc20_fails(1)]
          EOA_ERC20_part_001_all[OF erc20_fails(3)]]
      show ?thesis by simp
    next
      case (tm_fails t1 cur tk p t2 t3 e)
      from mem tm_fails(5)
      have "SignMessage m out
              \<in> set ([SetSteps EOA_steps, SetOpen True] @ t1 @ t2 @ t3 @ [] @ [])"
        by simp
      from signature_in_referral_block[OF refl this setup_all[OF tm_fails(1)]
          EOA_ERC20_part_001_all[OF tm_fails(3)] EOA_transferManager_part_001_all[OF tm_fails(4)]]
      show ?thesis by simp
    next
      case (reaches_order t1 cur tk p t2 t3 t4 sm rs t5 r)
      from mem reaches_order(7)
      have "SignMessage m out
              \<in> set ([SetSteps EOA_steps, SetOpen True] @ t1 @ t2 @ t3 @ t4 @ t5)"
        by simp
      from signature_in_referral_block[OF refl this setup_all[OF reaches_order(1)]
          EOA_ERC20_part_001_all[OF reaches_order(3)] EOA_transferManager_part_001_all[OF reaches_order(4)]
          EOA_executeOrder_part_001_all[OF reaches_order(6)]]
      have in4: "SignMessage m out \<in> set t4" .
      from EOA_referral_shape[OF reaches_order(5)] in4
      obtain tag where "m = EOA_referralMessage tag order (dateNow env)"
        and "GetReferralTag (this_address env) divvi_consumer (Inr tag) \<in> set t4"
        by auto
      with EOA_referralMessage_contains[of tag order "dateNow env"] reaches_order(7) show ?thesis
        by (intro exI[of _ tag]) simp
    qed
  qed
qed

lemma EOA_execute_part_001_submits_after_order:
  assumes tr: "fst (EOA_execute_part_001 env order u ppu hn tu) = a @ SubmitReferral m s ch out # b"
  shows "m \<noteq> [] \<and> s \<noteq> [] \<and> SignMessage m (Inr s) \<in> set a \<and>
         (\<exists>a1 tk ov tx rc. a = a1 @ [ExecuteOrder order tk (signature order) ov (Inr tx),
                    SetDialogStep ''Awaiting confirmation'' None None,
                    WaitForTransactionReceipt (hash tx) None None (Inr rc)])"
proof (cases rule: EOA_execute_part_001_reach[of env order u ppu hn tu])
  case (stops e)
  from early_excludes[OF stops(1), of "SubmitReferral m s ch out"] tr
  show ?thesis by simp
next
  case (reaches c t1 cur tk p t2 t3 t4 sm rs t5 r)
  let ?P = "[SetSteps EOA_steps, SetOpen True] @ t1 @ t2 @ t3 @ t4"
  let ?x = "SubmitReferral m s ch out"
  from early_excludes[OF reaches(9), of ?x]
  have notin: "?x \<notin> set ?P" by simp
  from reaches(8) tr have "?P @ t5 = a @ ?x # b" by simp
  from split_after_prefix[OF this notin]
  obtain a' where a: "a = ?P @ a'" and t5: "t5 = a' @ ?x # b" by (elim exE conjE)
  from t5 have in5: "?x \<in> set t5" by simp
  from EOA_executeOrder_part_001_shape[OF reaches(7)] in5
  have shape: "\<exists>tx rc. t5 = [SetDialogStep ''Awaiting buy signature'' None None,
               ExecuteOrder order tk (signature order) (if address cur = zeroAddress then Some (p * u) else None) (Inr tx),
               SetDialogStep ''Awaiting confirmation'' None None,
               WaitForTransactionReceipt (hash tx) None None (Inr rc)] @
                 fst (submit_referral env sm rs c) @ [EmitReceipt rc,
               SetDialogStep ''Awaiting confirmation'' (Some completed) None,
               SetExtraContent (EOA_success_message u hn tu) (hypercert_id order)
                 (find_chain (SUPPORTED_CHAINS env) (chainId order)) (Some rc) False None]"
    by auto
  then obtain tx rc where shape: "t5 = [SetDialogStep ''Awaiting buy signature'' None None,
               ExecuteOrder order tk (signature order) (if address cur = zeroAddress then Some (p * u) else None) (Inr tx),
               SetDialogStep ''Awaiting confirmation'' None None,
               WaitForTransactionReceipt (hash tx) None None (Inr rc)] @
                 fst (submit_referral env sm rs c) @ [EmitReceipt rc,
               SetDialogStep ''Awaiting confirmation'' (Some completed) None,
               SetExtraContent (EOA_success_message u hn tu) (hypercert_id order)
                 (find_chain (SUPPORTED_CHAINS env) (chainId order)) (Some rc) False None]"
    by (elim exE)
  have both: "sm \<noteq> [] \<and> rs \<noteq> []"
  proof (rule ccontr)
    assume "\<not> (sm \<noteq> [] \<and> rs \<noteq> [])"
    with shape have "?x \<notin> set t5" by (auto simp: submit_referral_eq)
    with t5 show False by simp
  qed
  with shape t5 have
    "[SetDialogStep ''Awaiting buy signature'' None None,
               ExecuteOrder order tk (signature order) (if address cur = zeroAddress then Some (p * u) else None) (Inr tx),
               SetDialogStep ''Awaiting confirmation'' None None,
               WaitForTransactionReceipt (hash tx) None None (Inr rc)] @ [SubmitReferral sm rs c (submitReferral env sm rs c)] @ [EmitReceipt rc,
               SetDialogStep ''Awaiting confirmation'' (Some completed) None,
               SetExtraContent (EOA_success_message u hn tu) (hypercert_id order)
                 (find_chain (SUPPORTED_CHAINS env) (chainId order)) (Some rc) False None]
       = a' @ ?x # b"
    by (simp add: submit_referral_eq)
  from unique_position[OF this] have a': "a' = [SetDialogStep ''Awaiting buy signature'' None None,
               ExecuteOrder order tk (signature order) (if address cur = zeroAddress then Some (p * u) else None) (Inr tx),
               SetDialogStep ''Awaiting confirmation'' None None,
               WaitForTransactionReceipt (hash tx) None None (Inr rc)]" and x: "m = sm" "s = rs"
    by simp_all
  from EOA_referral_shape[OF reaches(6)] both
  have "SignMessage sm (Inr rs) \<in> set t4" by auto
  with a x have signed: "SignMessage m (Inr s) \<in> set a" by simp
  from a a' have "a = (?P @ [SetDialogStep ''Awaiting buy signature'' None None]) @ [ExecuteOrder order tk (signature order) (if address cur = zeroAddress then Some (p * u) else None) (Inr tx),
               SetDialogStep ''Awaiting confirmation'' None None,
               WaitForTransactionReceipt (hash tx) None None (Inr rc)]"
    by simp
  then have "\<exists>a1 tk ov tx rc. a = a1 @ [ExecuteOrder order tk (signature order) ov (Inr tx),
                    SetDialogStep ''Awaiting confirmation'' None None,
                    WaitForTransactionReceipt (hash tx) None None (Inr rc)]"
    by blast
  with both x signed show ?thesis by simp
qed

lemma Safe_execute_signed_message:
  assumes mem: "SignMessage m out \<in> set (fst (Safe_execute env order u ppu))"
  shows "\<exists>tag. GetReferralTag (this_address env) divvi_consumer (Inr tag)
                 \<in> set (fst (Safe_execute env order u ppu)) \<and>
               sublist tag m \<and> sublist (order_id order) m"
proof -
  from initial_guards_shape[of env] show ?thesis
  proof
    assume "\<exists>e. initial_guards env = ([SetOpen False], Inl e)"
    then obtain e where "initial_guards env = ([SetOpen False], Inl e)" ..
    from Safe_execute_guards_fail[OF this] mem show ?thesis by simp
  next
    assume "\<exists>c. initial_guards env = ([], Inr c)"
    then obtain c where g: "initial_guards env = ([], Inr c)" ..
    from g show ?thesis
    proof (cases rule: Safe_execute_cases[where order = order and u = u and ppu = ppu])
      case (setup_fails t1 e)
      from mem setup_fails(2)
      have "SignMessage m out
              \<in> set ([SetSteps Safe_steps, SetOpen True] @ t1 @ [] @ [] @ [] @ [])"
        by simp
      from signature_in_referral_block[OF refl this setup_all[OF setup_fails(1)]]
      show ?thesis by simp
    next
      case (bigInt_fails t1 cur tk e)
      from mem bigInt_fails(3)
      have "SignMessage m out
              \<in> set ([SetSteps Safe_steps, SetOpen True] @ t1 @ [] @ [] @ [] @ [])"
        by simp
      from signature_in_referral_block[OF refl this setup_all[OF bigInt_fails(1)]]
      show ?thesis by simp
    next
      case (erc20_fails t1 cur tk p t2 e)
      from mem erc20_fails(4)
      have "SignMessage m out
              \<in> set ([SetSteps Safe_steps, SetOpen True] @ t1 @ t2 @ [] @ [] @ [])"
        by simp
      from signature_in_referral_block[OF refl this setup_all[OF erc20_fails(1)]
          Safe_ERC20_all[OF erc20_fails(3)]]
      show ?thesis by simp
    next
      case (tm_fails t1 cur tk p t2 t3 e)
      from mem tm_fails(5)
      have "SignMessage m out
              \<in> set ([SetSteps Safe_steps, SetOpen True] @ t1 @ t2 @ t3 @ [] @ [])"
        by simp
      from signature_in_referral_block[OF refl this setup_all[OF tm_fails(1)]
          Safe_ERC20_all[OF tm_fails(3)] Safe_transferManager_all[OF tm_fails(4)]]
      show ?thesis by simp
    next
      case (reaches_order t1 cur tk p t2 t3 t4 sm rs t5 r)
      from mem reaches_order(7)
      have "SignMessage m out
              \<in> set ([SetSteps Safe_steps, SetOpen True] @ t1 @ t2 @ t3 @ t4 @ t5)"
        by simp
      from signature_in_referral_block[OF refl this setup_all[OF reaches_order(1)]
          Safe_ERC20_all[OF reaches_order(3)] Safe_transferManager_all[OF reaches_order(4)]
          Safe_executeOrder_all[OF reaches_order(6)]]
      have in4: "SignMessage m out \<in> set t4" .
      from Safe_referral_shape[OF reaches_order(5)] in4
      obtain tag where "m = Safe_referralMessage tag (this_address env) order (dateNow env)"
        and "GetReferralTag (this_address env) divvi_consumer (Inr tag) \<in> set t4"
        by auto
      with Safe_referralMessage_contains[of tag "this_address env" order "dateNow env"] reaches_order(7) show ?thesis
        by (intro exI[of _ tag]) simp
    qed
  qed
qed

lemma Safe_execute_submits_after_order:
  assumes tr: "fst (Safe_execute env order u ppu) = a @ SubmitReferral m s ch out # b"
  shows "m \<noteq> [] \<and> s \<noteq> [] \<and> SignMessage m (Inr s) \<in> set a \<and>
         (\<exists>a1 tk ov. a = a1 @ [ExecuteOrderSafe (this_address env) order tk (signature order) ov (Inr ()),
                    SetDialogStep ''Transaction queued'' None None])"
proof (cases rule: Safe_execute_reach[of env order u ppu])
  case (stops e)
  from early_excludes[OF stops(1), of "SubmitReferral m s ch out"] tr
  show ?thesis by simp
next
  case (reaches c t1 cur tk p t2 t3 t4 sm rs t5 r)
  let ?P = "[SetSteps Safe_steps, SetOpen True] @ t1 @ t2 @ t3 @ t4"
  let ?x = "SubmitReferral m s ch out"
  from early_excludes[OF reaches(9), of ?x]
  have notin: "?x \<notin> set ?P" by simp
  from reaches(8) tr have "?P @ t5 = a @ ?x # b" by simp
  from split_after_prefix[OF this notin]
  obtain a' where a: "a = ?P @ a'" and t5: "t5 = a' @ ?x # b" by (elim exE conjE)
  from t5 have in5: "?x \<in> set t5" by simp
  from Safe_executeOrder_shape[OF reaches(7)] in5
  have shape: "t5 = [SetDialogStep ''Submitting order'' None None,
               ExecuteOrderSafe (this_address env) order tk (signature order) (if address cur = zeroAddress then Some (p * u) else None) (Inr ()),
               SetDialogStep ''Transaction queued'' None None] @
                 fst (submit_referral env sm rs c) @ [SetExtraContent SubmittedToSafe (hypercert_id order)
             (find_chain (SUPPORTED_CHAINS env) (chainId order)) None True
             (Some (this_address env))]"
    by auto
  have both: "sm \<noteq> [] \<and> rs \<noteq> []"
  proof (rule ccontr)
    assume "\<not> (sm \<noteq> [] \<and> rs \<noteq> [])"
    with shape have "?x \<notin> set t5" by (auto simp: submit_referral_eq)
    with t5 show False by simp
  qed
  with shape t5 have
    "[SetDialogStep ''Submitting order'' None None,
               ExecuteOrderSafe (this_address env) order tk (signature order) (if address cur = zeroAddress then Some (p * u) else None) (Inr ()),
               SetDialogStep ''Transaction queued'' None None] @ [SubmitReferral sm rs c (submitReferral env sm rs c)] @ [SetExtraContent SubmittedToSafe (hypercert_id order)
             (find_chain (SUPPORTED_CHAINS env) (chainId order)) None True
             (Some (this_address env))]
       = a' @ ?x # b"
    by (simp add: submit_referral_eq)
  from unique_position[OF this] have a': "a' = [SetDialogStep ''Submitting order'' None None,
               ExecuteOrderSafe (this_address env) order tk (signature order) (if address cur = zeroAddress then Some (p * u) else None) (Inr ()),
               SetDialogStep ''Transaction queued'' None None]" and x: "m = sm" "s = rs"
    by simp_all
  from Safe_referral_shape[OF reaches(6)] both
  have "SignMessage sm (Inr rs) \<in> set t4" by auto
  with a x have signed: "SignMessage m (Inr s) \<in> set a" by simp
  from a a' have "a = (?P @ [SetDialogStep ''Submitting order'' None None]) @ [ExecuteOrderSafe (this_address env) order tk (signature order) (if address cur = zeroAddress then Some (p * u) else None) (Inr ()),
               SetDialogStep ''Transaction queued'' None None]"
    by simp
  then have "\<exists>a1 tk ov. a = a1 @ [ExecuteOrderSafe (this_address env) order tk (signature order) ov (Inr ()),
                    SetDialogStep ''Transaction queued'' None None]"
    by blast
  with both x signed show ?thesis by simp
qed

text \<open>
  Claim C6. The referral block only reports progress, asks for the referral tag and
  signs a message with \<open>signMessage\<close>: no call that sends a transaction. Every message
  signed in a run contains the referral tag obtained in that run and the order's id.
  Wherever \<open>submitReferral\<close> occurs, its message and signature are non-empty, they are
  the message signed in that run and the signature returned for it, and the events
  right before it are the successful order execution: for an EOA \<open>executeOrder\<close> and
  the receipt received for its transaction, for a Safe \<open>executeOrderSafe\<close> and the step
  ``Transaction queued''.
\<close>

theorem referral_is_off_chain_and_follows_the_order:
  "list_all (belongs_to ReferralAttribution) (fst (EOA_referral env order)) \<and>
   list_all (belongs_to ReferralAttribution) (fst (Safe_referral env order)) \<and>
   (\<forall>m out.
      SignMessage m out \<in> set (fst (EOA_execute env order u ppu hn tu)) \<longrightarrow>
      (\<exists>tag. GetReferralTag (this_address env) divvi_consumer (Inr tag)
                \<in> set (fst (EOA_execute env order u ppu hn tu)) \<and>
             sublist tag m \<and> sublist (order_id order) m)) \<and>
   (\<forall>m out.
      SignMessage m out \<in> set (fst (EOA_execute_part_001 env order u ppu hn tu)) \<longrightarrow>
      (\<exists>tag. GetReferralTag (this_address env) divvi_consumer (Inr tag)
                \<in> set (fst (EOA_execute_part_001 env order u ppu hn tu)) \<and>
             sublist tag m \<and> sublist (order_id order) m)) \<and>
   (\<forall>m out.
      SignMessage m out \<in> set (fst (Safe_execute env order u ppu)) \<longrightarrow>
      (\<exists>tag. GetReferralTag (this_address env) divvi_consumer (Inr tag)
                \<in> set (fst (Safe_execute env order u ppu)) \<and>
             sublist tag m \<and> sublist (order_id order) m)) \<and>
   (\<forall>a m s ch out b.
      fst (EOA_execute env order u ppu hn tu) = a @ SubmitReferral m s ch out # b \<longrightarrow>
      m \<noteq> [] \<and> s \<noteq> [] \<and> SignMessage m (Inr s) \<in> set a \<and>
      (\<exists>a1 tk ov tx rc.
         a = a1 @ [ExecuteOrder order tk (signature order) ov (Inr tx),
                   SetDialogStep ''Awaiting confirmation'' None None,
                   WaitForTransactionReceipt (hash tx) None None (Inr rc)])) \<and>
   (\<forall>a m s ch out b.
      fst (EOA_execute_part_001 env order u ppu hn tu) = a @ SubmitReferral m s ch out # b \<longrightarrow>
      m \<noteq> [] \<and> s \<noteq> [] \<and> SignMessage m (Inr s) \<in> set a \<and>
      (\<exists>a1 tk ov tx rc.
         a = a1 @ [ExecuteOrder order tk (signature order) ov (Inr tx),
                   SetDialogStep ''Awaiting confirmation'' None None,
                   WaitForTransactionReceipt (hash tx) None None (Inr rc)])) \<and>
   (\<forall>a m s ch out b.
      fst (Safe_execute env order u ppu) = a @ SubmitReferral m s ch out # b \<longrightarrow>
      m \<noteq> [] \<and> s \<noteq> [] \<and> SignMessage m (Inr s) \<in> set a \<and>
      (\<exists>a1 tk ov.
         a = a1 @ [ExecuteOrderSafe (this_address env) order tk (signature order) ov (Inr ()),
                   SetDialogStep ''Transaction queued'' None None]))"
  apply (intro conjI allI impI)
                    apply (rule EOA_referral_all[OF surjective_pairing])
                   apply (rule Safe_referral_all[OF surjective_pairing])
                  apply (erule EOA_execute_signed_message)
                 apply (erule EOA_execute_part_001_signed_message)
                apply (erule Safe_execute_signed_message)
               apply (erule EOA_execute_submits_after_order[THEN conjunct1])
              apply (erule EOA_execute_submits_after_order[THEN conjunct2, THEN conjunct1])
             apply (erule EOA_execute_submits_after_order
                             [THEN conjunct2, THEN conjunct2, THEN conjunct1])
            apply (erule EOA_execute_submits_after_order
                            [THEN conjunct2, THEN conjunct2, THEN conjunct2])
           apply (erule EOA_execute_part_001_submits_after_order[THEN conjunct1])
          apply (erule EOA_execute_part_001_submits_after_order[THEN conjunct2, THEN conjunct1])
         apply (erule EOA_execute_part_001_submits_after_order
                         [THEN conjunct2, THEN conjunct2, THEN conjunct1])
        apply (erule EOA_execute_part_001_submits_after_order
                        [THEN conjunct2, THEN conjunct2, THEN conjunct2])
       apply (erule Safe_execute_submits_after_order[THEN conjunct1])
      apply (erule Safe_execute_submits_after_order[THEN conjunct2, THEN conjunct1])
     apply (erule Safe_execute_submits_after_order
                     [THEN conjunct2, THEN conjunct2, THEN conjunct1])
    apply (erule Safe_execute_submits_after_order
                    [THEN conjunct2, THEN conjunct2, THEN conjunct2])
  done

theorem referral_is_off_chain_and_follows_the_order_witness:
  "\<exists>a m s ch out b.
     fst (EOA_execute demo_env demo_order 5 ''2'' None None) =
       a @ SubmitReferral m s ch out # b \<and>
     m \<noteq> [] \<and> s \<noteq> [] \<and> SignMessage m (Inr s) \<in> set a \<and>
     (\<exists>a1 tk ov tx rc.
        a = a1 @ [ExecuteOrder demo_order tk (signature demo_order) ov (Inr tx),
                  SetDialogStep ''Awaiting confirmation'' None None,
                  WaitForTransactionReceipt (hash tx) None None (Inr rc)])"
proof -
  have "SubmitReferral (EOA_referralMessage ''tag'' demo_order 7) ''0xsig'' 42220 (Inr ())
          \<in> set (fst (EOA_execute demo_env demo_order 5 ''2'' None None))"
    by code_simp
  then obtain a b where tr:
    "fst (EOA_execute demo_env demo_order 5 ''2'' None None) =
       a @ SubmitReferral (EOA_referralMessage ''tag'' demo_order 7) ''0xsig'' 42220 (Inr ()) # b"
    by (auto simp: in_set_conv_decomp)
  note after = referral_is_off_chain_and_follows_the_order
    [of demo_env demo_order 5 "''2''" None None,
     THEN conjunct2, THEN conjunct2, THEN conjunct2, THEN conjunct2, THEN conjunct2,
     THEN conjunct1, rule_format, OF tr]
  with tr show ?thesis by blast
qed

section \<open>Failures are reported on the progress indicator\<close>

lemma failure_simps [simp]: "failure (Inl x) = Some x" "failure (Inr a) = None"
  by (simp_all add: failure_def)


subsection \<open>Setup\<close>


subsection \<open>ERC20 approval\<close>






subsection \<open>Transfer-manager approval\<close>






subsection \<open>Referral attribution\<close>

lemma EOA_referral_fails:
  assumes "EOA_referral env order = (t, r)"
    and "getReferralTag env (this_address env) divvi_consumer = Inl x \<or>
         (\<exists>tag. getReferralTag env (this_address env) divvi_consumer = Inr tag \<and>
                signMessage env (EOA_referralMessage tag order (dateNow env)) = Inl x)"
  shows "t \<noteq> [] \<and>
         last t = SetDialogStep ''Divvi referral setup'' (Some error)
                    (Some (message_or x ''Error setting up referral'')) \<and>
         r = Inr ([], [])"
  using EOA_referral_shape[OF assms(1)] assms(2) by auto

lemma Safe_referral_fails:
  assumes "Safe_referral env order = (t, r)"
    and "getReferralTag env (this_address env) divvi_consumer = Inl x \<or>
         (\<exists>tag. getReferralTag env (this_address env) divvi_consumer = Inr tag \<and>
                signMessage env
                  (Safe_referralMessage tag (this_address env) order (dateNow env)) = Inl x)"
  shows "t \<noteq> [] \<and>
         last t = SetDialogStep ''Divvi referral setup'' (Some error)
                    (Some (message_or x ''Error setting up referral'')) \<and>
         r = Inr ([], [])"
  using Safe_referral_shape[OF assms(1)] assms(2) by auto



subsection \<open>Order execution\<close>










section \<open>A failed referral does not fail the purchase\<close>

lemma referral_start_in_block:
  assumes mem: "SetDialogStep ''Divvi referral setup'' None None
                  \<in> set ([SetSteps x, SetOpen True] @ t1 @ t2 @ t3 @ t4 @ t5)"
    and "list_all (belongs_to OrderSetup) t1"
    and "list_all (belongs_to CurrencyApproval) t2"
    and "list_all (belongs_to TransferManagerApproval) t3"
    and "list_all (belongs_to OrderExecution) t5"
  shows "SetDialogStep ''Divvi referral setup'' None None \<in> set t4"
proof -
  let ?e = "SetDialogStep ''Divvi referral setup'' None None"
  have "\<not> belongs_to OrderSetup ?e" "\<not> belongs_to CurrencyApproval ?e"
    "\<not> belongs_to TransferManagerApproval ?e" "\<not> belongs_to OrderExecution ?e"
    by simp_all
  with assms(2-5) have "?e \<notin> set t1" "?e \<notin> set t2" "?e \<notin> set t3" "?e \<notin> set t5"
    by (simp_all add: not_of_step)
  then show ?thesis using mem by simp
qed

lemma no_submission:
  assumes "list_all (belongs_to s1) t1" "list_all (belongs_to s2) t2"
    "list_all (belongs_to s3) t3" "list_all (belongs_to s4) t4"
    "s1 \<noteq> OrderExecution" "s2 \<noteq> OrderExecution" "s3 \<noteq> OrderExecution"
    "s4 \<noteq> OrderExecution"
  shows "SubmitReferral m s ch out \<notin> set ([SetSteps x, SetOpen True] @ t1 @ t2 @ t3 @ t4)"
proof -
  have "\<not> belongs_to s1 (SubmitReferral m s ch out)" "\<not> belongs_to s2 (SubmitReferral m s ch out)"
    "\<not> belongs_to s3 (SubmitReferral m s ch out)" "\<not> belongs_to s4 (SubmitReferral m s ch out)"
    using assms(5-8) by simp_all
  with assms(1-4) show ?thesis by (simp add: not_of_step)
qed

lemma EOA_execute_survives_referral_failure:
  assumes reached: "SetDialogStep ''Divvi referral setup'' None None
                      \<in> set (fst (EOA_execute env order u ppu hn tu))"
    and failed: "getReferralTag env (this_address env) divvi_consumer = Inl x \<or>
         (\<exists>tag. getReferralTag env (this_address env) divvi_consumer = Inr tag \<and>
                signMessage env (EOA_referralMessage tag order (dateNow env)) = Inl x)"
  shows "SetDialogStep ''Divvi referral setup'' (Some error)
           (Some (message_or x ''Error setting up referral''))
           \<in> set (fst (EOA_execute env order u ppu hn tu)) \<and>
         SetDialogStep ''Awaiting buy signature'' None None \<in> set (fst (EOA_execute env order u ppu hn tu)) \<and>
         (\<exists>tk ov out. ExecuteOrder order tk (signature order) ov out \<in> set (fst (EOA_execute env order u ppu hn tu))) \<and>
         (\<forall>m s ch out. SubmitReferral m s ch out \<notin> set (fst (EOA_execute env order u ppu hn tu)))"
proof -
  let ?e = "SetDialogStep ''Divvi referral setup'' None None"
  from initial_guards_shape[of env] show ?thesis
  proof
    assume "\<exists>e. initial_guards env = ([SetOpen False], Inl e)"
    then obtain e where "initial_guards env = ([SetOpen False], Inl e)" ..
    from EOA_execute_guards_fail[OF this] reached show ?thesis by simp
  next
    assume "\<exists>c. initial_guards env = ([], Inr c)"
    then obtain c where g: "initial_guards env = ([], Inr c)" ..
    from g show ?thesis
    proof (cases rule: EOA_execute_cases[where order = order and u = u and ppu = ppu and hn = hn and tu = tu])
      case (setup_fails t1 e)
      from reached setup_fails(2)
      have "?e \<in> set ([SetSteps EOA_steps, SetOpen True] @ t1 @ [] @ [] @ [] @ [])"
        by simp
      from referral_start_in_block[OF this setup_all[OF setup_fails(1)]]
      show ?thesis by simp
    next
      case (bigInt_fails t1 cur tk e)
      from reached bigInt_fails(3)
      have "?e \<in> set ([SetSteps EOA_steps, SetOpen True] @ t1 @ [] @ [] @ [] @ [])"
        by simp
      from referral_start_in_block[OF this setup_all[OF bigInt_fails(1)]]
      show ?thesis by simp
    next
      case (erc20_fails t1 cur tk p t2 e)
      from reached erc20_fails(4)
      have "?e \<in> set ([SetSteps EOA_steps, SetOpen True] @ t1 @ t2 @ [] @ [] @ [])"
        by simp
      from referral_start_in_block[OF this setup_all[OF erc20_fails(1)]
          EOA_ERC20_all[OF erc20_fails(3)]]
      show ?thesis by simp
    next
      case (tm_fails t1 cur tk p t2 t3 e)
      from reached tm_fails(5)
      have "?e \<in> set ([SetSteps EOA_steps, SetOpen True] @ t1 @ t2 @ t3 @ [] @ [])"
        by simp
      from referral_start_in_block[OF this setup_all[OF tm_fails(1)]
          EOA_ERC20_all[OF tm_fails(3)] EOA_transferManager_all[OF tm_fails(4)]]
      show ?thesis by simp
    next
      case (reaches_order t1 cur tk p t2 t3 t4 sm rs t5 r)
      let ?P = "[SetSteps EOA_steps, SetOpen True] @ t1 @ t2 @ t3 @ t4"
      from EOA_referral_fails[OF reaches_order(5) failed]
      have t4: "t4 \<noteq> []"
        "last t4 = SetDialogStep ''Divvi referral setup'' (Some error)
                     (Some (message_or x ''Error setting up referral''))"
        and empty: "sm = []" "rs = []"
        by simp_all
      from t4 have "SetDialogStep ''Divvi referral setup'' (Some error)
                      (Some (message_or x ''Error setting up referral'')) \<in> set t4"
        by (metis last_in_set)
      with reaches_order(7) have first: "SetDialogStep ''Divvi referral setup'' (Some error)
           (Some (message_or x ''Error setting up referral''))
           \<in> set (fst (EOA_execute env order u ppu hn tu))"
        by simp
      from EOA_executeOrder_shape[OF reaches_order(6)]
      have t5: "SetDialogStep ''Awaiting buy signature'' None None \<in> set t5 \<and>
                (\<exists>tk ov out. ExecuteOrder order tk (signature order) ov out \<in> set t5) \<and>
                (\<forall>m s ch out. SubmitReferral m s ch out \<notin> set t5)"
        using empty by (auto simp: submit_referral_eq)
      have "SubmitReferral m s ch out \<notin> set ?P" for m s ch out
        by (rule no_submission[OF setup_all[OF reaches_order(1)]
              EOA_ERC20_all[OF reaches_order(3)] EOA_transferManager_all[OF reaches_order(4)]
              EOA_referral_all[OF reaches_order(5)]]) simp_all
      with t5 reaches_order(7)
      have "SetDialogStep ''Awaiting buy signature'' None None \<in> set (fst (EOA_execute env order u ppu hn tu)) \<and>
         (\<exists>tk ov out. ExecuteOrder order tk (signature order) ov out \<in> set (fst (EOA_execute env order u ppu hn tu))) \<and>
         (\<forall>m s ch out. SubmitReferral m s ch out \<notin> set (fst (EOA_execute env order u ppu hn tu)))"
        by auto
      with first show ?thesis by (rule conjI)
    qed
  qed
qed

lemma EOA_execute_survives_submission_failure:
  assumes "SubmitReferral m s ch (Inl x) \<in> set (fst (EOA_execute env order u ppu hn tu))"
  shows "snd (EOA_execute env order u ppu hn tu) = Inr ()"
proof (cases rule: EOA_execute_reach[of env order u ppu hn tu])
  case (stops e)
  from early_excludes[OF stops(1), of "SubmitReferral m s ch (Inl x)"] assms
  show ?thesis by simp
next
  case (reaches c t1 cur tk p t2 t3 t4 sm rs t5 r)
  from early_excludes[OF reaches(9), of "SubmitReferral m s ch (Inl x)"] assms reaches(8)
  have "SubmitReferral m s ch (Inl x) \<in> set t5" by simp
  with EOA_executeOrder_shape[OF reaches(7)] have "r = Inr ()" by auto
  with reaches(8) show ?thesis by simp
qed

lemma EOA_execute_part_001_survives_referral_failure:
  assumes reached: "SetDialogStep ''Divvi referral setup'' None None
                      \<in> set (fst (EOA_execute_part_001 env order u ppu hn tu))"
    and failed: "getReferralTag env (this_address env) divvi_consumer = Inl x \<or>
         (\<exists>tag. getReferralTag env (this_address env) divvi_consumer = Inr tag \<and>
                signMessage env (EOA_referralMessage tag order (dateNow env)) = Inl x)"
  shows "SetDialogStep ''Divvi referral setup'' (Some error)
           (Some (message_or x ''Error setting up referral''))
           \<in> set (fst (EOA_execute_part_001 env order u ppu hn tu)) \<and>
         SetDialogStep ''Awaiting buy signature'' None None \<in> set (fst (EOA_execute_part_001 env order u ppu hn tu)) \<and>
         (\<exists>tk ov out. ExecuteOrder order tk (signature order) ov out \<in> set (fst (EOA_execute_part_001 env order u ppu hn tu))) \<and>
         (\<forall>m s ch out. SubmitReferral m s ch out \<notin> set (fst (EOA_execute_part_001 env order u ppu hn tu)))"
proof -
  let ?e = "SetDialogStep ''Divvi referral setup'' None None"
  from initial_guards_shape[of env] show ?thesis
  proof
    assume "\<exists>e. initial_guards env = ([SetOpen False], Inl e)"
    then obtain e where "initial_guards env = ([SetOpen False], Inl e)" ..
    from EOA_execute_part_001_guards_fail[OF this] reached show ?thesis by simp
  next
    assume "\<exists>c. initial_guards env = ([], Inr c)"
    then obtain c where g: "initial_guards env = ([], Inr c)" ..
    from g show ?thesis
    proof (cases rule: EOA_execute_part_001_cases[where order = order and u = u and ppu = ppu and hn = hn and tu = tu])
      case (setup_fails t1 e)
      from reached setup_fails(2)
      have "?e \<in> set ([SetSteps EOA_steps, SetOpen True] @ t1 @ [] @ [] @ [] @ [])"
        by simp
      from referral_start_in_block[OF this setup_all[OF setup_fails(1)]]
      show ?thesis by simp
    next
      case (bigInt_fails t1 cur tk e)
      from reached bigInt_fails(3)
      have "?e \<in> set ([SetSteps EOA_steps, SetOpen True] @ t1 @ [] @ [] @ [] @ [])"
        by simp
      from referral_start_in_block[OF this setup_all[OF bigInt_fails(1)]]
      show ?thesis by simp
    next
      case (erc20_fails t1 cur tk p t2 e)
      from reached erc20_fails(4)
      have "?e \<in> set ([SetSteps EOA_steps, SetOpen True] @ t1 @ t2 @ [] @ [] @ [])"
        by simp
      from referral_start_in_block[OF this setup_all[OF erc20_fails(1)]
          EOA_ERC20_part_001_all[OF erc20_fails(3)]]
      show ?thesis by simp
    next
      case (tm_fails t1 cur tk p t2 t3 e)
      from reached tm_fails(5)
      have "?e \<in> set ([SetSteps EOA_steps, SetOpen True] @ t1 @ t2 @ t3 @ [] @ [])"
        by simp
      from referral_start_in_block[OF this setup_all[OF tm_fails(1)]
          EOA_ERC20_part_001_all[OF tm_fails(3)] EOA_transferManager_part_001_all[OF tm_fails(4)]]
      show ?thesis by simp
    next
      case (reaches_order t1 cur tk p t2 t3 t4 sm rs t5 r)
      let ?P = "[SetSteps EOA_steps, SetOpen True] @ t1 @ t2 @ t3 @ t4"
      from EOA_referral_fails[OF reaches_order(5) failed]
      have t4: "t4 \<noteq> []"
        "last t4 = SetDialogStep ''Divvi referral setup'' (Some error)
                     (Some (message_or x ''Error setting up referral''))"
        and empty: "sm = []" "rs = []"
        by simp_all
      from t4 have "SetDialogStep ''Divvi referral setup'' (Some error)
                      (Some (message_or x ''Error setting up referral'')) \<in> set t4"
        by (metis last_in_set)
      with reaches_order(7) have first: "SetDialogStep ''Divvi referral setup'' (Some error)
           (Some (message_or x ''Error setting up referral''))
           \<in> set (fst (EOA_execute_part_001 env order u ppu hn tu))"
        by simp
      from EOA_executeOrder_part_001_shape[OF reaches_order(6)]
      have t5: "SetDialogStep ''Awaiting buy signature'' None None \<in> set t5 \<and>
                (\<exists>tk ov out. ExecuteOrder order tk (signature order) ov out \<in> set t5) \<and>
                (\<forall>m s ch out. SubmitReferral m s ch out \<notin> set t5)"
        using empty by (auto simp: submit_referral_eq)
      have "SubmitReferral m s ch out \<notin> set ?P" for m s ch out
        by (rule no_submission[OF setup_all[OF reaches_order(1)]
              EOA_ERC20_part_001_all[OF reaches_order(3)] EOA_transferManager_part_001_all[OF reaches_order(4)]
              EOA_referral_all[OF reaches_order(5)]]) simp_all
      with t5 reaches_order(7)
      have "SetDialogStep ''Awaiting buy signature'' None None \<in> set (fst (EOA_execute_part_001 env order u ppu hn tu)) \<and>
         (\<exists>tk ov out. ExecuteOrder order tk (signature order) ov out \<in> set (fst (EOA_execute_part_001 env order u ppu hn tu))) \<and>
         (\<forall>m s ch out. SubmitReferral m s ch out \<notin> set (fst (EOA_execute_part_001 env order u ppu hn tu)))"
        by auto
      with first show ?thesis by (rule conjI)
    qed
  qed
qed

lemma EOA_execute_part_001_survives_submission_failure:
  assumes "SubmitReferral m s ch (Inl x) \<in> set (fst (EOA_execute_part_001 env order u ppu hn tu))"
  shows "snd (EOA_execute_part_001 env order u ppu hn tu) = Inr ()"
proof (cases rule: EOA_execute_part_001_reach[of env order u ppu hn tu])
  case (stops e)
  from early_excludes[OF stops(1), of "SubmitReferral m s ch (Inl x)"] assms
  show ?thesis by simp
next
  case (reaches c t1 cur tk p t2 t3 t4 sm rs t5 r)
  from early_excludes[OF reaches(9), of "SubmitReferral m s ch (Inl x)"] assms reaches(8)
  have "SubmitReferral m s ch (Inl x) \<in> set t5" by simp
  with EOA_executeOrder_part_001_shape[OF reaches(7)] have "r = Inr ()" by auto
  with reaches(8) show ?thesis by simp
qed

lemma Safe_execute_survives_referral_failure:
  assumes reached: "SetDialogStep ''Divvi referral setup'' None None
                      \<in> set (fst (Safe_execute env order u ppu))"
    and failed: "getReferralTag env (this_address env) divvi_consumer = Inl x \<or>
         (\<exists>tag. getReferralTag env (this_address env) divvi_consumer = Inr tag \<and>
                signMessage env (Safe_referralMessage tag (this_address env) order (dateNow env)) = Inl x)"
  shows "SetDialogStep ''Divvi referral setup'' (Some error)
           (Some (message_or x ''Error setting up referral''))
           \<in> set (fst (Safe_execute env order u ppu)) \<and>
         SetDialogStep ''Submitting order'' None None \<in> set (fst (Safe_execute env order u ppu)) \<and>
         (\<exists>tk ov out. ExecuteOrderSafe (this_address env) order tk (signature order) ov out \<in> set (fst (Safe_execute env order u ppu))) \<and>
         (\<forall>m s ch out. SubmitReferral m s ch out \<notin> set (fst (Safe_execute env order u ppu)))"
proof -
  let ?e = "SetDialogStep ''Divvi referral setup'' None None"
  from initial_guards_shape[of env] show ?thesis
  proof
    assume "\<exists>e. initial_guards env = ([SetOpen False], Inl e)"
    then obtain e where "initial_guards env = ([SetOpen False], Inl e)" ..
    from Safe_execute_guards_fail[OF this] reached show ?thesis by simp
  next
    assume "\<exists>c. initial_guards env = ([], Inr c)"
    then obtain c where g: "initial_guards env = ([], Inr c)" ..
    from g show ?thesis
    proof (cases rule: Safe_execute_cases[where order = order and u = u and ppu = ppu])
      case (setup_fails t1 e)
      from reached setup_fails(2)
      have "?e \<in> set ([SetSteps Safe_steps, SetOpen True] @ t1 @ [] @ [] @ [] @ [])"
        by simp
      from referral_start_in_block[OF this setup_all[OF setup_fails(1)]]
      show ?thesis by simp
    next
      case (bigInt_fails t1 cur tk e)
      from reached bigInt_fails(3)
      have "?e \<in> set ([SetSteps Safe_steps, SetOpen True] @ t1 @ [] @ [] @ [] @ [])"
        by simp
      from referral_start_in_block[OF this setup_all[OF bigInt_fails(1)]]
      show ?thesis by simp
    next
      case (erc20_fails t1 cur tk p t2 e)
      from reached erc20_fails(4)
      have "?e \<in> set ([SetSteps Safe_steps, SetOpen True] @ t1 @ t2 @ [] @ [] @ [])"
        by simp
      from referral_start_in_block[OF this setup_all[OF erc20_fails(1)]
          Safe_ERC20_all[OF erc20_fails(3)]]
      show ?thesis by simp
    next
      case (tm_fails t1 cur tk p t2 t3 e)
      from reached tm_fails(5)
      have "?e \<in> set ([SetSteps Safe_steps, SetOpen True] @ t1 @ t2 @ t3 @ [] @ [])"
        by simp
      from referral_start_in_block[OF this setup_all[OF tm_fails(1)]
          Safe_ERC20_all[OF tm_fails(3)] Safe_transferManager_all[OF tm_fails(4)]]
      show ?thesis by simp
    next
      case (reaches_order t1 cur tk p t2 t3 t4 sm rs t5 r)
      let ?P = "[SetSteps Safe_steps, SetOpen True] @ t1 @ t2 @ t3 @ t4"
      from Safe_referral_fails[OF reaches_order(5) failed]
      have t4: "t4 \<noteq> []"
        "last t4 = SetDialogStep ''Divvi referral setup'' (Some error)
                     (Some (message_or x ''Error setting up referral''))"
        and empty: "sm = []" "rs = []"
        by simp_all
      from t4 have "SetDialogStep ''Divvi referral setup'' (Some error)
                      (Some (message_or x ''Error setting up referral'')) \<in> set t4"
        by (metis last_in_set)
      with reaches_order(7) have first: "SetDialogStep ''Divvi referral setup'' (Some error)
           (Some (message_or x ''Error setting up referral''))
           \<in> set (fst (Safe_execute env order u ppu))"
        by simp
      from Safe_executeOrder_shape[OF reaches_order(6)]
      have t5: "SetDialogStep ''Submitting order'' None None \<in> set t5 \<and>
                (\<exists>tk ov out. ExecuteOrderSafe (this_address env) order tk (signature order) ov out \<in> set t5) \<and>
                (\<forall>m s ch out. SubmitReferral m s ch out \<notin> set t5)"
        using empty by (auto simp: submit_referral_eq)
      have "SubmitReferral m s ch out \<notin> set ?P" for m s ch out
        by (rule no_submission[OF setup_all[OF reaches_order(1)]
              Safe_ERC20_all[OF reaches_order(3)] Safe_transferManager_all[OF reaches_order(4)]
              Safe_referral_all[OF reaches_order(5)]]) simp_all
      with t5 reaches_order(7)
      have "SetDialogStep ''Submitting order'' None None \<in> set (fst (Safe_execute env order u ppu)) \<and>
         (\<exists>tk ov out. ExecuteOrderSafe (this_address env) order tk (signature order) ov out \<in> set (fst (Safe_execute env order u ppu))) \<and>
         (\<forall>m s ch out. SubmitReferral m s ch out \<notin> set (fst (Safe_execute env order u ppu)))"
        by auto
      with first show ?thesis by (rule conjI)
    qed
  qed
qed

lemma Safe_execute_survives_submission_failure:
  assumes "SubmitReferral m s ch (Inl x) \<in> set (fst (Safe_execute env order u ppu))"
  shows "snd (Safe_execute env order u ppu) = Inr ()"
proof (cases rule: Safe_execute_reach[of env order u ppu])
  case (stops e)
  from early_excludes[OF stops(1), of "SubmitReferral m s ch (Inl x)"] assms
  show ?thesis by simp
next
  case (reaches c t1 cur tk p t2 t3 t4 sm rs t5 r)
  from early_excludes[OF reaches(9), of "SubmitReferral m s ch (Inl x)"] assms reaches(8)
  have "SubmitReferral m s ch (Inl x) \<in> set t5" by simp
  with Safe_executeOrder_shape[OF reaches(7)] have "r = Inr ()" by auto
  with reaches(8) show ?thesis by simp
qed

text \<open>
  Claim C9. When a run reaches the referral block and obtaining the tag or signing the
  message throws, the error is reported under ``Divvi referral setup'', the run goes on
  to the order execution and calls \<open>executeOrder\<close> (\<open>executeOrderSafe\<close>), and
  \<open>submitReferral\<close> is not called in that run. When \<open>submitReferral\<close> throws,
  \<open>execute\<close> still returns normally.
\<close>

theorem referral_failure_is_not_fatal:
  "(\<forall>x.
      SetDialogStep ''Divvi referral setup'' None None
        \<in> set (fst (EOA_execute env order u ppu hn tu)) \<and>
      (getReferralTag env (this_address env) divvi_consumer = Inl x \<or>
       (\<exists>tag. getReferralTag env (this_address env) divvi_consumer = Inr tag \<and>
              signMessage env (EOA_referralMessage tag order (dateNow env)) = Inl x)) \<longrightarrow>
      SetDialogStep ''Divvi referral setup'' (Some error)
        (Some (message_or x ''Error setting up referral''))
        \<in> set (fst (EOA_execute env order u ppu hn tu)) \<and>
      SetDialogStep ''Awaiting buy signature'' None None
        \<in> set (fst (EOA_execute env order u ppu hn tu)) \<and>
      (\<exists>tk ov out. ExecuteOrder order tk (signature order) ov out
                     \<in> set (fst (EOA_execute env order u ppu hn tu))) \<and>
      (\<forall>m s ch out. SubmitReferral m s ch out
                      \<notin> set (fst (EOA_execute env order u ppu hn tu)))) \<and>
   (\<forall>x.
      SetDialogStep ''Divvi referral setup'' None None
        \<in> set (fst (EOA_execute_part_001 env order u ppu hn tu)) \<and>
      (getReferralTag env (this_address env) divvi_consumer = Inl x \<or>
       (\<exists>tag. getReferralTag env (this_address env) divvi_consumer = Inr tag \<and>
              signMessage env (EOA_referralMessage tag order (dateNow env)) = Inl x)) \<longrightarrow>
      SetDialogStep ''Divvi referral setup'' (Some error)
        (Some (message_or x ''Error setting up referral''))
        \<in> set (fst (EOA_execute_part_001 env order u ppu hn tu)) \<and>
      SetDialogStep ''Awaiting buy signature'' None None
        \<in> set (fst (EOA_execute_part_001 env order u ppu hn tu)) \<and>
      (\<exists>tk ov out. ExecuteOrder order tk (signature order) ov out
                     \<in> set (fst (EOA_execute_part_001 env order u ppu hn tu))) \<and>
      (\<forall>m s ch out. SubmitReferral m s ch out
                      \<notin> set (fst (EOA_execute_part_001 env order u ppu hn tu)))) \<and>
   (\<forall>x.
      SetDialogStep ''Divvi referral setup'' None None
        \<in> set (fst (Safe_execute env order u ppu)) \<and>
      (getReferralTag env (this_address env) divvi_consumer = Inl x \<or>
       (\<exists>tag. getReferralTag env (this_address env) divvi_consumer = Inr tag \<and>
              signMessage env
                (Safe_referralMessage tag (this_address env) order (dateNow env)) = Inl x)) \<longrightarrow>
      SetDialogStep ''Divvi referral setup'' (Some error)
        (Some (message_or x ''Error setting up referral''))
        \<in> set (fst (Safe_execute env order u ppu)) \<and>
      SetDialogStep ''Submitting order'' None None
        \<in> set (fst (Safe_execute env order u ppu)) \<and>
      (\<exists>tk ov out. ExecuteOrderSafe (this_address env) order tk (signature order) ov out
                     \<in> set (fst (Safe_execute env order u ppu))) \<and>
      (\<forall>m s ch out. SubmitReferral m s ch out
                      \<notin> set (fst (Safe_execute env order u ppu)))) \<and>
   (\<forall>m s ch x.
      SubmitReferral m s ch (Inl x) \<in> set (fst (EOA_execute env order u ppu hn tu)) \<longrightarrow>
      snd (EOA_execute env order u ppu hn tu) = Inr ()) \<and>
   (\<forall>m s ch x.
      SubmitReferral m s ch (Inl x)
        \<in> set (fst (EOA_execute_part_001 env order u ppu hn tu)) \<longrightarrow>
      snd (EOA_execute_part_001 env order u ppu hn tu) = Inr ()) \<and>
   (\<forall>m s ch x.
      SubmitReferral m s ch (Inl x) \<in> set (fst (Safe_execute env order u ppu)) \<longrightarrow>
      snd (Safe_execute env order u ppu) = Inr ())"
proof -
  have A: "\<forall>x.
      SetDialogStep ''Divvi referral setup'' None None
        \<in> set (fst (EOA_execute env order u ppu hn tu)) \<and>
      (getReferralTag env (this_address env) divvi_consumer = Inl x \<or>
       (\<exists>tag. getReferralTag env (this_address env) divvi_consumer = Inr tag \<and>
              signMessage env (EOA_referralMessage tag order (dateNow env)) = Inl x)) \<longrightarrow>
      SetDialogStep ''Divvi referral setup'' (Some error)
        (Some (message_or x ''Error setting up referral''))
        \<in> set (fst (EOA_execute env order u ppu hn tu)) \<and>
      SetDialogStep ''Awaiting buy signature'' None None
        \<in> set (fst (EOA_execute env order u ppu hn tu)) \<and>
      (\<exists>tk ov out. ExecuteOrder order tk (signature order) ov out
                     \<in> set (fst (EOA_execute env order u ppu hn tu))) \<and>
      (\<forall>m s ch out. SubmitReferral m s ch out
                      \<notin> set (fst (EOA_execute env order u ppu hn tu)))"
    by (intro allI impI, elim conjE) (rule EOA_execute_survives_referral_failure)
  have B: "\<forall>x.
      SetDialogStep ''Divvi referral setup'' None None
        \<in> set (fst (EOA_execute_part_001 env order u ppu hn tu)) \<and>
      (getReferralTag env (this_address env) divvi_consumer = Inl x \<or>
       (\<exists>tag. getReferralTag env (this_address env) divvi_consumer = Inr tag \<and>
              signMessage env (EOA_referralMessage tag order (dateNow env)) = Inl x)) \<longrightarrow>
      SetDialogStep ''Divvi referral setup'' (Some error)
        (Some (message_or x ''Error setting up referral''))
        \<in> set (fst (EOA_execute_part_001 env order u ppu hn tu)) \<and>
      SetDialogStep ''Awaiting buy signature'' None None
        \<in> set (fst (EOA_execute_part_001 env order u ppu hn tu)) \<and>
      (\<exists>tk ov out. ExecuteOrder order tk (signature order) ov out
                     \<in> set (fst (EOA_execute_part_001 env order u ppu hn tu))) \<and>
      (\<forall>m s ch out. SubmitReferral m s ch out
                      \<notin> set (fst (EOA_execute_part_001 env order u ppu hn tu)))"
    by (intro allI impI, elim conjE) (rule EOA_execute_part_001_survives_referral_failure)
  have C: "\<forall>x.
      SetDialogStep ''Divvi referral setup'' None None
        \<in> set (fst (Safe_execute env order u ppu)) \<and>
      (getReferralTag env (this_address env) divvi_consumer = Inl x \<or>
       (\<exists>tag. getReferralTag env (this_address env) divvi_consumer = Inr tag \<and>
              signMessage env
                (Safe_referralMessage tag (this_address env) order (dateNow env)) = Inl x)) \<longrightarrow>
      SetDialogStep ''Divvi referral setup'' (Some error)
        (Some (message_or x ''Error setting up referral''))
        \<in> set (fst (Safe_execute env order u ppu)) \<and>
      SetDialogStep ''Submitting order'' None None
        \<in> set (fst (Safe_execute env order u ppu)) \<and>
      (\<exists>tk ov out. ExecuteOrderSafe (this_address env) order tk (signature order) ov out
                     \<in> set (fst (Safe_execute env order u ppu))) \<and>
      (\<forall>m s ch out. SubmitReferral m s ch out
                      \<notin> set (fst (Safe_execute env order u ppu)))"
    by (intro allI impI, elim conjE) (rule Safe_execute_survives_referral_failure)
  have D: "\<forall>m s ch x.
      SubmitReferral m s ch (Inl x) \<in> set (fst (EOA_execute env order u ppu hn tu)) \<longrightarrow>
      snd (EOA_execute env order u ppu hn tu) = Inr ()"
    by (intro allI impI) (erule EOA_execute_survives_submission_failure)
  have E: "\<forall>m s ch x.
      SubmitReferral m s ch (Inl x)
        \<in> set (fst (EOA_execute_part_001 env order u ppu hn tu)) \<longrightarrow>
      snd (EOA_execute_part_001 env order u ppu hn tu) = Inr ()"
    by (intro allI impI) (erule EOA_execute_part_001_survives_submission_failure)
  have F: "\<forall>m s ch x.
      SubmitReferral m s ch (Inl x) \<in> set (fst (Safe_execute env order u ppu)) \<longrightarrow>
      snd (Safe_execute env order u ppu) = Inr ()"
    by (intro allI impI) (erule Safe_execute_survives_submission_failure)
  show ?thesis
    by (rule conjI[OF A conjI[OF B conjI[OF C conjI[OF D conjI[OF E F]]]]])
qed

theorem referral_failure_is_not_fatal_witness:
  "SetDialogStep ''Divvi referral setup'' None None
     \<in> set (fst (EOA_execute unreferred_env demo_order 5 ''2'' None None)) \<and>
   getReferralTag unreferred_env (this_address unreferred_env) divvi_consumer = Inr ''tag'' \<and>
   signMessage unreferred_env (EOA_referralMessage ''tag'' demo_order (dateNow unreferred_env)) =
     Inl (JsError ''Method not supported'') \<and>
   SetDialogStep ''Divvi referral setup'' (Some error) (Some ''Method not supported'')
     \<in> set (fst (EOA_execute unreferred_env demo_order 5 ''2'' None None)) \<and>
   (\<exists>tk ov out. ExecuteOrder demo_order tk (signature demo_order) ov out
                  \<in> set (fst (EOA_execute unreferred_env demo_order 5 ''2'' None None))) \<and>
   (\<forall>m s ch out. SubmitReferral m s ch out
                   \<notin> set (fst (EOA_execute unreferred_env demo_order 5 ''2'' None None))) \<and>
   snd (EOA_execute unreferred_env demo_order 5 ''2'' None None) = Inr () \<and>
   SubmitReferral (EOA_referralMessage ''tag'' demo_order 7) ''0xsig'' 42220
       (Inl (JsError ''Service unavailable''))
     \<in> set (fst (EOA_execute unsubmitted_env demo_order 5 ''2'' None None)) \<and>
   snd (EOA_execute unsubmitted_env demo_order 5 ''2'' None None) = Inr ()"
proof -
  have thrown: "SubmitReferral (EOA_referralMessage ''tag'' demo_order 7) ''0xsig'' 42220
       (Inl (JsError ''Service unavailable''))
     \<in> set (fst (EOA_execute unsubmitted_env demo_order 5 ''2'' None None))"
    by code_simp
  note swallowed = referral_failure_is_not_fatal
    [of unsubmitted_env demo_order 5 "''2''" None None,
     THEN conjunct2, THEN conjunct2, THEN conjunct2, THEN conjunct1, rule_format, OF thrown]
  have reached: "SetDialogStep ''Divvi referral setup'' None None
     \<in> set (fst (EOA_execute unreferred_env demo_order 5 ''2'' None None))"
    by code_simp
  have tag: "getReferralTag unreferred_env (this_address unreferred_env) divvi_consumer =
               Inr ''tag''"
    by code_simp
  have sign: "signMessage unreferred_env
                (EOA_referralMessage ''tag'' demo_order (dateNow unreferred_env)) =
              Inl (JsError ''Method not supported'')"
    by code_simp
  have ok: "snd (EOA_execute unreferred_env demo_order 5 ''2'' None None) = Inr ()"
    by code_simp
  from tag sign have failed:
    "getReferralTag unreferred_env (this_address unreferred_env) divvi_consumer =
       Inl (JsError ''Method not supported'') \<or>
     (\<exists>tag. getReferralTag unreferred_env (this_address unreferred_env) divvi_consumer =
              Inr tag \<and>
            signMessage unreferred_env
              (EOA_referralMessage tag demo_order (dateNow unreferred_env)) =
              Inl (JsError ''Method not supported''))"
    by blast
  note survives = referral_failure_is_not_fatal
    [of unreferred_env demo_order 5 "''2''" None None, THEN conjunct1, rule_format,
     OF conjI, OF reached failed]
  then have "SetDialogStep ''Divvi referral setup'' (Some error) (Some ''Method not supported'')
       \<in> set (fst (EOA_execute unreferred_env demo_order 5 ''2'' None None)) \<and>
     (\<exists>tk ov out. ExecuteOrder demo_order tk (signature demo_order) ov out
                    \<in> set (fst (EOA_execute unreferred_env demo_order 5 ''2'' None None))) \<and>
     (\<forall>m s ch out. SubmitReferral m s ch out
                     \<notin> set (fst (EOA_execute unreferred_env demo_order 5 ''2'' None None)))"
    by simp
  with reached tag sign ok thrown swallowed show ?thesis by simp
qed


end
